(* ===== verification/Prelude.thy ===== *)
theory Prelude
  imports Complex_Main "HOL-Library.AList" "HOL-Library.Sublist"
begin

text \<open>
  What every other theory shares: Python strings as lists of code points, the ordered
  dictionary of \<^verbatim>\<open>collections.OrderedDict\<close> as an association list, slices, and the
  exceptions of the language that the modelled code can raise.
\<close>

section \<open>Rule collections\<close>

named_theorems od_simps \<open>rewriting of ordered-dictionary operations\<close>
named_theorems frame_simps \<open>fields an operation leaves as they were\<close>

section \<open>Strings\<close>

text \<open>
  A Python \<^verbatim>\<open>str\<close> is a sequence of code points, so \<open>length\<close> here is Python's
  \<^verbatim>\<open>len\<close>. \<open>lit\<close> embeds an ASCII literal of the source.
\<close>

type_synonym str = "nat list"

definition lit :: "string \<Rightarrow> str" where
  "lit s = map of_char s"

lemma of_char_nat_eq_iff [simp]: "((of_char c :: nat) = of_char d) = (c = d)"
  by simp

lemma inj_of_char_nat: "inj (of_char :: char \<Rightarrow> nat)"
  by (rule injI) simp

lemma lit_eq_iff [simp]: "(lit a = lit b) = (a = b)"
  unfolding lit_def by (simp add: inj_map_eq_map inj_of_char_nat)

lemma prefix_lit [simp]: "prefix (lit a) (lit b) = prefix a b"
proof
  assume "prefix (lit a) (lit b)"
  then obtain r where "lit b = lit a @ r" by (auto elim: prefixE)
  then have "take (length a) (lit b) = lit a"
    by (metis append_eq_conv_conj length_map lit_def)
  then have "map of_char (take (length a) b) = map (of_char :: char \<Rightarrow> nat) a"
    by (simp add: lit_def take_map)
  then have "take (length a) b = a" by (simp add: inj_map_eq_map inj_of_char_nat)
  then show "prefix a b" by (metis take_is_prefix)
next
  assume "prefix a b"
  then show "prefix (lit a) (lit b)" by (auto simp: lit_def prefix_def)
qed

lemma length_lit [simp]: "length (lit s) = length s"
  by (simp add: lit_def)

lemma lit_Nil_iff [simp]: "lit s = [] \<longleftrightarrow> s = []" "[] = lit s \<longleftrightarrow> s = []"
  by (auto simp: lit_def)

text \<open>\<^verbatim>\<open>s[a:b]\<close> for indices that are not negative.\<close>

definition py_slice :: "'a list \<Rightarrow> nat \<Rightarrow> nat \<Rightarrow> 'a list" where
  "py_slice s a b = take (b - a) (drop a s)"

lemma py_slice_append:
  assumes "a \<le> b" and "b \<le> c"
  shows "py_slice s a b @ py_slice s b c = py_slice s a c"
proof -
  have "drop b s = drop (b - a) (drop a s)" using assms by simp
  then have "py_slice s a b @ py_slice s b c = take ((b - a) + (c - b)) (drop a s)"
    unfolding py_slice_def by (metis take_add)
  then show ?thesis using assms by (simp add: py_slice_def)
qed

lemma py_slice_full [simp]: "py_slice s 0 (length s) = s"
  by (simp add: py_slice_def)

lemma length_py_slice: "length (py_slice s a b) = min (b - a) (length s - a)"
  by (simp add: py_slice_def)

lemma set_py_slice: "set (py_slice s a b) \<subseteq> set s"
  unfolding py_slice_def by (meson set_drop_subset set_take_subset subset_trans)

section \<open>Exceptions of the language\<close>

datatype py_error = KeyError | ValueError | TypeError | IndexError | AttributeError

text \<open>The three outcomes of a fallible lookup.\<close>

lemma lookup_cases:
  obtains (error) e where "x = Inl e" | (found) v where "x = Inr (Some v)" | (missing) "x = Inr None"
proof (cases x)
  case (Inr b)
  then show thesis using found missing by (cases b) auto
qed (use error in blast)

text \<open>
  \<open>returns m Q\<close>: the call does not raise, and what it returns satisfies \<open>Q\<close>. The rules
  follow the code: a call, then what is done with its result.
\<close>

definition returns :: "'e + 'a \<Rightarrow> ('a \<Rightarrow> bool) \<Rightarrow> bool" where
  "returns m Q \<longleftrightarrow> (\<exists>x. m = Inr x \<and> Q x)"

lemma returns_Inr [simp]: "returns (Inr x) Q = Q x"
  by (simp add: returns_def)

lemma returns_bind:
  assumes "returns m R" and "\<And>x. R x \<Longrightarrow> returns (f x) Q"
  shows "returns (case m of Inl e \<Rightarrow> Inl e | Inr x \<Rightarrow> f x) Q"
  using assms by (auto simp: returns_def)

lemma returns_mono: "returns m R \<Longrightarrow> (\<And>x. R x \<Longrightarrow> Q x) \<Longrightarrow> returns m Q"
  by (auto simp: returns_def)

text \<open>\<open>yields m Q\<close>: what the call returns, if it does, satisfies \<open>Q\<close>.\<close>

definition yields :: "'e + 'a \<Rightarrow> ('a \<Rightarrow> bool) \<Rightarrow> bool" where
  "yields m Q \<longleftrightarrow> (\<forall>x. m = Inr x \<longrightarrow> Q x)"

lemma yields_simps [simp]: "yields (Inr x) Q = Q x" "yields (Inl e) Q"
  by (simp_all add: yields_def)

lemma yields_bind:
  assumes "yields m R" and "\<And>x. R x \<Longrightarrow> yields (f x) Q"
  shows "yields (case m of Inl e \<Rightarrow> Inl e | Inr x \<Rightarrow> f x) Q"
  using assms by (auto simp: yields_def split: sum.splits)

lemma yields_mono: "yields m R \<Longrightarrow> (\<And>x. R x \<Longrightarrow> Q x) \<Longrightarrow> yields m Q"
  by (auto simp: yields_def)

section \<open>Ordered dictionaries\<close>

text \<open>
  An \<^verbatim>\<open>OrderedDict\<close> lists its items from the oldest to the newest. Assigning to a key
  that is present keeps its place and a new key goes last, which is what
  \<^const>\<open>AList.update\<close> does. \<^verbatim>\<open>move_to_end\<close> raises \<^verbatim>\<open>KeyError\<close> for a missing
  key. \<open>od_evict n\<close> is the loop \<^verbatim>\<open>while len(d) > n: d.popitem(last=False)\<close>.
\<close>

type_synonym ('k, 'v) odict = "('k \<times> 'v) list"

abbreviation od_get :: "('k, 'v) odict \<Rightarrow> 'k \<Rightarrow> 'v option" where
  "od_get d k \<equiv> map_of d k"

abbreviation od_set :: "'k \<Rightarrow> 'v \<Rightarrow> ('k, 'v) odict \<Rightarrow> ('k, 'v) odict" where
  "od_set k v d \<equiv> AList.update k v d"

abbreviation od_del :: "'k \<Rightarrow> ('k, 'v) odict \<Rightarrow> ('k, 'v) odict" where
  "od_del k d \<equiv> AList.delete k d"

definition od_move_to_end :: "'k \<Rightarrow> ('k, 'v) odict \<Rightarrow> py_error + ('k, 'v) odict" where
  "od_move_to_end k d =
     (case od_get d k of None \<Rightarrow> Inl KeyError | Some v \<Rightarrow> Inr (od_del k d @ [(k, v)]))"

function od_evict :: "nat \<Rightarrow> ('k, 'v) odict \<Rightarrow> ('k, 'v) odict" where
  "od_evict n d = (if n < length d then od_evict n (tl d) else d)"
  by pat_completeness auto
termination by (relation "measure (length \<circ> snd)") auto

declare od_evict.simps [simp del]

definition od_wf :: "('k, 'v) odict \<Rightarrow> bool" where
  "od_wf d = distinct (map fst d)"

lemma od_evict_drop: "od_evict n d = drop (length d - n) d"
proof (induction n d rule: od_evict.induct)
  case (1 n d)
  show ?case
  proof (cases "n < length d")
    case True
    with 1 have "od_evict n d = drop (length d - 1 - n) (tl d)"
      by (simp add: od_evict.simps [of n d])
    also have "\<dots> = drop (Suc (length d - 1 - n)) d"
      by (simp add: drop_Suc)
    finally show ?thesis using True by (simp add: Suc_diff_Suc)
  qed (simp add: od_evict.simps [of n d])
qed

lemma od_evict_id [od_simps]: "length d \<le> n \<Longrightarrow> od_evict n d = d"
  by (simp add: od_evict_drop)

lemma length_od_evict [od_simps]: "length (od_evict n d) = min n (length d)"
  by (simp add: od_evict_drop)

lemma od_wf_evict [intro, simp]: "od_wf d \<Longrightarrow> od_wf (od_evict n d)"
  by (simp add: od_wf_def od_evict_drop drop_map [symmetric])

lemma od_wf_update [intro, simp]: "od_wf d \<Longrightarrow> od_wf (od_set k v d)"
  by (simp add: od_wf_def distinct_update)

lemma od_wf_delete [intro, simp]: "od_wf d \<Longrightarrow> od_wf (od_del k d)"
  by (simp add: od_wf_def distinct_delete)

lemma od_wf_Nil [simp]: "od_wf []"
  by (simp add: od_wf_def)

lemma map_of_update [od_simps]:
  "map_of (AList.update k v d) k' = (if k' = k then Some v else map_of d k')"
  by (simp add: update_conv')

lemma map_of_delete [od_simps]:
  "map_of (AList.delete k d) k' = (if k' = k then None else map_of d k')"
  by (simp add: delete_conv')

lemma od_move_to_end_Some:
  assumes "od_get d k = Some v"
  shows "\<exists>d'. od_move_to_end k d = Inr d' \<and> (\<forall>k'. od_get d' k' = od_get d k')
    \<and> (od_wf d \<longrightarrow> od_wf d') \<and> fst ` set d' = fst ` set d"
proof -
  have m: "map_of (od_del k d @ [(k, v)]) k' = map_of d k'" for k'
    using assms by (cases "k' = k")
      (simp_all add: map_of_append map_add_def od_simps split: option.split)
  have "fst ` set (od_del k d) = fst ` set d - {k}"
    by (auto simp: AList.delete_eq image_iff)
  moreover have "k \<in> fst ` set d"
    using assms by (metis dom_map_of_conv_image_fst domI)
  ultimately show ?thesis
    using assms m by (auto simp: od_move_to_end_def od_wf_def distinct_delete image_iff)
qed

lemma map_of_drop_subset:
  assumes "od_wf d" and "map_of (drop n d) k = Some v"
  shows "map_of d k = Some v"
proof -
  have "(k, v) \<in> set d"
    using map_of_SomeD [OF assms(2)] by (rule in_set_dropD)
  with assms(1) show ?thesis by (simp add: od_wf_def map_of_eq_Some_iff)
qed

text \<open>What an eviction can do to a key: keep its value or forget it.\<close>

lemma od_get_evict:
  "od_wf d \<Longrightarrow> od_get (od_evict n d) k = od_get d k \<or> od_get (od_evict n d) k = None"
  unfolding od_evict_drop by (metis map_of_drop_subset not_None_eq)

lemma length_od_set:
  "length (od_set k v d) = (if od_get d k = None then Suc (length d) else length d)"
proof (cases "k \<in> fst ` set d")
  case True
  then show ?thesis
    by (induction d) (auto simp: image_iff map_of_eq_None_iff)
next
  case False
  then show ?thesis
    by (induction d) (auto simp: image_iff map_of_eq_None_iff)
qed

lemma od_wf_length: "od_wf d \<Longrightarrow> length d = card (fst ` set d)"
  by (metis distinct_card length_map list.set_map od_wf_def)

lemma od_keys_dom: "fst ` set d = dom (map_of d)"
  by (rule dom_map_of_conv_image_fst [symmetric])

lemma od_set_absent: "od_get d k = None \<Longrightarrow> od_set k v d = d @ [(k, v)]"
  by (induction d) (auto split: if_splits)

text \<open>An eviction never drops what was just added.\<close>

lemma od_get_evict_last:
  assumes "od_get d k = None" and "1 \<le> m"
  shows "od_get (od_evict m (od_set k e d)) k = Some e"
proof -
  have "od_evict m (od_set k e d) = drop (Suc (length d) - m) d @ [(k, e)]"
    using assms by (simp add: od_evict_drop od_set_absent)
  moreover have "k \<notin> fst ` set (drop i d)" for i
    using assms(1) set_drop_subset [of i d] by (auto simp: map_of_eq_None_iff)
  then have "od_get (drop i d) k = None" for i by (simp add: map_of_eq_None_iff)
  ultimately show ?thesis by (simp add: map_add_def)
qed

end
