(* ===== verification/Models.thy ===== *)
theory Models
  imports Prelude
begin

text \<open>
  The typed data of \<^verbatim>\<open>models.py\<close>: enums as datatypes with the source's constructors and
  string values, the pydantic models as records, and the field constraints and validators
  of the request models as the predicates \<open>valid_\<dots>\<close>. JSON values that the code
  handles as \<^verbatim>\<open>Any\<close> are the datatype \<open>py_value\<close>.
\<close>

section \<open>Dynamic values\<close>

text \<open>
  What \<^verbatim>\<open>json.loads\<close> can return. A \<^verbatim>\<open>dict\<close> keeps its insertion order. Floating-point
  numbers are reals: only comparisons are made on them.
\<close>

datatype py_value =
    PNone
  | PBool bool
  | PInt int
  | PFloat real
  | PStr str
  | PList "py_value list"
  | PDict "(str \<times> py_value) list"

type_synonym uuid = nat

section \<open>Enums\<close>

datatype verdict = ALLOW | DENY | TRANSFORM | REQUIRE_APPROVAL

fun verdict_value :: "verdict \<Rightarrow> str" where
  "verdict_value ALLOW = lit ''allow''"
| "verdict_value DENY = lit ''deny''"
| "verdict_value TRANSFORM = lit ''transform''"
| "verdict_value REQUIRE_APPROVAL = lit ''require_approval''"

datatype enforcement_point = INPUT | CONTEXT | OUTPUT | ACTION

fun point_value :: "enforcement_point \<Rightarrow> str" where
  "point_value INPUT = lit ''input''"
| "point_value CONTEXT = lit ''context''"
| "point_value OUTPUT = lit ''output''"
| "point_value ACTION = lit ''action''"

datatype trust_level = TRUSTED | UNTRUSTED

fun trust_value :: "trust_level \<Rightarrow> str" where
  "trust_value TRUSTED = lit ''trusted''"
| "trust_value UNTRUSTED = lit ''untrusted''"

datatype classification = PUBLIC | INTERNAL | CONFIDENTIAL | RESTRICTED

fun classification_value :: "classification \<Rightarrow> str" where
  "classification_value PUBLIC = lit ''public''"
| "classification_value INTERNAL = lit ''internal''"
| "classification_value CONFIDENTIAL = lit ''confidential''"
| "classification_value RESTRICTED = lit ''restricted''"

text \<open>\<^verbatim>\<open>rank\<close> is the position in the declaration order.\<close>

fun rank :: "classification \<Rightarrow> nat" where
  "rank PUBLIC = 0"
| "rank INTERNAL = 1"
| "rank CONFIDENTIAL = 2"
| "rank RESTRICTED = 3"

datatype entity_action = EA_ALLOW | EA_REDACT | EA_PSEUDONYMIZE | EA_DENY

fun entity_action_value :: "entity_action \<Rightarrow> str" where
  "entity_action_value EA_ALLOW = lit ''allow''"
| "entity_action_value EA_REDACT = lit ''redact''"
| "entity_action_value EA_PSEUDONYMIZE = lit ''pseudonymize''"
| "entity_action_value EA_DENY = lit ''deny''"

datatype side_effect = SE_NONE | SE_READ | SE_WRITE | SE_EXTERNAL | SE_DESTRUCTIVE

fun side_effect_value :: "side_effect \<Rightarrow> str" where
  "side_effect_value SE_NONE = lit ''none''"
| "side_effect_value SE_READ = lit ''read''"
| "side_effect_value SE_WRITE = lit ''write''"
| "side_effect_value SE_EXTERNAL = lit ''external''"
| "side_effect_value SE_DESTRUCTIVE = lit ''destructive''"

datatype approval_status = PENDING | APPROVED | REJECTED | CONSUMED | EXPIRED

fun approval_status_value :: "approval_status \<Rightarrow> str" where
  "approval_status_value PENDING = lit ''pending''"
| "approval_status_value APPROVED = lit ''approved''"
| "approval_status_value REJECTED = lit ''rejected''"
| "approval_status_value CONSUMED = lit ''consumed''"
| "approval_status_value EXPIRED = lit ''expired''"

datatype severity = LOW | MEDIUM | HIGH | CRITICAL

datatype incident_status = IS_OPEN | IS_INVESTIGATING | IS_RESOLVED | IS_CLOSED

datatype disposition = UNDETERMINED | TRUE_POSITIVE | FALSE_POSITIVE | BENIGN

text \<open>\<^verbatim>\<open>Role\<close> and \<^verbatim>\<open>Principal\<close> are declared in \<^verbatim>\<open>identity.py\<close>.\<close>

datatype role = CALLER | OPERATOR | REVIEWER | AUDITOR

fun role_value :: "role \<Rightarrow> str" where
  "role_value CALLER = lit ''caller''"
| "role_value OPERATOR = lit ''operator''"
| "role_value REVIEWER = lit ''reviewer''"
| "role_value AUDITOR = lit ''auditor''"

record principal =
  pr_identity :: str
  pr_tenant_id :: str
  pr_roles :: "role set"
  pr_clearance :: classification

definition has_role :: "principal \<Rightarrow> role \<Rightarrow> bool" where
  "has_role p r = (r \<in> pr_roles p)"

lemma verdict_value_inj [simp]: "verdict_value a = verdict_value b \<longleftrightarrow> a = b"
  by (cases a; cases b) simp_all

lemma side_effect_value_inj [simp]: "side_effect_value a = side_effect_value b \<longleftrightarrow> a = b"
  by (cases a; cases b) simp_all

lemma role_value_inj [simp]: "role_value a = role_value b \<longleftrightarrow> a = b"
  by (cases a; cases b) simp_all

lemma approval_status_value_inj [simp]:
  "approval_status_value a = approval_status_value b \<longleftrightarrow> a = b"
  by (cases a; cases b) simp_all

text \<open>
  Clearance is a linear order, that of \<^verbatim>\<open>rank\<close>, so the library's order automation applies
  to classifications.
\<close>

lemma rank_inj [simp]: "rank a = rank b \<longleftrightarrow> a = b"
  by (cases a; cases b) simp_all

instantiation classification :: linorder
begin

definition less_eq_classification :: "classification \<Rightarrow> classification \<Rightarrow> bool" where
  "less_eq_classification a b = (rank a \<le> rank b)"

definition less_classification :: "classification \<Rightarrow> classification \<Rightarrow> bool" where
  "less_classification a b = (rank a < rank b)"

instance
  by standard (auto simp: less_eq_classification_def less_classification_def
      simp flip: rank_inj)

end

section \<open>Field constraints\<close>

definition ascii_letter :: "nat \<Rightarrow> bool" where
  "ascii_letter c \<longleftrightarrow> 65 \<le> c \<and> c \<le> 90 \<or> 97 \<le> c \<and> c \<le> 122"

definition ascii_digit :: "nat \<Rightarrow> bool" where
  "ascii_digit c \<longleftrightarrow> 48 \<le> c \<and> c \<le> 57"

definition one_of :: "string \<Rightarrow> nat \<Rightarrow> bool" where
  "one_of cs c \<longleftrightarrow> c \<in> set (lit cs)"

definition sized :: "nat \<Rightarrow> nat \<Rightarrow> 'a list \<Rightarrow> bool" where
  "sized lo hi s \<longleftrightarrow> lo \<le> length s \<and> length s \<le> hi"

definition name_chars :: "string \<Rightarrow> str \<Rightarrow> bool" where
  "name_chars extra s \<longleftrightarrow>
     (\<forall>c \<in> set s. ascii_letter c \<or> ascii_digit c \<or> one_of extra c)"

definition valid_tenant :: "str \<Rightarrow> bool" where
  "valid_tenant t \<longleftrightarrow> sized 1 100 t \<and> name_chars ''_.-'' t"

section \<open>Evidence and decisions\<close>

record evidence =
  ev_detector :: str
  ev_version :: str
  ev_category :: str
  ev_score :: real
  ev_threshold :: real
  ev_redacted_excerpt :: str
  ev_explanation :: str

definition valid_evidence :: "evidence \<Rightarrow> bool" where
  "valid_evidence e \<longleftrightarrow> 0 \<le> ev_score e \<and> ev_score e \<le> 1
     \<and> 0 \<le> ev_threshold e \<and> ev_threshold e \<le> 1"

text \<open>\<^verbatim>\<open>Finding\<close> of \<^verbatim>\<open>detectors.py\<close>: evidence, with its place in the content when known.\<close>

record finding =
  fi_evidence :: evidence
  fi_start :: "nat option"
  fi_end :: "nat option"

record security_decision =
  sd_decision_id :: uuid
  sd_request_id :: uuid
  sd_trace_id :: uuid
  sd_point :: enforcement_point
  sd_tenant_id :: str
  sd_policy_version :: str
  sd_verdict :: verdict
  sd_reason_code :: str
  sd_evidence :: "evidence list"
  sd_transformed_content :: "str option"
  sd_action_digest :: "str option"
  sd_approval_id :: "uuid option"
  sd_route :: "str option"
  sd_latency_ms :: real

section \<open>Requests\<close>

record content_request =
  cr_request_id :: uuid
  cr_trace_id :: uuid
  cr_identity :: str
  cr_tenant_id :: str
  cr_content :: str
  cr_trust_level :: trust_level
  cr_source_tenant_id :: "str option"
  cr_model :: "str option"

definition valid_content_request :: "('a) content_request_scheme \<Rightarrow> bool" where
  "valid_content_request r \<longleftrightarrow>
     sized 1 200 (cr_identity r) \<and> valid_tenant (cr_tenant_id r) \<and> cr_content r \<noteq> []
     \<and> (\<forall>t. cr_source_tenant_id r = Some t \<longrightarrow> length t \<le> 100)
     \<and> (\<forall>m. cr_model r = Some m \<longrightarrow> sized 1 200 m)"

record source =
  src_id :: str
  src_content :: str

definition valid_source :: "source \<Rightarrow> bool" where
  "valid_source s \<longleftrightarrow> sized 1 64 (src_id s) \<and> name_chars ''_.:-'' (src_id s)
     \<and> sized 1 50000 (src_content s)"

record output_request = content_request +
  or_output_schema :: "py_value option"
  or_sources :: "source list"
  or_require_citations :: bool
  or_required_disclaimer :: "str option"

definition valid_output_request :: "output_request \<Rightarrow> bool" where
  "valid_output_request r \<longleftrightarrow>
     valid_content_request r \<and> length (or_sources r) \<le> 50 \<and> list_all valid_source (or_sources r)
     \<and> (\<forall>d. or_required_disclaimer r = Some d \<longrightarrow> sized 1 500 d)
     \<and> \<not> (or_output_schema r \<noteq> None \<and> or_required_disclaimer r \<noteq> None)"

record context_document =
  cd_id :: str
  cd_content :: str
  cd_source_tenant_id :: str
  cd_trust_level :: trust_level
  cd_classification :: classification
  cd_allowed_identities :: "str list option"
  cd_allowed_roles :: "str list option"

definition valid_context_document :: "context_document \<Rightarrow> bool" where
  "valid_context_document d \<longleftrightarrow>
     sized 1 200 (cd_id d) \<and> name_chars ''_.:/-'' (cd_id d) \<and> cd_content d \<noteq> []
     \<and> valid_tenant (cd_source_tenant_id d)
     \<and> (\<forall>xs. cd_allowed_identities d = Some xs \<longrightarrow> length xs \<le> 200)
     \<and> (\<forall>xs. cd_allowed_roles d = Some xs \<longrightarrow> length xs \<le> 50)"

record context_batch_request =
  br_request_id :: uuid
  br_trace_id :: uuid
  br_identity :: str
  br_tenant_id :: str
  br_documents :: "context_document list"

definition valid_context_batch_request :: "context_batch_request \<Rightarrow> bool" where
  "valid_context_batch_request r \<longleftrightarrow>
     sized 1 200 (br_identity r) \<and> valid_tenant (br_tenant_id r)
     \<and> sized 1 100 (br_documents r) \<and> list_all valid_context_document (br_documents r)"

record action_request =
  ar_request_id :: uuid
  ar_trace_id :: uuid
  ar_identity :: str
  ar_tenant_id :: str
  ar_tool :: str
  ar_resource :: str
  ar_arguments :: "(str \<times> py_value) list"
  ar_side_effect :: side_effect
  ar_approval_token :: "uuid option"

definition valid_tool_name :: "str \<Rightarrow> bool" where
  "valid_tool_name t \<longleftrightarrow> sized 1 100 t \<and> 97 \<le> hd t \<and> hd t \<le> 122
     \<and> (\<forall>c \<in> set t. 97 \<le> c \<and> c \<le> 122 \<or> ascii_digit c \<or> c = 95)"

definition valid_action_request :: "action_request \<Rightarrow> bool" where
  "valid_action_request r \<longleftrightarrow>
     sized 1 200 (ar_identity r) \<and> valid_tenant (ar_tenant_id r)
     \<and> valid_tool_name (ar_tool r) \<and> sized 1 500 (ar_resource r)"

section \<open>Results\<close>

record sandbox_result =
  sr_exit_code :: "int option"
  sr_stdout :: str
  sr_stderr :: str
  sr_timed_out :: bool
  sr_output_truncated :: bool
  sr_network :: bool
  sr_duration_ms :: real

record execution_response =
  er_decision :: security_decision
  er_result :: "sandbox_result option"

record document_decision =
  dd_document_id :: str
  dd_verdict :: verdict
  dd_reason_code :: str
  dd_evidence :: "evidence list"
  dd_content :: "str option"

record context_batch_decision =
  bd_decision_id :: uuid
  bd_request_id :: uuid
  bd_trace_id :: uuid
  bd_tenant_id :: str
  bd_policy_version :: str
  bd_verdict :: verdict
  bd_reason_code :: str
  bd_documents :: "document_decision list"
  bd_admitted :: nat
  bd_latency_ms :: real

record restore_request =
  rr_identity :: str
  rr_tenant_id :: str
  rr_trace_id :: uuid
  rr_content :: str

definition valid_restore_request :: "restore_request \<Rightarrow> bool" where
  "valid_restore_request r \<longleftrightarrow> sized 1 200 (rr_identity r) \<and> valid_tenant (rr_tenant_id r)
     \<and> sized 1 1000000 (rr_content r)"

record restore_response =
  rs_content :: str
  rs_restored :: nat

section \<open>Approvals and incidents\<close>

text \<open>Moments are microseconds since the epoch, the resolution of a Python \<^verbatim>\<open>datetime\<close>.\<close>

record approval =
  ap_approval_id :: uuid
  ap_action_digest :: str
  ap_tenant_id :: str
  ap_requested_by :: str
  ap_reviewer :: "str option"
  ap_rationale :: "str option"
  ap_status :: approval_status
  ap_issued_at :: int
  ap_expires_at :: int

record incident =
  in_incident_id :: uuid
  in_tenant_id :: str
  in_title :: str
  in_severity :: severity
  in_status :: incident_status
  in_disposition :: disposition
  in_decision_ids :: "uuid list"
  in_trace_ids :: "uuid list"
  in_remediation :: "str option"
  in_opened_by :: str
  in_created_at :: int
  in_updated_at :: int

record incident_update =
  iu_status :: "incident_status option"
  iu_disposition :: "disposition option"
  iu_remediation :: "str option"

definition valid_incident_update :: "incident_update \<Rightarrow> bool" where
  "valid_incident_update u \<longleftrightarrow>
     (\<forall>r. iu_remediation u = Some r \<longrightarrow> sized 1 5000 r)
     \<and> \<not> (iu_status u = None \<and> iu_disposition u = None \<and> iu_remediation u = None)"

record incident_open_request =
  io_title :: str
  io_severity :: severity
  io_decision_ids :: "uuid list"

definition valid_incident_open_request :: "incident_open_request \<Rightarrow> bool" where
  "valid_incident_open_request r \<longleftrightarrow> sized 3 200 (io_title r) \<and> sized 1 100 (io_decision_ids r)"

definition valid_rationale :: "str \<Rightarrow> bool" where
  "valid_rationale r \<longleftrightarrow> sized 3 1000 r"

end
