(* ===== verification/Config.thy ===== *)
theory Config
  imports Models
begin

text \<open>
  The settings of \<^verbatim>\<open>config.py\<close>, their field bounds, and the four validators that refuse an unsafe
  deployment. A validator that raises
  \<^verbatim>\<open>ValueError\<close> is a branch returning \<open>Inl ValueError\<close>.
\<close>

definition MINIMUM_HMAC_KEY_BYTES :: nat where "MINIMUM_HMAC_KEY_BYTES = 32"

definition MINIMUM_CANARY_CHARS :: nat where "MINIMUM_CANARY_CHARS = 12"

datatype jwt_algorithm = HS256 | HS384 | HS512 | RS256 | RS384 | RS512

fun is_hmac :: "jwt_algorithm \<Rightarrow> bool" where
  "is_hmac HS256 = True"
| "is_hmac HS384 = True"
| "is_hmac HS512 = True"
| "is_hmac _ = False"

record settings =
  policy_version :: str
  approval_ttl_seconds :: int
  max_content_chars :: int
  max_context_chars :: int
  audit_buffer_size :: nat
  decision_log_size :: nat
  incident_store_size :: nat
  audit_mandatory :: bool
  restricted_read_only_mode :: bool
  identity_requests_per_minute :: int
  tenant_requests_per_minute :: int
  max_actions_per_trace :: int
  eligible_models :: "str list"
  local_only_models :: "str list"
  violation_lockout_threshold :: int
  violation_window_seconds :: real
  grounding_min_overlap :: real
  abstention_phrases :: "str list"
  disallowed_output_terms :: "(str \<times> str list) list"
  sensitive_entity_actions :: "(str \<times> entity_action) list"
  tenant_entity_actions :: "(str \<times> (str \<times> entity_action) list) list"
  pseudonym_ttl_seconds :: real
  canary_secrets :: "str list"
  allowed_url_hosts :: "str list"
  file_root :: str
  jwt_secret :: "str option"
  jwt_algorithm :: jwt_algorithm
  jwt_issuer :: "str option"
  jwt_audience :: "str option"
  oidc_issuer :: "str option"
  jwks_url :: "str option"
  jwks_cache_seconds :: real
  jwks_max_stale_seconds :: real
  jwks_timeout_seconds :: real
  database_url :: "str option"
  otlp_endpoint :: "str option"
  kafka_bootstrap_servers :: "str option"
  kafka_topic :: str
  kafka_client_config :: "(str \<times> py_value) list"
  sandbox_image :: "str option"
  sandbox_runtime :: str
  sandbox_oci_runtime :: "str option"
  sandbox_cpus :: real
  sandbox_memory_mb :: nat
  sandbox_pids :: nat
  sandbox_timeout_seconds :: real
  sandbox_output_bytes :: nat
  opa_url :: "str option"
  opa_timeout_seconds :: real
  presidio_url :: "str option"
  presidio_timeout_seconds :: real
  presidio_score_threshold :: real
  injection_classifier_url :: "str option"
  injection_classifier_labels :: "str list"
  injection_classifier_threshold :: real
  injection_classifier_timeout_seconds :: real

section \<open>Field bounds\<close>

text \<open>An optional field that is unset has nothing to satisfy.\<close>

definition unset_or :: "('a \<Rightarrow> bool) \<Rightarrow> 'a option \<Rightarrow> bool" where
  "unset_or p v = (case v of None \<Rightarrow> True | Some x \<Rightarrow> p x)"

definition http_url :: "str \<Rightarrow> bool" where
  "http_url url \<longleftrightarrow> prefix (lit ''http://'') url \<or> prefix (lit ''https://'') url"

definition adapter_bounds :: "settings \<Rightarrow> bool" where
  "adapter_bounds s \<longleftrightarrow>
     unset_or (\<lambda>v. v \<noteq> []) (kafka_bootstrap_servers s) \<and> kafka_topic s \<noteq> [] \<and> name_chars ''._-'' (kafka_topic s)
     \<and> unset_or (\<lambda>v. v \<noteq> [] \<and> (ascii_letter (hd v) \<or> ascii_digit (hd v)) \<and> name_chars ''._/:@-'' v) (sandbox_image s)
     \<and> sandbox_runtime s \<noteq> [] \<and> name_chars ''._/-'' (sandbox_runtime s)
     \<and> unset_or (\<lambda>v. v \<noteq> [] \<and> name_chars ''._-'' v) (sandbox_oci_runtime s)
     \<and> 0 < sandbox_cpus s \<and> sandbox_cpus s \<le> 8
     \<and> 16 \<le> sandbox_memory_mb s \<and> sandbox_memory_mb s \<le> 8192
     \<and> 1 \<le> sandbox_pids s \<and> sandbox_pids s \<le> 1024
     \<and> 0 < sandbox_timeout_seconds s \<and> sandbox_timeout_seconds s \<le> 300
     \<and> 1 \<le> sandbox_output_bytes s \<and> sandbox_output_bytes s \<le> 10000000
     \<and> unset_or http_url (opa_url s) \<and> 0 < opa_timeout_seconds s \<and> opa_timeout_seconds s \<le> 10
     \<and> unset_or http_url (otlp_endpoint s)
     \<and> unset_or http_url (presidio_url s) \<and> 0 < presidio_timeout_seconds s \<and> presidio_timeout_seconds s \<le> 30
     \<and> 0 \<le> presidio_score_threshold s \<and> presidio_score_threshold s \<le> 1
     \<and> unset_or http_url (injection_classifier_url s)
     \<and> 0 < injection_classifier_threshold s \<and> injection_classifier_threshold s \<le> 1
     \<and> 0 < injection_classifier_timeout_seconds s \<and> injection_classifier_timeout_seconds s \<le> 30
     \<and> 0 < jwks_timeout_seconds s \<and> jwks_timeout_seconds s \<le> 30"

definition settings_bounds :: "settings \<Rightarrow> bool" where
  "settings_bounds s \<longleftrightarrow>
     30 \<le> approval_ttl_seconds s \<and> approval_ttl_seconds s \<le> 3600
     \<and> 100 \<le> max_content_chars s \<and> max_content_chars s \<le> 1000000
     \<and> 100 \<le> max_context_chars s \<and> max_context_chars s \<le> 10000000
     \<and> 10 \<le> audit_buffer_size s \<and> audit_buffer_size s \<le> 100000
     \<and> 10 \<le> decision_log_size s \<and> decision_log_size s \<le> 1000000
     \<and> 10 \<le> incident_store_size s \<and> incident_store_size s \<le> 1000000
     \<and> 1 \<le> identity_requests_per_minute s \<and> identity_requests_per_minute s \<le> 1000000
     \<and> 1 \<le> tenant_requests_per_minute s \<and> tenant_requests_per_minute s \<le> 10000000
     \<and> 1 \<le> max_actions_per_trace s \<and> max_actions_per_trace s \<le> 10000
     \<and> 0 \<le> violation_lockout_threshold s \<and> violation_lockout_threshold s \<le> 10000
     \<and> 1 \<le> violation_window_seconds s \<and> violation_window_seconds s \<le> 86400
     \<and> 0 \<le> grounding_min_overlap s \<and> grounding_min_overlap s \<le> 1
     \<and> 1 \<le> pseudonym_ttl_seconds s \<and> pseudonym_ttl_seconds s \<le> 604800
     \<and> 10 \<le> jwks_cache_seconds s \<and> jwks_cache_seconds s \<le> 86400
     \<and> 10 \<le> jwks_max_stale_seconds s \<and> jwks_max_stale_seconds s \<le> 604800
     \<and> file_root s \<noteq> [] \<and> name_chars ''_-'' (file_root s) \<and> adapter_bounds s"

text \<open>The class defaults; a setting that is optional is unset.\<close>

definition default_settings :: settings where
  "default_settings = \<lparr>
     policy_version = lit ''2026-08-29.1'', approval_ttl_seconds = 300,
     max_content_chars = 20000, max_context_chars = 60000, audit_buffer_size = 1000,
     decision_log_size = 10000, incident_store_size = 5000, audit_mandatory = True,
     restricted_read_only_mode = False, identity_requests_per_minute = 600,
     tenant_requests_per_minute = 3000, max_actions_per_trace = 25,
     eligible_models = [], local_only_models = [], violation_lockout_threshold = 0,
     violation_window_seconds = 600, grounding_min_overlap = 1 / 2,
     abstention_phrases = map lit [''i don't know'', ''i do not know'', ''i cannot answer'',
       ''i do not have enough information'', ''i don't have enough information''],
     disallowed_output_terms = [], sensitive_entity_actions = [],
     tenant_entity_actions = [], pseudonym_ttl_seconds = 3600, canary_secrets = [],
     allowed_url_hosts = [], file_root = lit ''workspace'', jwt_secret = None,
     jwt_algorithm = HS256, jwt_issuer = None, jwt_audience = None, oidc_issuer = None,
     jwks_url = None, jwks_cache_seconds = 300, jwks_max_stale_seconds = 3600,
     jwks_timeout_seconds = 3, database_url = None, otlp_endpoint = None,
     kafka_bootstrap_servers = None, kafka_topic = lit ''guardrail.security-events'', kafka_client_config = [],
     sandbox_image = None, sandbox_runtime = lit ''docker'', sandbox_oci_runtime = None, sandbox_cpus = 1 / 2,
     sandbox_memory_mb = 128, sandbox_pids = 32, sandbox_timeout_seconds = 10, sandbox_output_bytes = 65536,
     opa_url = None, opa_timeout_seconds = 1, presidio_url = None, presidio_timeout_seconds = 2,
     presidio_score_threshold = 1 / 2, injection_classifier_url = None,
     injection_classifier_labels = map lit [''INJECTION'', ''JAILBREAK''], injection_classifier_threshold = 9 / 10,
     injection_classifier_timeout_seconds = 2\<rparr>"

section \<open>Validators\<close>

text \<open>\<^verbatim>\<open>s.encode()\<close> has as many bytes as UTF-8 gives each code point.\<close>

definition utf8_size :: "nat \<Rightarrow> nat" where
  "utf8_size c = (if c < 128 then 1 else if c < 2048 then 2 else if c < 65536 then 3 else 4)"

definition encoded_length :: "str \<Rightarrow> nat" where
  "encoded_length s = sum_list (map utf8_size s)"

definition reject_weak_hmac_key :: "settings \<Rightarrow> py_error + settings" where
  "reject_weak_hmac_key s =
     (case jwt_secret s of
        None \<Rightarrow> Inr s
      | Some key \<Rightarrow>
          if \<not> is_hmac (jwt_algorithm s) then Inr s
          else if encoded_length key < MINIMUM_HMAC_KEY_BYTES then Inl ValueError
          else Inr s)"

definition keep_provider_keys_asymmetric :: "settings \<Rightarrow> py_error + settings" where
  "keep_provider_keys_asymmetric s =
     (if oidc_issuer s = None \<and> jwks_url s = None then Inr s
      else if is_hmac (jwt_algorithm s) then Inl ValueError
      else if jwt_secret s \<noteq> None then Inl ValueError
      else if jwt_audience s = None then Inl ValueError
      else if jwt_issuer s = None \<and> oidc_issuer s = None then Inl ValueError
      else Inr s)"

definition database_prefixes :: "str list" where
  "database_prefixes = map lit [''postgresql://'', ''postgres://'', ''sqlite:///'']"

definition recognise_the_database :: "settings \<Rightarrow> py_error + settings" where
  "recognise_the_database s =
     (case database_url s of
        None \<Rightarrow> Inr s
      | Some url \<Rightarrow>
          if \<not> list_ex (\<lambda>p. prefix p url) database_prefixes then Inl ValueError else Inr s)"

definition keep_secrets_irreversible :: "settings \<Rightarrow> py_error + settings" where
  "keep_secrets_irreversible s =
     (if list_ex (\<lambda>rule. map_of rule (lit ''secret'') \<in> {Some EA_ALLOW, Some EA_PSEUDONYMIZE})
           (sensitive_entity_actions s # map snd (tenant_entity_actions s)) then Inl ValueError
      else if list_ex (\<lambda>c. length c < MINIMUM_CANARY_CHARS) (canary_secrets s)
      then Inl ValueError
      else Inr s)"

text \<open>Pydantic runs the validators in their order of declaration; the first to raise wins.\<close>

definition validate_settings :: "settings \<Rightarrow> py_error + settings" where
  "validate_settings s =
     (if \<not> settings_bounds s then Inl ValueError
      else case reject_weak_hmac_key s of Inl e \<Rightarrow> Inl e | Inr s \<Rightarrow>
        (case keep_provider_keys_asymmetric s of Inl e \<Rightarrow> Inl e | Inr s \<Rightarrow>
          (case recognise_the_database s of Inl e \<Rightarrow> Inl e | Inr s \<Rightarrow>
             keep_secrets_irreversible s)))"

lemmas validator_defs = reject_weak_hmac_key_def keep_provider_keys_asymmetric_def
  recognise_the_database_def keep_secrets_irreversible_def

lemma validate_settings_id: "validate_settings s = Inr s' \<Longrightarrow> s' = s"
  by (auto simp: validate_settings_def validator_defs split: if_splits sum.splits option.splits)

lemma validated_bounds: "validate_settings s = Inr s \<Longrightarrow> settings_bounds s"
  by (auto simp: validate_settings_def split: if_splits)

lemma validated_secrets:
  assumes "validate_settings s = Inr s"
  shows "keep_secrets_irreversible s = Inr s"
  using assms by (auto simp: validate_settings_def validator_defs
      split: if_splits sum.splits option.splits)

text \<open>An accepted rule for secrets is redaction or denial, for the deployment and per tenant.\<close>

lemma validated_secret_rule:
  assumes "validate_settings s = Inr s"
    and "rule = sensitive_entity_actions s \<or> (t, rule) \<in> set (tenant_entity_actions s)"
    and "map_of rule (lit ''secret'') = Some a"
  shows "a \<in> {EA_REDACT, EA_DENY}"
proof -
  have "rule \<in> set (sensitive_entity_actions s # map snd (tenant_entity_actions s))"
    using assms(2) by force
  then have "map_of rule (lit ''secret'') \<notin> {Some EA_ALLOW, Some EA_PSEUDONYMIZE}"
    using validated_secrets [OF assms(1)]
    by (auto simp: keep_secrets_irreversible_def list_ex_iff split: if_splits)
  with assms(3) show ?thesis by (cases a) auto
qed

lemma default_settings_valid: "validate_settings default_settings = Inr default_settings"
proof -
  have "adapter_bounds default_settings"
    by (simp add: adapter_bounds_def default_settings_def unset_or_def name_chars_def ascii_letter_def one_of_def lit_def)
  then show ?thesis
    by (simp add: validate_settings_def validator_defs settings_bounds_def default_settings_def
        name_chars_def ascii_letter_def one_of_def lit_def)
qed

end
