(* ===== verification/Pyregex.thy ===== *)
theory Pyregex
  imports Models
begin

text \<open>
  What the code uses of Python's \<^verbatim>\<open>re\<close>, of the Unicode database and of decimal printing.
  A pattern is a term whose meaning lists, for a start position, the end positions of its
  matches in the order the backtracking matcher tries them; the first is the match. Only
  patterns that never match the empty string are used with the iterating functions.
\<close>

section \<open>Unicode\<close>

text \<open>
  The tables behind \<^verbatim>\<open>\w\<close>, \<^verbatim>\<open>\d\<close>, \<^verbatim>\<open>\s\<close>, \<^verbatim>\<open>str.isprintable\<close>, \<^verbatim>\<open>str.lower\<close>,
  \<^verbatim>\<open>str.upper\<close> and NFKC are data of the interpreter: the model takes them as an argument,
  so its theorems hold for every version of them. \<open>ascii_db\<close> is the instance used where a
  concrete value is computed.
\<close>

record unicode_db =
  u_word :: "nat \<Rightarrow> bool"
  u_digit :: "nat \<Rightarrow> bool"
  u_space :: "nat \<Rightarrow> bool"
  u_printable :: "nat \<Rightarrow> bool"
  u_lower :: "str \<Rightarrow> str"
  u_upper :: "str \<Rightarrow> str"
  u_nfkc :: "str \<Rightarrow> str"
  u_same_letter :: "nat \<Rightarrow> nat \<Rightarrow> bool" \<comment> \<open>what \<^verbatim>\<open>re.IGNORECASE\<close> identifies\<close>

definition ascii_lower :: "nat \<Rightarrow> nat" where
  "ascii_lower c = (if 65 \<le> c \<and> c \<le> 90 then c + 32 else c)"

definition ascii_upper :: "nat \<Rightarrow> nat" where
  "ascii_upper c = (if 97 \<le> c \<and> c \<le> 122 then c - 32 else c)"

definition ascii_db :: unicode_db where
  "ascii_db = \<lparr>u_word = (\<lambda>c. ascii_letter c \<or> ascii_digit c \<or> c = 95), u_digit = ascii_digit,
     u_space = (\<lambda>c. c = 32 \<or> 9 \<le> c \<and> c \<le> 13 \<or> 28 \<le> c \<and> c \<le> 31),
     u_printable = (\<lambda>c. 32 \<le> c \<and> c \<le> 126),
     u_lower = map ascii_lower, u_upper = map ascii_upper, u_nfkc = (\<lambda>s. s),
     u_same_letter = (\<lambda>c d. ascii_lower c = ascii_lower d)\<rparr>"

text \<open>What every Unicode version keeps of ASCII, which some claims rest on.\<close>

definition ascii_digits_ok :: "unicode_db \<Rightarrow> bool" where
  "ascii_digits_ok u \<longleftrightarrow> (\<forall>c. ascii_digit c \<longrightarrow> u_digit u c) \<and> \<not> u_digit u 93 \<and> \<not> u_digit u 95"

section \<open>Patterns\<close>

datatype regex =
    Eps
  | Cls "nat \<Rightarrow> bool"
  | Cat regex regex
  | Alt regex regex
  | Rep bool nat "nat option" regex \<comment> \<open>greedy or lazy, least number, extra repetitions\<close>
  | Look "str \<Rightarrow> nat \<Rightarrow> bool" \<comment> \<open>a zero-width assertion at a position\<close>

fun reps :: "bool \<Rightarrow> (nat \<Rightarrow> nat list) \<Rightarrow> nat \<Rightarrow> nat \<Rightarrow> nat \<Rightarrow> nat list" where
  "reps g f (Suc lo) ex i = concat (map (reps g f lo ex) (f i))"
| "reps g f 0 0 i = [i]"
| "reps g f 0 (Suc ex) i =
     (let more = concat (map (reps g f 0 ex) (f i)) in if g then more @ [i] else i # more)"

text \<open>
  An unbounded repetition consumes a character each time, so the length of the text bounds
  it.
\<close>

primrec ends :: "regex \<Rightarrow> str \<Rightarrow> nat \<Rightarrow> nat list" where
  "ends Eps s i = [i]"
| "ends (Cls p) s i = (if i < length s \<and> p (s ! i) then [Suc i] else [])"
| "ends (Cat a b) s i = concat (map (ends b s) (ends a s i))"
| "ends (Alt a b) s i = ends a s i @ ends b s i"
| "ends (Rep g lo ex r) s i =
     reps g (ends r s) lo (case ex of None \<Rightarrow> length s | Some n \<Rightarrow> n) i"
| "ends (Look p) s i = (if p s i then [i] else [])"

definition match_at :: "regex \<Rightarrow> str \<Rightarrow> nat \<Rightarrow> nat option" where
  "match_at r s i = (case ends r s i of [] \<Rightarrow> None | j # _ \<Rightarrow> Some j)"

definition fullmatch :: "regex \<Rightarrow> str \<Rightarrow> bool" where
  "fullmatch r s \<longleftrightarrow> length s \<in> set (ends r s 0)"

text \<open>\<^verbatim>\<open>finditer\<close>: the leftmost match, then the next from its end.\<close>

function find_from :: "regex \<Rightarrow> str \<Rightarrow> nat \<Rightarrow> (nat \<times> nat) list" where
  "find_from r s p =
     (if length s < p then []
      else case match_at r s p of
             None \<Rightarrow> find_from r s (Suc p)
           | Some e \<Rightarrow> (p, e) # find_from r s (if p < e then e else Suc p))"
  by pat_completeness auto
termination by (relation "measure (\<lambda>(r, s, p). Suc (length s) - p)") auto

declare find_from.simps [simp del]

definition finditer :: "regex \<Rightarrow> str \<Rightarrow> (nat \<times> nat) list" where
  "finditer r s = find_from r s 0"

definition searches :: "regex \<Rightarrow> str \<Rightarrow> bool" where
  "searches r s \<longleftrightarrow> finditer r s \<noteq> []"

text \<open>\<^verbatim>\<open>pattern.sub\<close>: copy what lies between the matches and replace each match.\<close>

fun splice :: "(str \<Rightarrow> str) \<Rightarrow> str \<Rightarrow> nat \<Rightarrow> (nat \<times> nat) list \<Rightarrow> str" where
  "splice f s cursor [] = drop cursor s"
| "splice f s cursor ((a, b) # ms) =
     py_slice s cursor a @ f (py_slice s a b) @ splice f s b ms"

definition re_sub :: "regex \<Rightarrow> (str \<Rightarrow> str) \<Rightarrow> str \<Rightarrow> str" where
  "re_sub r f s = splice f s 0 (finditer r s)"

text \<open>The matched texts, and the pieces the source's patterns are put together from.\<close>

definition matches :: "regex \<Rightarrow> str \<Rightarrow> str list" where
  "matches r s = map (\<lambda>(a, b). py_slice s a b) (finditer r s)"

definition sequence :: "regex list \<Rightarrow> regex" where
  "sequence rs = foldr Cat rs Eps"

fun choice :: "regex list \<Rightarrow> regex" where
  "choice [] = Cls (\<lambda>_. False)"
| "choice [r] = r"
| "choice (r # rs) = Alt r (choice rs)"

definition optional :: "regex \<Rightarrow> regex" where "optional r = Rep True 0 (Some 1) r"

definition at_least :: "nat \<Rightarrow> regex \<Rightarrow> regex" where "at_least n r = Rep True n None r"

definition up_to :: "nat \<Rightarrow> regex \<Rightarrow> regex" where "up_to n r = Rep True 0 (Some n) r"

definition char :: "nat \<Rightarrow> regex" where "char c = Cls (\<lambda>d. d = c)"

definition text_of :: "string \<Rightarrow> regex" where "text_of t = sequence (map char (lit t))"

definition not_after :: "(nat \<Rightarrow> bool) \<Rightarrow> regex" where
  "not_after p = Look (\<lambda>s i. \<not> (0 < i \<and> i \<le> length s \<and> p (s ! (i - 1))))"

definition not_followed_by :: "(nat \<Rightarrow> bool) \<Rightarrow> regex" where
  "not_followed_by p = Look (\<lambda>s i. \<not> (i < length s \<and> p (s ! i)))"

definition word_boundary :: "unicode_db \<Rightarrow> regex" where
  "word_boundary u = Look (\<lambda>s i. (0 < i \<and> i \<le> length s \<and> u_word u (s ! (i - 1))) \<noteq> (i < length s \<and> u_word u (s ! i)))"

subsection \<open>Facts\<close>

lemma reps_bound:
  "(\<And>i j. j \<in> set (f i) \<Longrightarrow> i \<le> j \<and> (i \<le> n \<longrightarrow> j \<le> n)) \<Longrightarrow> j \<in> set (reps g f lo ex i)
    \<Longrightarrow> i \<le> j \<and> (i \<le> n \<longrightarrow> j \<le> n)"
proof (induction g f lo ex i arbitrary: j rule: reps.induct)
  case (1 g f lo ex i)
  then obtain k where k: "k \<in> set (f i)" "j \<in> set (reps g f lo ex k)" by auto
  show ?case using 1(1) [OF k(1) 1(2) k(2)] 1(2) [OF k(1)] by auto
next
  case (3 g f ex i)
  then consider "j = i" | k where "k \<in> set (f i)" "j \<in> set (reps g f 0 ex k)"
    by (auto simp: Let_def split: if_splits)
  then show ?case
  proof cases
    case 2
    show ?thesis using 3(1) [OF 2(1) 3(2) 2(2)] 3(2) [OF 2(1)] by auto
  qed simp
qed simp

lemma ends_bound: "j \<in> set (ends r s i) \<Longrightarrow> i \<le> j \<and> (i \<le> length s \<longrightarrow> j \<le> length s)"
proof (induction r arbitrary: i j)
  case (Cat a b)
  from Cat.prems obtain k where "k \<in> set (ends a s i)" "j \<in> set (ends b s k)" by auto
  then show ?case using Cat.IH(1) [of k i] Cat.IH(2) [of j k] by auto
next
  case (Alt a b)
  then show ?case using Alt.IH(1) [of j i] Alt.IH(2) [of j i] by auto
next
  case (Rep g lo ex r)
  from Rep.prems have "j \<in> set (reps g (ends r s) lo (case ex of None \<Rightarrow> length s | Some n \<Rightarrow> n) i)"
    by simp
  from reps_bound [OF Rep.IH this] show ?case .
qed (simp_all split: if_splits)

lemma reps_numeral:
  "reps g f (numeral n) ex i = concat (map (reps g f (pred_numeral n) ex) (f i))"
  "reps g f 0 (numeral n) i =
     (let more = concat (map (reps g f 0 (pred_numeral n)) (f i)) in if g then more @ [i] else i # more)"
  by (simp_all add: numeral_eq_Suc)

lemma finditer_empty: "(\<And>i. i \<le> length s \<Longrightarrow> ends r s i = []) \<Longrightarrow> finditer r s = []"
proof -
  assume none: "\<And>i. i \<le> length s \<Longrightarrow> ends r s i = []"
  have "find_from r s p = []" for p
  proof (induction "Suc (length s) - p" arbitrary: p rule: less_induct)
    case less
    then show ?case by (subst find_from.simps) (simp add: match_at_def none)
  qed
  then show ?thesis by (simp add: finditer_def)
qed

lemma reps_lower:
  assumes "\<And>i j. j \<in> set (f i) \<Longrightarrow> i + w \<le> j"
  shows "j \<in> set (reps g f lo ex i) \<Longrightarrow> i + lo * w \<le> j"
proof (induction lo arbitrary: i)
  case 0
  have "j \<in> set (reps g f 0 ex i) \<Longrightarrow> i \<le> j" for i
  proof (induction ex arbitrary: i)
    case (Suc ex)
    then consider "j = i" | k where "k \<in> set (f i)" "j \<in> set (reps g f 0 ex k)"
      by (auto simp: Let_def split: if_splits)
    then show ?case using assms [of _ i] Suc.IH by cases (force, meson add_leD1 le_trans)
  qed simp
  then show ?case using 0 by simp
next
  case (Suc lo)
  then obtain k where "k \<in> set (f i)" "j \<in> set (reps g f lo ex k)" by auto
  then show ?case using assms [of k i] Suc.IH [of k] by (simp add: algebra_simps)
qed

lemma at_least_short:
  assumes "\<And>i j. j \<in> set (ends r s i) \<Longrightarrow> i + w \<le> j" and "length s < n * w" and "i \<le> length s"
  shows "ends (at_least n r) s i = []"
proof (rule ccontr)
  assume "ends (at_least n r) s i \<noteq> []"
  then obtain j where j: "j \<in> set (ends (at_least n r) s i)" by (meson last_in_set)
  then have "i + n * w \<le> j" by (intro reps_lower [OF assms(1)]) (simp_all add: at_least_def)
  moreover have "j \<le> length s" using ends_bound [OF j] assms(3) by simp
  ultimately show False using assms(2) by linarith
qed

text \<open>A greedy repetition of what matches in one way only first tries to go as far as it can.\<close>

lemma reps_greedy:
  assumes "lo \<le> m" and "m \<le> lo + ex" and "\<And>k. k < m \<Longrightarrow> f (i + k * w) = [i + Suc k * w]" and "f (i + m * w) = []"
  shows "\<exists>rest. reps True f lo ex i = (i + m * w) # rest"
  using assms
proof (induction lo arbitrary: i m)
  case 0
  then show ?case
  proof (induction ex arbitrary: i m)
    case (Suc ex)
    show ?case
    proof (cases m)
      case (Suc n)
      have "f i = [i + w]" using Suc.prems(3) [of 0] Suc by simp
      moreover have "\<exists>rest. reps True f 0 ex (i + w) = (i + w + n * w) # rest"
      proof (rule Suc.IH)
        show "f (i + w + k * w) = [i + w + Suc k * w]" if "k < n" for k
          using Suc.prems(3) [of "Suc k"] Suc that by (simp add: algebra_simps)
      qed (use Suc.prems Suc in \<open>auto simp: algebra_simps\<close>)
      ultimately show ?thesis using Suc by (auto simp: Let_def algebra_simps)
    qed (use Suc.prems in \<open>simp add: Let_def\<close>)
  qed simp
next
  case (Suc lo)
  then obtain n where n: "m = Suc n" by (cases m) auto
  have "f i = [i + w]" using Suc.prems(3) [of 0] n by simp
  moreover have "\<exists>rest. reps True f lo ex (i + w) = (i + w + n * w) # rest"
  proof (rule Suc.IH)
    show "f (i + w + k * w) = [i + w + Suc k * w]" if "k < n" for k
      using Suc.prems(3) [of "Suc k"] n that by (simp add: algebra_simps)
  qed (use Suc.prems n in \<open>auto simp: algebra_simps\<close>)
  ultimately show ?case using n by (auto simp: algebra_simps)
qed

text \<open>A run of a class is matched to its end.\<close>

lemma reps_class_greedy:
  assumes "i + lo \<le> n" and "n \<le> i + lo + ex" and "\<And>k. i \<le> k \<Longrightarrow> k < n \<Longrightarrow> k < length s \<and> p (s ! k)"
    and "\<not> (n < length s \<and> p (s ! n))"
  shows "\<exists>rest. reps True (ends (Cls p) s) lo ex i = n # rest"
proof -
  have "ends (Cls p) s (i + k * 1) = [i + Suc k * 1]" if "k < n - i" for k using assms(3) [of "i + k"] that by simp
  moreover have "ends (Cls p) s (i + (n - i) * 1) = []" using assms(1,4) by auto
  ultimately have "\<exists>rest. reps True (ends (Cls p) s) lo ex i = (i + (n - i) * 1) # rest"
    using assms(1,2) by (intro reps_greedy) auto
  then show ?thesis using assms(1) by simp
qed

lemma finditer_whole:
  assumes "match_at r s 0 = Some (length s)" and "s \<noteq> []"
  shows "s \<in> set (matches r s)"
proof -
  have "(0, length s) \<in> set (finditer r s)"
    using assms by (subst finditer_def, subst find_from.simps) simp
  then show ?thesis unfolding matches_def by (force intro: image_eqI [where x = "(0, length s)"])
qed

section \<open>Decimal numbers\<close>

text \<open>\<^verbatim>\<open>str(n)\<close> of a natural number.\<close>

fun dec :: "nat \<Rightarrow> str" where
  "dec n = (if n < 10 then [48 + n] else dec (n div 10) @ [48 + n mod 10])"

declare dec.simps [simp del]

lemma dec_digits: "\<forall>c \<in> set (dec n). ascii_digit c"
proof (induction n rule: dec.induct)
  case (1 n)
  then show ?case by (subst dec.simps) (auto simp: ascii_digit_def)
qed

lemma dec_nonempty [simp]: "dec n \<noteq> []" "[] \<noteq> dec n"
  by (subst dec.simps, simp)+

lemma dec_length: "n < 10 ^ k \<Longrightarrow> 0 < k \<Longrightarrow> length (dec n) \<le> k"
proof (induction n arbitrary: k rule: dec.induct)
  case (1 n)
  show ?case
  proof (cases "n < 10")
    case True
    then show ?thesis using 1(3) by (subst dec.simps) simp
  next
    case False
    with 1(2) have k: "1 < k" by (cases "k = 1") (use 1(3) in auto)
    then have "n div 10 < 10 ^ (k - 1)" using 1(2)
      by (metis Suc_diff_1 gr_implies_not0 less_mult_imp_div_less mult.commute not_gr_zero power_Suc)
    then have "length (dec (n div 10)) \<le> k - 1" using 1(1) [OF False] k by simp
    then show ?thesis using False k by (subst dec.simps) simp
  qed
qed

lemma dec_inj [simp]: "dec m = dec n \<longleftrightarrow> m = n"
proof
  show "dec m = dec n \<Longrightarrow> m = n"
  proof (induction m arbitrary: n rule: dec.induct)
    case (1 m)
    show ?case
    proof (cases "m < 10")
      case True
      then show ?thesis using 1(2) dec.simps [of m] dec.simps [of n] by (auto split: if_splits)
    next
      case False
      then have "\<not> n < 10" using 1(2) dec.simps [of m] dec.simps [of n] by (auto split: if_splits)
      then have "dec (m div 10) = dec (n div 10)" "m mod 10 = n mod 10"
        using 1(2) False dec.simps [of m] dec.simps [of n] by simp_all
      then show ?thesis using 1(1) [OF False] by (metis div_mult_mod_eq)
    qed
  qed
qed simp

end
