(* ===== verification/Urls.thy ===== *)
theory Urls
  imports Pyregex
begin

text \<open>
  What \<^verbatim>\<open>tools.py\<close> uses of \<^verbatim>\<open>urllib.parse.urlsplit\<close>, \<^verbatim>\<open>ipaddress.ip_address\<close>,
  \<^verbatim>\<open>urllib.parse.unquote\<close> and \<^verbatim>\<open>posixpath.normpath\<close> of the Python 3.11 library, and the
  two checks built on them, \<^verbatim>\<open>url_violation\<close> and \<^verbatim>\<open>path_violation\<close>.
\<close>

section \<open>String methods\<close>

text \<open>\<^verbatim>\<open>s.partition(c)\<close> for a single character: before, whether it was found, after.\<close>

fun partition_at :: "nat \<Rightarrow> str \<Rightarrow> str \<times> bool \<times> str" where
  "partition_at c [] = ([], False, [])"
| "partition_at c (x # xs) =
     (if x = c then ([], True, xs)
      else (let (a, found, b) = partition_at c xs in (x # a, found, b)))"

text \<open>\<^verbatim>\<open>s.rpartition(c)\<close>: when the character is missing the text is the last part.\<close>

definition rpartition_at :: "nat \<Rightarrow> str \<Rightarrow> str \<times> bool \<times> str" where
  "rpartition_at c s =
     (let (a, found, b) = partition_at c (rev s) in if found then (rev b, True, rev a) else ([], False, s))"

text \<open>\<^verbatim>\<open>s.split(c)\<close>.\<close>

fun split_on :: "nat \<Rightarrow> str \<Rightarrow> str list" where
  "split_on c [] = [[]]"
| "split_on c (x # xs) =
     (if x = c then [] # split_on c xs
      else (case split_on c xs of [] \<Rightarrow> [[x]] | w # ws \<Rightarrow> (x # w) # ws))"

fun join_with :: "str \<Rightarrow> str list \<Rightarrow> str" where
  "join_with sep [] = []"
| "join_with sep [w] = w"
| "join_with sep (w # ws) = w @ sep @ join_with sep ws"

definition rstrip_char :: "nat \<Rightarrow> str \<Rightarrow> str" where
  "rstrip_char c s = rev (dropWhile (\<lambda>x. x = c) (rev s))"

definition hex_digit :: "nat \<Rightarrow> bool" where
  "hex_digit c \<longleftrightarrow> ascii_digit c \<or> 65 \<le> c \<and> c \<le> 70 \<or> 97 \<le> c \<and> c \<le> 102"

definition digits_value :: "str \<Rightarrow> nat" where
  "digits_value s = foldl (\<lambda>n c. 10 * n + (c - 48)) 0 s"

section \<open>Addresses\<close>

definition ipv4_octet :: "str \<Rightarrow> bool" where
  "ipv4_octet s \<longleftrightarrow> s \<noteq> [] \<and> list_all ascii_digit s \<and> length s \<le> 3
     \<and> \<not> (s \<noteq> [48] \<and> hd s = 48) \<and> digits_value s \<le> 255"

definition ipv4_literal :: "str \<Rightarrow> bool" where
  "ipv4_literal s \<longleftrightarrow> \<not> 47 \<in> set s \<and> length (split_on 46 s) = 4 \<and> list_all ipv4_octet (split_on 46 s)"

definition hextet :: "str \<Rightarrow> bool" where
  "hextet s \<longleftrightarrow> s \<noteq> [] \<and> list_all hex_digit s \<and> length s \<le> 4"

text \<open>
  The parts between colons, where a dotted last part counts as two. \<open>skips\<close> are the inner
  empty parts, at most one, the \<^verbatim>\<open>::\<close>.
\<close>

definition ipv6_parts_ok :: "str list \<Rightarrow> bool" where
  "ipv6_parts_ok parts =
     (let n = length parts;
          skips = filter (\<lambda>i. parts ! i = []) [1..<n - 1]
      in n \<le> 9 \<and>
         (case skips of
            [] \<Rightarrow> n = 8 \<and> list_all hextet parts
          | [skip] \<Rightarrow>
              (let hi = (if hd parts = [] then skip - 1 else skip);
                   lo = (if last parts = [] then n - skip - 2 else n - skip - 1)
               in (hd parts = [] \<longrightarrow> hi = 0) \<and> (last parts = [] \<longrightarrow> lo = 0) \<and> hi + lo < 8
                  \<and> list_all hextet (take hi parts) \<and> list_all hextet (drop (n - lo) parts))
          | _ \<Rightarrow> False))"

definition ipv6_literal :: "str \<Rightarrow> bool" where
  "ipv6_literal s =
     (if 47 \<in> set s then False
      else let (addr, zoned, zone) = partition_at 37 s;
               parts = split_on 58 addr
           in \<not> (zoned \<and> (zone = [] \<or> 37 \<in> set zone)) \<and> addr \<noteq> [] \<and> 3 \<le> length parts
              \<and> (if 46 \<in> set (last parts)
                 then ipv4_literal (last parts) \<and> ipv6_parts_ok (butlast parts @ [[48], [48]])
                 else ipv6_parts_ok parts))"

text \<open>\<^verbatim>\<open>_is_ip_literal\<close>.\<close>

definition is_ip_literal :: "str \<Rightarrow> bool" where
  "is_ip_literal host \<longleftrightarrow> ipv4_literal host \<or> ipv6_literal host"

section \<open>urlsplit\<close>

record split_result =
  us_scheme :: str
  us_netloc :: str

definition scheme_char :: "nat \<Rightarrow> bool" where
  "scheme_char c \<longleftrightarrow> ascii_letter c \<or> ascii_digit c \<or> one_of ''+-.'' c"

definition clean_url :: "str \<Rightarrow> str" where
  "clean_url url = filter (\<lambda>c. c \<notin> {9, 13, 10}) (dropWhile (\<lambda>c. c \<le> 32) url)"

definition split_scheme :: "unicode_db \<Rightarrow> str \<Rightarrow> str \<times> str" where
  "split_scheme u url =
     (let (head, found, after) = partition_at 58 url in
      if found \<and> head \<noteq> [] \<and> ascii_letter (hd head) \<and> list_all scheme_char head
      then (u_lower u head, after) else ([], url))"

definition bracketed_ok :: "str \<Rightarrow> bool" where
  "bracketed_ok netloc =
     (let (_, _, rest) = partition_at 91 netloc;
          (host, _, _) = partition_at 93 rest
      in if host \<noteq> [] \<and> hd host = 118
         then (let (hex, dot, more) = partition_at 46 (tl host)
               in hex \<noteq> [] \<and> list_all hex_digit hex \<and> dot \<and> more \<noteq> [] \<and> 10 \<notin> set more)
         else ipv6_literal host)"

definition netloc_ok :: "unicode_db \<Rightarrow> str \<Rightarrow> bool" where
  "netloc_ok u netloc =
     (let n = filter (\<lambda>c. \<not> one_of ''@:#?'' c) netloc; m = u_nfkc u n
      in list_all (\<lambda>c. c < 128) netloc \<or> n = m \<or> \<not> list_ex (one_of ''/?#@:'') m)"

definition urlsplit :: "unicode_db \<Rightarrow> str \<Rightarrow> py_error + split_result" where
  "urlsplit u url =
     (let (scheme, rest) = split_scheme u (clean_url url) in
      if take 2 rest = [47, 47] then
        (let netloc = takeWhile (\<lambda>c. \<not> one_of ''/?#'' c) (drop 2 rest) in
         if (91 \<in> set netloc) \<noteq> (93 \<in> set netloc) then Inl ValueError
         else if 91 \<in> set netloc \<and> \<not> bracketed_ok netloc then Inl ValueError
         else if \<not> netloc_ok u netloc then Inl ValueError
         else Inr \<lparr>us_scheme = scheme, us_netloc = netloc\<rparr>)
      else Inr \<lparr>us_scheme = scheme, us_netloc = []\<rparr>)"

text \<open>\<^verbatim>\<open>_userinfo\<close>, \<^verbatim>\<open>_hostinfo\<close> and the properties that read them.\<close>

definition us_username :: "split_result \<Rightarrow> str option" where
  "us_username r =
     (let (info, found, _) = rpartition_at 64 (us_netloc r) in
      if found then Some (fst (partition_at 58 info)) else None)"

definition us_password :: "split_result \<Rightarrow> str option" where
  "us_password r =
     (let (info, found, _) = rpartition_at 64 (us_netloc r);
          (_, has, password) = partition_at 58 info
      in if found \<and> has then Some password else None)"

definition hostinfo :: "split_result \<Rightarrow> str \<times> str option" where
  "hostinfo r =
     (let (_, _, info) = rpartition_at 64 (us_netloc r);
          (_, open_br, bracketed) = partition_at 91 info;
          (host, port) = (if open_br
             then (let (h, _, after) = partition_at 93 bracketed; (_, _, p) = partition_at 58 after in (h, p))
             else (let (h, _, p) = partition_at 58 info in (h, p)))
      in (host, if port = [] then None else Some port))"

definition us_hostname :: "unicode_db \<Rightarrow> split_result \<Rightarrow> str option" where
  "us_hostname u r =
     (let host = fst (hostinfo r) in
      if host = [] then None
      else let (name, percent, zone) = partition_at 37 host
           in Some (u_lower u name @ (if percent then [37] else []) @ zone))"

definition us_port :: "split_result \<Rightarrow> py_error + nat option" where
  "us_port r =
     (case snd (hostinfo r) of
        None \<Rightarrow> Inr None
      | Some p \<Rightarrow>
          if \<not> list_all ascii_digit p then Inl ValueError
          else if 65535 < digits_value p then Inl ValueError
          else Inr (Some (digits_value p)))"

section \<open>The argument checks\<close>

record policy_config =
  allowed_hosts :: "str set"
  config_root :: str

definition url_violation :: "unicode_db \<Rightarrow> str \<Rightarrow> policy_config \<Rightarrow> str option" where
  "url_violation u url config =
     (case urlsplit u url of
        Inl _ \<Rightarrow> Some (lit ''url_not_permitted'')
      | Inr parts \<Rightarrow>
          (case us_port parts of
             Inl _ \<Rightarrow> Some (lit ''url_not_permitted'')
           | Inr port \<Rightarrow>
               if us_scheme parts \<noteq> lit ''https'' \<or> us_username parts \<noteq> None \<or> us_password parts \<noteq> None
               then Some (lit ''url_not_permitted'')
               else if port \<notin> {None, Some 443} then Some (lit ''url_not_permitted'')
               else
                 let host = u_lower u (rstrip_char 46 (case us_hostname u parts of None \<Rightarrow> [] | Some h \<Rightarrow> h)) in
                 if host = [] \<or> is_ip_literal host then Some (lit ''url_not_permitted'')
                 else if host \<notin> allowed_hosts config then Some (lit ''url_host_not_allowlisted'')
                 else None))"

text \<open>
  \<^verbatim>\<open>unquote(path) != path\<close>: every escape \<^verbatim>\<open>%XX\<close> is replaced by at most one character
  and nothing else changes, so the texts differ exactly when there is one.
\<close>

fun has_escape :: "str \<Rightarrow> bool" where
  "has_escape (c # d # e # s) = (c = 37 \<and> hex_digit d \<and> hex_digit e \<or> has_escape (d # e # s))"
| "has_escape _ = False"

text \<open>\<^verbatim>\<open>posixpath.normpath\<close>; \<open>kept\<close> is \<^verbatim>\<open>new_comps\<close>, last first.\<close>

fun norm_comps :: "bool \<Rightarrow> str list \<Rightarrow> str list \<Rightarrow> str list" where
  "norm_comps rooted kept [] = rev kept"
| "norm_comps rooted kept (c # cs) =
     (if c = [] \<or> c = lit ''.'' then norm_comps rooted kept cs
      else if c \<noteq> lit ''..'' \<or> (\<not> rooted \<and> kept = []) \<or> (kept \<noteq> [] \<and> hd kept = lit ''..'')
      then norm_comps rooted (c # kept) cs
      else norm_comps rooted (tl kept) cs)"

definition normpath :: "str \<Rightarrow> str" where
  "normpath path =
     (if path = [] then lit ''.''
      else let slashes = (if \<not> prefix (lit ''/'') path then 0
                          else if prefix (lit ''//'') path \<and> \<not> prefix (lit ''///'') path then 2 else (1::nat));
               p = replicate slashes 47 @ join_with (lit ''/'') (norm_comps (0 < slashes) [] (split_on 47 path))
           in if p = [] then lit ''.'' else p)"

definition path_violation :: "str \<Rightarrow> policy_config \<Rightarrow> str option" where
  "path_violation path config =
     (if has_escape path \<or> 0 \<in> set path \<or> 92 \<in> set path then Some (lit ''path_outside_workspace'')
      else if prefix (lit ''/'') path \<or> prefix (lit ''~'') path \<or> 58 \<in> set path
      then Some (lit ''path_outside_workspace'')
      else let canonical = normpath path in
        if canonical \<noteq> config_root config \<and> \<not> prefix (config_root config @ lit ''/'') canonical
        then Some (lit ''path_outside_workspace'')
        else None)"

section \<open>Accepted paths stay in the workspace\<close>

text \<open>
  Opening a path relative to a directory, one component at a time: \<open>descend\<close> keeps the names
  from that directory down, last first, and is \<open>None\<close> once the path leaves it upwards.
\<close>

fun descend :: "str list \<Rightarrow> str list \<Rightarrow> str list option" where
  "descend names [] = Some names"
| "descend names (c # cs) =
     (if c = [] \<or> c = lit ''.'' then descend names cs
      else if c = lit ''..'' then (case names of [] \<Rightarrow> None | _ # up \<Rightarrow> descend up cs)
      else descend (c # names) cs)"

lemma norm_comps_escaped:
  "kept \<noteq> [] \<Longrightarrow> last kept = lit ''..'' \<Longrightarrow> \<exists>r. norm_comps False kept cs = lit ''..'' # r"
proof (induction cs arbitrary: kept)
  case Nil
  then show ?case by (metis hd_rev list.collapse norm_comps.simps(1) rev_is_Nil_conv)
next
  case (Cons c cs)
  show ?case
  proof (cases "hd kept = lit ''..'' \<or> c \<noteq> lit ''..''")
    case True
    then show ?thesis using Cons.IH [of kept] Cons.IH [of "c # kept"] Cons.prems by auto
  next
    case False
    then have "tl kept \<noteq> []" using Cons.prems by (cases kept) (auto split: if_splits)
    then show ?thesis using Cons.IH [of "tl kept"] Cons.prems False by (simp add: last_tl)
  qed
qed

lemma norm_comps_descend:
  "lit ''..'' \<notin> set kept \<Longrightarrow>
   descend kept cs = Some (rev (norm_comps False kept cs)) \<or> (\<exists>r. norm_comps False kept cs = lit ''..'' # r)"
proof (induction cs arbitrary: kept)
  case (Cons c cs)
  consider "c = [] \<or> c = lit ''.''" | "c = lit ''..''" "kept = []" | "c = lit ''..''" "kept \<noteq> []"
    | "c \<noteq> []" "c \<noteq> lit ''.''" "c \<noteq> lit ''..''" by blast
  then show ?case
  proof cases
    case 1
    then show ?thesis using Cons.IH [OF Cons.prems] by auto
  next
    case 2
    then show ?thesis using norm_comps_escaped [of "[lit ''..'']" cs] by simp
  next
    case 3
    then obtain k up where k: "kept = k # up" by (cases kept) auto
    then show ?thesis using Cons.IH [of up] Cons.prems 3 by auto
  next
    case 4
    then show ?thesis using Cons.IH [of "c # kept"] Cons.prems by simp
  qed
qed simp

lemma split_on_nonempty [simp]: "split_on c s \<noteq> []"
  by (induction s) (auto split: list.splits)

lemma split_on_no_sep: "w \<in> set (split_on c s) \<Longrightarrow> c \<notin> set w"
  by (induction s arbitrary: w) (auto split: list.splits if_splits)

lemma split_on_plain: "c \<notin> set s \<Longrightarrow> split_on c s = [s]"
  by (induction s) auto

lemma split_on_append: "c \<notin> set a \<Longrightarrow> split_on c (a @ c # s) = a # split_on c s"
  by (induction a) auto

lemma split_on_join:
  "ws \<noteq> [] \<Longrightarrow> \<forall>w \<in> set ws. c \<notin> set w \<Longrightarrow> split_on c (join_with [c] ws) = ws"
proof (induction ws rule: induct_list012)
  case (3 w v ws)
  then show ?case by (simp add: split_on_append)
qed (auto simp: split_on_plain)

lemma norm_comps_members: "set (norm_comps rooted kept cs) \<subseteq> set kept \<union> set cs"
proof (induction cs arbitrary: kept)
  case (Cons c cs)
  have tl: "set (tl kept) \<subseteq> set kept" by (cases kept) auto
  show ?case
    using Cons.IH [of kept] Cons.IH [of "c # kept"] Cons.IH [of "tl kept"] tl by (simp, blast)
qed simp

text \<open>
  C11: A path the read_file policy accepts stays inside the workspace root when it is opened:
  followed component by component from the sandbox directory, with \<^verbatim>\<open>.\<close> and empty
  components skipped and \<^verbatim>\<open>..\<close> going up, it never leaves that directory upwards and ends at
  the root or below it. The root is any single name, as the settings require.
\<close>

theorem accepted_path_inside_root:
  assumes "path_violation path config = None"
    and root: "config_root config \<notin> {[], lit ''.'', lit ''..''}" "47 \<notin> set (config_root config)"
  shows "\<exists>below. descend [] (split_on 47 path) = Some (below @ [config_root config])"
proof -
  let ?root = "config_root config" and ?comps = "norm_comps False [] (split_on 47 path)"
  have slash: "lit ''/'' = [47]" and dot: "lit ''.'' = [46]" by (simp_all add: lit_def)
  have rel: "\<not> prefix (lit ''/'') path"
    and canon: "normpath path = ?root \<or> prefix (?root @ [47]) (normpath path)"
    using assms(1) by (auto simp: path_violation_def Let_def slash split: if_splits)
  have np: "normpath path = (if path = [] \<or> join_with [47] ?comps = [] then [46] else join_with [47] ?comps)"
    using rel by (simp add: normpath_def Let_def slash dot)
  have "normpath path \<noteq> [46]" using canon root(1) by (auto simp: dot prefix_def append_eq_Cons_conv)
  then have j: "normpath path = join_with [47] ?comps" "join_with [47] ?comps \<noteq> []"
    using np by (auto split: if_splits)
  then have ne: "?comps \<noteq> []" by (cases ?comps) auto
  have "\<forall>w \<in> set ?comps. 47 \<notin> set w" using norm_comps_members [of False "[]" "split_on 47 path"] split_on_no_sep by fastforce
  then have split: "split_on 47 (normpath path) = ?comps" using split_on_join [OF ne] j by simp
  have "\<exists>rest. ?comps = ?root # rest"
  proof (cases "normpath path = ?root")
    case True
    then have "?comps = [?root]" using split split_on_plain [OF root(2)] by simp
    then show ?thesis by blast
  next
    case False
    then obtain t where "normpath path = ?root @ 47 # t" using canon by (auto simp: prefix_def)
    then have "?comps = ?root # split_on 47 t" using split split_on_append [OF root(2)] by simp
    then show ?thesis by blast
  qed
  then obtain rest where rest: "?comps = ?root # rest" ..
  then have "descend [] (split_on 47 path) = Some (rev ?comps)"
    using norm_comps_descend [of "[]" "split_on 47 path"] root(1) by auto
  then show ?thesis using rest by simp
qed

definition example_config :: policy_config where
  "example_config = \<lparr>allowed_hosts = {lit ''example.com''}, config_root = lit ''workspace''\<rparr>"

theorem accepted_path_inside_root_witness:
  "\<exists>below. descend [] (split_on 47 (lit ''a/../workspace/notes'')) = Some (below @ [lit ''workspace''])"
proof -
  have "path_violation (lit ''a/../workspace/notes'') example_config = None"
    by (simp add: path_violation_def example_config_def lit_def hex_digit_def normpath_def)
  from accepted_path_inside_root [OF this] show ?thesis
    by (simp add: example_config_def lit_def)
qed

end
