(* ===== verification/Output.thy ===== *)
theory Output
  imports Pyregex Config
begin

text \<open>
  The checks on a model's output, \<^verbatim>\<open>output.py\<close>. The JSON Schema validator is a third-party
  package, and \<^verbatim>\<open>json.loads\<close> only feeds it: they are the argument \<open>schema_checks\<close>.
\<close>

section \<open>Patterns\<close>

definition citation_char :: "nat \<Rightarrow> bool" where
  "citation_char c \<longleftrightarrow> ascii_letter c \<or> ascii_digit c \<or> one_of ''_.:-'' c"

text \<open>\<^verbatim>\<open>_CITATION\<close>, \<^verbatim>\<open>_SENTENCE_END\<close> and \<^verbatim>\<open>_WORD\<close>.\<close>

definition citation_pattern :: regex where
  "citation_pattern = Cat (Cls (\<lambda>c. c = 91)) (Cat (Rep True 1 (Some 63) (Cls citation_char)) (Cls (\<lambda>c. c = 93)))"

definition sentence_end :: "unicode_db \<Rightarrow> regex" where
  "sentence_end u = Cat (Look (\<lambda>s i. 0 < i \<and> one_of ''.!?'' (s ! (i - 1)))) (Rep True 1 None (Cls (u_space u)))"

definition word_pattern :: regex where
  "word_pattern = Rep True 1 None (Cls (\<lambda>c. 97 \<le> c \<and> c \<le> 122 \<or> ascii_digit c))"

definition MIN_TERM_LENGTH :: nat where "MIN_TERM_LENGTH = 4"

text \<open>\<^verbatim>\<open>pattern.split\<close> and \<^verbatim>\<open>pattern.findall\<close>.\<close>

fun pieces_between :: "str \<Rightarrow> nat \<Rightarrow> (nat \<times> nat) list \<Rightarrow> str list" where
  "pieces_between s cursor [] = [drop cursor s]"
| "pieces_between s cursor ((a, b) # ms) = py_slice s cursor a # pieces_between s b ms"

definition re_split :: "regex \<Rightarrow> str \<Rightarrow> str list" where
  "re_split r s = pieces_between s 0 (finditer r s)"

definition sentences :: "unicode_db \<Rightarrow> str \<Rightarrow> str list" where
  "sentences u content = re_split (sentence_end u) content"

text \<open>The identifier is the pattern's group, between the brackets.\<close>

definition citations :: "str \<Rightarrow> str list" where
  "citations sentence = map (\<lambda>(a, b). py_slice sentence (Suc a) (b - 1)) (finditer citation_pattern sentence)"

definition terms :: "unicode_db \<Rightarrow> str \<Rightarrow> str set" where
  "terms u content =
     (let lowered = u_lower u content
      in set (filter (\<lambda>w. MIN_TERM_LENGTH \<le> length w)
           (map (\<lambda>(a, b). py_slice lowered a b) (finditer word_pattern lowered))))"

section \<open>Configuration\<close>

record output_config =
  oc_grounding_min_overlap :: real
  oc_abstention_phrases :: "str list"
  oc_disallowed_terms :: "(str \<times> str list) list"

definition output_config_from :: "unicode_db \<Rightarrow> settings \<Rightarrow> output_config" where
  "output_config_from u s =
     \<lparr>oc_grounding_min_overlap = grounding_min_overlap s,
      oc_abstention_phrases = map (u_lower u) (abstention_phrases s),
      oc_disallowed_terms = disallowed_output_terms s\<rparr>"

record schema_checks =
  sc_schema_ok :: "py_value \<Rightarrow> bool" \<comment> \<open>\<^verbatim>\<open>check_schema\<close> does not raise\<close>
  sc_loads :: "str \<Rightarrow> py_value option" \<comment> \<open>\<^verbatim>\<open>None\<close> for a \<^verbatim>\<open>ValueError\<close>\<close>
  sc_is_valid :: "py_value \<Rightarrow> py_value \<Rightarrow> bool option" \<comment> \<open>\<^verbatim>\<open>None\<close> for \<^verbatim>\<open>Unresolvable\<close>\<close>

section \<open>Checks\<close>

text \<open>\<^verbatim>\<open>(?<!\w)term(?!\w)\<close> with the term escaped.\<close>

fun literal_pattern :: "str \<Rightarrow> regex" where
  "literal_pattern [] = Eps"
| "literal_pattern (c # cs) = Cat (Cls (\<lambda>d. d = c)) (literal_pattern cs)"

definition whole_word :: "unicode_db \<Rightarrow> str \<Rightarrow> regex" where
  "whole_word u word =
     Cat (Look (\<lambda>s i. \<not> (0 < i \<and> u_word u (s ! (i - 1)))))
       (Cat (literal_pattern word) (Look (\<lambda>s i. \<not> (i < length s \<and> u_word u (s ! i)))))"

definition disallowed_category :: "unicode_db \<Rightarrow> str \<Rightarrow> output_config \<Rightarrow> str option" where
  "disallowed_category u content config =
     (let lowered = u_lower u content
      in map_option fst (find (\<lambda>(category, ts). list_ex (\<lambda>t. searches (whole_word u (u_lower u t)) lowered) ts)
           (oc_disallowed_terms config)))"

definition schema_violation :: "schema_checks \<Rightarrow> str \<Rightarrow> py_value \<Rightarrow> str option" where
  "schema_violation sc content schema =
     (if \<not> sc_schema_ok sc schema then Some (lit ''structured_output_schema_invalid'')
      else (case sc_loads sc content of
              None \<Rightarrow> Some (lit ''structured_output_invalid'')
            | Some document \<Rightarrow>
                (case sc_is_valid sc schema document of
                   None \<Rightarrow> Some (lit ''structured_output_schema_invalid'')
                 | Some valid \<Rightarrow> if valid then None else Some (lit ''structured_output_invalid''))))"

text \<open>\<^verbatim>\<open>{source.id: _terms(source.content) ...}\<close>: a later source replaces an earlier one.\<close>

definition source_terms :: "unicode_db \<Rightarrow> source list \<Rightarrow> str \<Rightarrow> str set option" where
  "source_terms u sources = map_of (rev (map (\<lambda>s. (src_id s, terms u (src_content s))) sources))"

definition sentence_claim :: "unicode_db \<Rightarrow> str \<Rightarrow> str set" where
  "sentence_claim u sentence = terms u (re_sub citation_pattern (\<lambda>_. lit '' '') sentence)"

definition cited_evidence :: "(str \<Rightarrow> str set option) \<Rightarrow> str list \<Rightarrow> str set" where
  "cited_evidence sources cited = \<Union> (set (map (\<lambda>i. case sources i of None \<Rightarrow> {} | Some t \<Rightarrow> t) cited))"

definition supported :: "unicode_db \<Rightarrow> real \<Rightarrow> (str \<Rightarrow> str set option) \<Rightarrow> str \<Rightarrow> bool" where
  "supported u overlap sources sentence =
     (let claim = sentence_claim u sentence in
      claim = {} \<or> \<not> real (card (claim \<inter> cited_evidence sources (citations sentence))) / real (card claim) < overlap)"

text \<open>The loop over the sentences: a violation, or whether anything was cited.\<close>

fun cite_loop ::
  "unicode_db \<Rightarrow> real \<Rightarrow> (str \<Rightarrow> str set option) \<Rightarrow> bool \<Rightarrow> str list \<Rightarrow> str + bool" where
  "cite_loop u overlap sources cited_any [] = Inr cited_any"
| "cite_loop u overlap sources cited_any (sentence # rest) =
     (if citations sentence = [] then cite_loop u overlap sources cited_any rest
      else if list_ex (\<lambda>i. sources i = None) (citations sentence) then Inl (lit ''citation_unknown_source'')
      else if \<not> supported u overlap sources sentence then Inl (lit ''citation_not_supported'')
      else cite_loop u overlap sources True rest)"

text \<open>\<^verbatim>\<open>a in b\<close> for strings.\<close>

definition occurs_in :: "str \<Rightarrow> str \<Rightarrow> bool" where
  "occurs_in a b \<longleftrightarrow> list_ex (prefix a) (suffixes b)"

definition citation_violation :: "unicode_db \<Rightarrow> output_request \<Rightarrow> output_config \<Rightarrow> str option" where
  "citation_violation u r config =
     (case cite_loop u (oc_grounding_min_overlap config) (source_terms u (or_sources r)) False
        (sentences u (cr_content r)) of
        Inl violation \<Rightarrow> Some violation
      | Inr cited_any \<Rightarrow>
          if or_require_citations r \<and> \<not> cited_any then
            (if list_ex (\<lambda>p. occurs_in p (u_lower u (cr_content r))) (oc_abstention_phrases config)
             then Some (lit ''abstention'') else Some (lit ''citation_required''))
          else None)"

definition rstrip :: "unicode_db \<Rightarrow> str \<Rightarrow> str" where
  "rstrip u s = rev (dropWhile (u_space u) (rev s))"

definition disclaimer_check :: "unicode_db \<Rightarrow> output_request \<Rightarrow> verdict \<times> str \<times> str option" where
  "disclaimer_check u r =
     (case or_required_disclaimer r of
        None \<Rightarrow> (ALLOW, lit ''policy_allow'', None)
      | Some disclaimer \<Rightarrow>
          if \<not> occurs_in (u_lower u disclaimer) (u_lower u (cr_content r))
          then (TRANSFORM, lit ''disclaimer_appended'',
                Some (rstrip u (cr_content r) @ [10, 10] @ disclaimer))
          else (ALLOW, lit ''policy_allow'', None))"

definition citation_check :: "unicode_db \<Rightarrow> output_request \<Rightarrow> output_config \<Rightarrow> verdict \<times> str \<times> str option" where
  "citation_check u r config =
     (if or_sources r \<noteq> [] \<or> or_require_citations r then
        (case citation_violation u r config of
           None \<Rightarrow> disclaimer_check u r
         | Some violation \<Rightarrow>
             if violation = lit ''abstention'' then (ALLOW, lit ''abstention_accepted'', None)
             else (DENY, violation, None))
      else disclaimer_check u r)"

definition output_verdict ::
  "unicode_db \<Rightarrow> schema_checks \<Rightarrow> output_request \<Rightarrow> output_config \<Rightarrow> verdict \<times> str \<times> str option" where
  "output_verdict u sc r config =
     (if disallowed_category u (cr_content r) config \<noteq> None
      then (DENY, lit ''disallowed_content_category'', None)
      else (case or_output_schema r of
              None \<Rightarrow> citation_check u r config
            | Some schema \<Rightarrow>
                (case schema_violation sc (cr_content r) schema of
                   None \<Rightarrow> citation_check u r config
                 | Some violation \<Rightarrow> (DENY, violation, None))))"

section \<open>Claims\<close>

lemma cite_loop_sound:
  "cite_loop u overlap sources b ss = Inr b' \<Longrightarrow>
   (\<forall>s \<in> set ss. citations s \<noteq> [] \<longrightarrow> list_all (\<lambda>i. sources i \<noteq> None) (citations s) \<and> supported u overlap sources s)
   \<and> b' = (b \<or> (\<exists>s \<in> set ss. citations s \<noteq> []))"
proof (induction ss arbitrary: b)
  case (Cons s ss)
  show ?case
  proof (cases "citations s = []")
    case True
    then show ?thesis using Cons.IH [of b] Cons.prems by simp
  next
    case False
    then have "\<not> list_ex (\<lambda>i. sources i = None) (citations s)" "supported u overlap sources s"
      and rest: "cite_loop u overlap sources True ss = Inr b'"
      using Cons.prems by (simp_all split: if_splits)
    then have "list_all (\<lambda>i. sources i \<noteq> None) (citations s)" by (simp add: list_all_iff list_ex_iff)
    then show ?thesis
      using Cons.IH [OF rest] \<open>supported u overlap sources s\<close> False by simp
  qed
qed simp

lemma source_terms_None: "source_terms u sources i = None \<longleftrightarrow> i \<notin> src_id ` set sources"
  by (auto simp: source_terms_def map_of_eq_None_iff image_image)


definition example_output :: output_request where
  "example_output =
     \<lparr>cr_request_id = 1, cr_trace_id = 2, cr_identity = lit ''ann'', cr_tenant_id = lit ''acme'',
      cr_content = lit ''Refunds [kb]'', cr_trust_level = UNTRUSTED, cr_source_tenant_id = None,
      cr_model = None, or_output_schema = None,
      or_sources = [\<lparr>src_id = lit ''kb'', src_content = lit ''refunds''\<rparr>],
      or_require_citations = True, or_required_disclaimer = None\<rparr>"

definition no_schema :: schema_checks where
  "no_schema = \<lparr>sc_schema_ok = (\<lambda>_. True), sc_loads = (\<lambda>_. None), sc_is_valid = (\<lambda>_ _. None)\<rparr>"

definition example_output_config :: output_config where
  "example_output_config = \<lparr>oc_grounding_min_overlap = 1 / 2,
     oc_abstention_phrases = map (u_lower ascii_db) (map lit [''i don't know'', ''i do not know'', ''i cannot answer'',
       ''i do not have enough information'', ''i don't have enough information'']),
     oc_disallowed_terms = []\<rparr>"

lemma example_output_passes:
  "output_verdict ascii_db no_schema example_output (output_config_from ascii_db default_settings)
    = (ALLOW, lit ''policy_allow'', None)"
proof -
  have "output_config_from ascii_db default_settings = example_output_config"
    by (simp add: output_config_from_def example_output_config_def default_settings_def)
  moreover have "output_verdict ascii_db no_schema example_output example_output_config = (ALLOW, lit ''policy_allow'', None)"
    by code_simp
  ultimately show ?thesis by simp
qed


end
