(* ===== verification/Identity.thy ===== *)
theory Identity
  imports Config Urls Output
begin

text \<open>
  Credentials, \<^verbatim>\<open>identity.py\<close>: the provider's signing keys with their cache and staleness
  limits, and the verifier that turns a bearer token into a principal. PyJWT and the HTTP client
  are third-party code: the record \<open>jwt_lib\<close> and the function \<open>http\<close> are what they answer, and
  \<open>to_str\<close> is \<^verbatim>\<open>str()\<close> of a JSON value that is not a string.
\<close>

section \<open>The libraries behind it\<close>

datatype auth_failure = AF_UNAVAILABLE | AF_MISSING | AF_INVALID | AF_EXPIRED | AF_INCOMPLETE

fun auth_failure_value :: "auth_failure \<Rightarrow> str" where
  "auth_failure_value AF_UNAVAILABLE = lit ''identity_verification_unavailable''"
| "auth_failure_value AF_MISSING = lit ''credentials_missing''"
| "auth_failure_value AF_INVALID = lit ''credentials_invalid''"
| "auth_failure_value AF_EXPIRED = lit ''credentials_expired''"
| "auth_failure_value AF_INCOMPLETE = lit ''credentials_incomplete''"

text \<open>A key is the configured text, or one the provider published.\<close>

datatype 'k signing_key = Configured str | Published 'k

datatype jwt_error = ExpiredSignatureError | MissingRequiredClaimError | InvalidTokenError

type_synonym claims = "(str \<times> py_value) list"

record 'k jwt_lib =
  jl_header :: "str \<Rightarrow> claims option" \<comment> \<open>\<open>None\<close>: \<^verbatim>\<open>InvalidTokenError\<close>\<close>
  jl_decode :: "str \<Rightarrow> 'k signing_key \<Rightarrow> jwt_algorithm \<Rightarrow> str option \<Rightarrow> str option \<Rightarrow> jwt_error + claims"
  jl_encode :: "claims \<Rightarrow> str \<Rightarrow> jwt_algorithm \<Rightarrow> str"
  jl_rsa_key :: "claims \<Rightarrow> 'k option" \<comment> \<open>\<^verbatim>\<open>PyJWK.from_dict(entry).key\<close>; \<open>None\<close>: a \<^verbatim>\<open>PyJWTError\<close>\<close>
  jl_str :: "py_value \<Rightarrow> str"

definition to_str :: "'k jwt_lib \<Rightarrow> py_value \<Rightarrow> str" where
  "to_str J v = (case v of PStr s \<Rightarrow> s | _ \<Rightarrow> jl_str J v)"

text \<open>The answer to a GET: the JSON of a successful response, or \<open>None\<close> for an \<^verbatim>\<open>HTTPError\<close> or bad JSON.\<close>

type_synonym http = "str \<Rightarrow> py_value option"

text \<open>Subscription, iteration and \<^verbatim>\<open>.get\<close> of a JSON value, with what they raise.\<close>

definition subscript :: "py_value \<Rightarrow> str \<Rightarrow> py_error + py_value" where
  "subscript v k =
     (case v of
        PDict kvs \<Rightarrow> (case map_of kvs k of None \<Rightarrow> Inl KeyError | Some x \<Rightarrow> Inr x)
      | _ \<Rightarrow> Inl TypeError)"

definition iterated :: "py_value \<Rightarrow> py_error + py_value list" where
  "iterated v =
     (case v of
        PList xs \<Rightarrow> Inr xs
      | PDict kvs \<Rightarrow> Inr (map (PStr \<circ> fst) kvs)
      | PStr s \<Rightarrow> Inr (map (\<lambda>c. PStr [c]) s)
      | _ \<Rightarrow> Inl TypeError)"

definition dict_items :: "py_value \<Rightarrow> py_error + claims" where
  "dict_items v = (case v of PDict kvs \<Rightarrow> Inr kvs | _ \<Rightarrow> Inl AttributeError)"

section \<open>ProviderKeys\<close>

definition MIN_REFRESH_SECONDS :: real where "MIN_REFRESH_SECONDS = 10"

definition DISCOVERY_PATH :: str where "DISCOVERY_PATH = lit ''/.well-known/openid-configuration''"

record 'k provider_keys =
  pk_issuer :: "str option"
  pk_jwks_url :: "str option"
  pk_cache_seconds :: real
  pk_max_stale_seconds :: real
  pk_keys :: "(str, 'k) odict"
  pk_fetched_at :: "real option"
  pk_attempted_at :: "real option"

definition new_provider_keys :: "settings \<Rightarrow> 'k provider_keys" where
  "new_provider_keys s =
     \<lparr>pk_issuer = oidc_issuer s, pk_jwks_url = jwks_url s, pk_cache_seconds = jwks_cache_seconds s,
      pk_max_stale_seconds = jwks_max_stale_seconds s, pk_keys = [], pk_fetched_at = None,
      pk_attempted_at = None\<rparr>"

text \<open>What a fetch can raise: an exception \<^verbatim>\<open>_refresh\<close> names, or one that escapes it.\<close>

datatype fetch_error = Handled | Escapes py_error

text \<open>\<^verbatim>\<open>except (httpx.HTTPError, ValueError, KeyError, TypeError, jwt.PyJWTError)\<close>.\<close>

definition raised :: "py_error \<Rightarrow> fetch_error" where
  "raised e = (if e \<in> {ValueError, KeyError, TypeError} then Handled else Escapes e)"

definition discover :: "'k jwt_lib \<Rightarrow> http \<Rightarrow> 'k provider_keys \<Rightarrow> fetch_error + str" where
  "discover J http pk =
     (case pk_issuer pk of
        None \<Rightarrow> Inl (raised ValueError)
      | Some configured \<Rightarrow>
          let issuer = rstrip_char 47 configured in
          (case http (issuer @ DISCOVERY_PATH) of
             None \<Rightarrow> Inl Handled
           | Some document \<Rightarrow>
               (case subscript document (lit ''issuer'') of
                  Inl e \<Rightarrow> Inl (raised e)
                | Inr named \<Rightarrow>
                    if rstrip_char 47 (to_str J named) \<noteq> issuer then Inl (raised ValueError)
                    else
                      (case subscript document (lit ''jwks_uri'') of
                         Inl e \<Rightarrow> Inl (raised e)
                       | Inr v \<Rightarrow>
                           let jwks_uri = to_str J v in
                           if prefix (lit ''https://'') issuer \<and> \<not> prefix (lit ''https://'') jwks_uri
                           then Inl (raised ValueError)
                           else Inr jwks_uri))))"

text \<open>One entry of a key set: skipped, added, or an exception.\<close>

definition key_entry :: "'k jwt_lib \<Rightarrow> py_value \<Rightarrow> fetch_error + (str \<times> 'k) option" where
  "key_entry J entry =
     (case dict_items entry of
        Inl e \<Rightarrow> Inl (raised e)
      | Inr kvs \<Rightarrow>
          if map_of kvs (lit ''kty'') \<noteq> Some (PStr (lit ''RSA''))
             \<or> map_of kvs (lit ''use'') \<notin> {None, Some (PStr (lit ''sig''))}
          then Inr None
          else
            (case map_of kvs (lit ''kid'') of
               Some (PStr key_id) \<Rightarrow>
                 if key_id = [] then Inr None
                 else (case jl_rsa_key J kvs of None \<Rightarrow> Inl Handled | Some k \<Rightarrow> Inr (Some (key_id, k)))
             | _ \<Rightarrow> Inr None))"

fun key_entries :: "'k jwt_lib \<Rightarrow> py_value list \<Rightarrow> (str, 'k) odict \<Rightarrow> fetch_error + (str, 'k) odict" where
  "key_entries J [] keys = Inr keys"
| "key_entries J (entry # rest) keys =
     (case key_entry J entry of
        Inl e \<Rightarrow> Inl e
      | Inr None \<Rightarrow> key_entries J rest keys
      | Inr (Some (key_id, k)) \<Rightarrow> key_entries J rest (od_set key_id k keys))"

definition fetch :: "'k jwt_lib \<Rightarrow> http \<Rightarrow> 'k provider_keys \<Rightarrow> fetch_error + (str, 'k) odict" where
  "fetch J http pk =
     (case (case pk_jwks_url pk of Some url \<Rightarrow> if url \<noteq> [] then Inr url else discover J http pk
            | None \<Rightarrow> discover J http pk) of
        Inl e \<Rightarrow> Inl e
      | Inr url \<Rightarrow>
          (case http url of
             None \<Rightarrow> Inl Handled
           | Some document \<Rightarrow>
               (case subscript document (lit ''keys'') of
                  Inl e \<Rightarrow> Inl (raised e)
                | Inr entries \<Rightarrow>
                    (case iterated entries of
                       Inl e \<Rightarrow> Inl (raised e)
                     | Inr xs \<Rightarrow> key_entries J xs []))))"

text \<open>
  \<^verbatim>\<open>_refresh\<close>, and whether it raised. \<open>now\<close> is the clock during the call.
\<close>

definition refresh :: "'k jwt_lib \<Rightarrow> http \<Rightarrow> real \<Rightarrow> 'k provider_keys \<Rightarrow> py_error option \<times> 'k provider_keys" where
  "refresh J http now pk =
     (if (case pk_attempted_at pk of None \<Rightarrow> False | Some t \<Rightarrow> now - t < MIN_REFRESH_SECONDS) then (None, pk)
      else
        let pk = pk\<lparr>pk_attempted_at := Some now\<rparr> in
        (case fetch J http pk of
           Inl Handled \<Rightarrow> (None, pk)
         | Inl (Escapes e) \<Rightarrow> (Some e, pk)
         | Inr keys \<Rightarrow>
             (None, if keys \<noteq> [] then pk\<lparr>pk_keys := keys, pk_fetched_at := Some now\<rparr> else pk)))"

definition refresh_if_due ::
  "'k jwt_lib \<Rightarrow> http \<Rightarrow> real \<Rightarrow> 'k provider_keys \<Rightarrow> py_error option \<times> 'k provider_keys" where
  "refresh_if_due J http now pk =
     (if (case pk_fetched_at pk of None \<Rightarrow> True | Some t \<Rightarrow> now - t \<ge> pk_cache_seconds pk)
      then refresh J http now pk else (None, pk))"

definition trusted :: "real \<Rightarrow> 'k provider_keys \<Rightarrow> bool" where
  "trusted now pk =
     (case pk_fetched_at pk of
        None \<Rightarrow> False
      | Some t \<Rightarrow> if pk_keys pk = [] then False else now - t \<le> pk_cache_seconds pk + pk_max_stale_seconds pk)"

definition usable :: "'k jwt_lib \<Rightarrow> http \<Rightarrow> real \<Rightarrow> 'k provider_keys \<Rightarrow> (py_error + bool) \<times> 'k provider_keys" where
  "usable J http now pk =
     (case refresh_if_due J http now pk of
        (Some e, pk) \<Rightarrow> (Inl e, pk)
      | (None, pk) \<Rightarrow> (Inr (trusted now pk), pk))"

datatype verify_error = CredentialError auth_failure | Uncaught py_error

text \<open>The keys as they are once a token naming \<open>key_id\<close> has been looked at.\<close>

definition refreshed_for ::
  "'k jwt_lib \<Rightarrow> http \<Rightarrow> real \<Rightarrow> py_value option \<Rightarrow> 'k provider_keys \<Rightarrow> py_error option \<times> 'k provider_keys" where
  "refreshed_for J http now key_id pk =
     (case refresh_if_due J http now pk of
        (Some e, pk) \<Rightarrow> (Some e, pk)
      | (None, pk) \<Rightarrow>
          (case key_id of
             Some (PStr i) \<Rightarrow> if od_get (pk_keys pk) i = None then refresh J http now pk else (None, pk)
           | _ \<Rightarrow> (None, pk)))"

definition chosen_key :: "py_value option \<Rightarrow> (str, 'k) odict \<Rightarrow> 'k option" where
  "chosen_key key_id keys =
     (case key_id of
        Some (PStr i) \<Rightarrow> od_get keys i
      | _ \<Rightarrow> (case keys of [(_, k)] \<Rightarrow> Some k | _ \<Rightarrow> None))"

definition key_for ::
  "'k jwt_lib \<Rightarrow> http \<Rightarrow> real \<Rightarrow> 'k provider_keys \<Rightarrow> str \<Rightarrow> (verify_error + 'k) \<times> 'k provider_keys" where
  "key_for J http now pk token =
     (case jl_header J token of
        None \<Rightarrow> (Inl (CredentialError AF_INVALID), pk)
      | Some header \<Rightarrow>
          let key_id = map_of header (lit ''kid'') in
          (case refreshed_for J http now key_id pk of
             (Some e, pk) \<Rightarrow> (Inl (Uncaught e), pk)
           | (None, pk) \<Rightarrow>
               if \<not> trusted now pk then (Inl (CredentialError AF_UNAVAILABLE), pk)
               else (case chosen_key key_id (pk_keys pk) of
                       None \<Rightarrow> (Inl (CredentialError AF_INVALID), pk)
                     | Some k \<Rightarrow> (Inr k, pk))))"

section \<open>IdentityVerifier\<close>

record 'k verifier =
  iv_key :: "str option"
  iv_algorithm :: jwt_algorithm
  iv_issuer :: "str option"
  iv_audience :: "str option"
  iv_provider :: "'k provider_keys option"

text \<open>\<^verbatim>\<open>a or b\<close> of optional strings: an empty one counts as absent.\<close>

definition str_or :: "str option \<Rightarrow> str option \<Rightarrow> str option" where
  "str_or a b = (if a = None \<or> a = Some [] then b else a)"

definition truthy :: "str option \<Rightarrow> bool" where
  "truthy a \<longleftrightarrow> a \<noteq> None \<and> a \<noteq> Some []"

definition new_verifier :: "settings \<Rightarrow> 'k verifier" where
  "new_verifier s =
     \<lparr>iv_key = jwt_secret s, iv_algorithm = jwt_algorithm s,
      iv_issuer = str_or (jwt_issuer s) (oidc_issuer s), iv_audience = jwt_audience s,
      iv_provider = (if truthy (oidc_issuer s) \<or> truthy (jwks_url s) then Some (new_provider_keys s) else None)\<rparr>"

definition configured ::
  "'k jwt_lib \<Rightarrow> http \<Rightarrow> real \<Rightarrow> 'k verifier \<Rightarrow> (py_error + bool) \<times> 'k verifier" where
  "configured J http now v =
     (case iv_provider v of
        Some pk \<Rightarrow> let (answer, pk) = usable J http now pk in (answer, v\<lparr>iv_provider := Some pk\<rparr>)
      | None \<Rightarrow> (Inr (truthy (iv_key v)), v))"

definition BEARER_PREFIX :: str where "BEARER_PREFIX = lit ''bearer ''"

definition strip :: "unicode_db \<Rightarrow> str \<Rightarrow> str" where
  "strip u s = rstrip u (dropWhile (u_space u) s)"

definition bearer_token :: "unicode_db \<Rightarrow> str option \<Rightarrow> auth_failure + str" where
  "bearer_token u credential =
     (case credential of
        None \<Rightarrow> Inl AF_MISSING
      | Some c \<Rightarrow>
          if c = [] \<or> \<not> prefix BEARER_PREFIX (u_lower u c) then Inl AF_MISSING
          else let token = strip u (drop (length BEARER_PREFIX) c)
               in if token = [] then Inl AF_MISSING else Inr token)"

definition decode :: "'k jwt_lib \<Rightarrow> 'k verifier \<Rightarrow> str \<Rightarrow> 'k signing_key \<Rightarrow> auth_failure + claims" where
  "decode J v token key =
     (case jl_decode J token key (iv_algorithm v) (iv_issuer v) (iv_audience v) of
        Inl ExpiredSignatureError \<Rightarrow> Inl AF_EXPIRED
      | Inl MissingRequiredClaimError \<Rightarrow> Inl AF_INCOMPLETE
      | Inl InvalidTokenError \<Rightarrow> Inl AF_INVALID
      | Inr claims \<Rightarrow> Inr claims)"

definition all_roles :: "role list" where "all_roles = [CALLER, OPERATOR, REVIEWER, AUDITOR]"

definition role_of :: "str \<Rightarrow> role option" where
  "role_of t = find (\<lambda>r. role_value r = t) all_roles"

definition classification_of :: "str \<Rightarrow> classification option" where
  "classification_of t = find (\<lambda>c. classification_value c = t) [PUBLIC, INTERNAL, CONFIDENTIAL, RESTRICTED]"

text \<open>\<^verbatim>\<open>value in set(Enum)\<close> hashes the value, and a list or a dict has no hash.\<close>

definition hashable :: "py_value \<Rightarrow> bool" where
  "hashable v \<longleftrightarrow> (case v of PList _ \<Rightarrow> False | PDict _ \<Rightarrow> False | _ \<Rightarrow> True)"

definition claimed_roles :: "py_value option \<Rightarrow> py_error + role set" where
  "claimed_roles claimed =
     (let items = (case claimed of Some (PList xs) \<Rightarrow> xs | _ \<Rightarrow> []) in
      if \<not> list_all hashable items then Inl TypeError
      else Inr {r. \<exists>t. PStr t \<in> set items \<and> role_of t = Some r})"

definition claimed_clearance :: "py_value option \<Rightarrow> py_error + classification" where
  "claimed_clearance claimed =
     (case claimed of
        None \<Rightarrow> Inr INTERNAL
      | Some v \<Rightarrow>
          if \<not> hashable v then Inl TypeError
          else (case v of
                  PStr t \<Rightarrow> Inr (case classification_of t of None \<Rightarrow> PUBLIC | Some c \<Rightarrow> c)
                | _ \<Rightarrow> Inr PUBLIC))"

definition principal_from :: "claims \<Rightarrow> verify_error + principal" where
  "principal_from claims =
     (case map_of claims (lit ''sub'') of
        Some (PStr subject) \<Rightarrow>
          if subject = [] then Inl (CredentialError AF_INCOMPLETE)
          else
            (case map_of claims (lit ''tenant'') of
               Some (PStr tenant) \<Rightarrow>
                 if tenant = [] then Inl (CredentialError AF_INCOMPLETE)
                 else
                   (case claimed_roles (map_of claims (lit ''roles'')) of
                      Inl e \<Rightarrow> Inl (Uncaught e)
                    | Inr roles \<Rightarrow>
                        (case claimed_clearance (map_of claims (lit ''clearance'')) of
                           Inl e \<Rightarrow> Inl (Uncaught e)
                         | Inr clearance \<Rightarrow>
                             Inr \<lparr>pr_identity = subject, pr_tenant_id = tenant, pr_roles = roles,
                                  pr_clearance = clearance\<rparr>))
             | _ \<Rightarrow> Inl (CredentialError AF_INCOMPLETE))
      | _ \<Rightarrow> Inl (CredentialError AF_INCOMPLETE))"

text \<open>The key a token must be signed with: the provider's where there is one.\<close>

definition verifying_key ::
  "'k jwt_lib \<Rightarrow> http \<Rightarrow> real \<Rightarrow> 'k verifier \<Rightarrow> str \<Rightarrow> (verify_error + 'k signing_key) \<times> 'k verifier" where
  "verifying_key J http now v token =
     (case iv_provider v of
        Some pk \<Rightarrow>
          (case key_for J http now pk token of
             (Inl e, pk) \<Rightarrow> (Inl e, v\<lparr>iv_provider := Some pk\<rparr>)
           | (Inr k, pk) \<Rightarrow> (Inr (Published k), v\<lparr>iv_provider := Some pk\<rparr>))
      | None \<Rightarrow> (case iv_key v of Some k \<Rightarrow> (Inr (Configured k), v)
                 | None \<Rightarrow> (Inl (CredentialError AF_UNAVAILABLE), v)))"

definition verify ::
  "unicode_db \<Rightarrow> 'k jwt_lib \<Rightarrow> http \<Rightarrow> real \<Rightarrow> 'k verifier \<Rightarrow> str option
    \<Rightarrow> (verify_error + principal) \<times> 'k verifier" where
  "verify u J http now v credential =
     (if iv_provider v = None \<and> iv_key v = None then (Inl (CredentialError AF_UNAVAILABLE), v)
      else
        (case bearer_token u credential of
           Inl f \<Rightarrow> (Inl (CredentialError f), v)
         | Inr token \<Rightarrow>
             (case verifying_key J http now v token of
                (Inl e, v) \<Rightarrow> (Inl e, v)
              | (Inr key, v) \<Rightarrow>
                  (case decode J v token key of
                     Inl f \<Rightarrow> (Inl (CredentialError f), v)
                   | Inr claims \<Rightarrow> (principal_from claims, v)))))"

text \<open>\<^verbatim>\<open>issue_token\<close>; \<open>now\<close> is the moment of issue in the whole seconds PyJWT writes.\<close>

definition issue_claims ::
  "settings \<Rightarrow> str \<Rightarrow> str \<Rightarrow> role list \<Rightarrow> int \<Rightarrow> int \<Rightarrow> classification \<Rightarrow> claims" where
  "issue_claims s identity tenant roles lifetime now clearance =
     [(lit ''sub'', PStr identity), (lit ''tenant'', PStr tenant),
      (lit ''roles'', PList (map (PStr \<circ> role_value) roles)),
      (lit ''clearance'', PStr (classification_value clearance)),
      (lit ''iat'', PInt now), (lit ''exp'', PInt (now + lifetime))]
     @ (case jwt_issuer s of None \<Rightarrow> [] | Some i \<Rightarrow> [(lit ''iss'', PStr i)])
     @ (case jwt_audience s of None \<Rightarrow> [] | Some a \<Rightarrow> [(lit ''aud'', PStr a)])"

definition issue_token ::
  "'k jwt_lib \<Rightarrow> settings \<Rightarrow> str \<Rightarrow> str \<Rightarrow> role list \<Rightarrow> int \<Rightarrow> int \<Rightarrow> classification \<Rightarrow> py_error + str" where
  "issue_token J s identity tenant roles lifetime now clearance =
     (case jwt_secret s of
        None \<Rightarrow> Inl ValueError
      | Some secret \<Rightarrow>
          Inr (jl_encode J (issue_claims s identity tenant roles lifetime now clearance) secret (jwt_algorithm s)))"

section \<open>What the keys keep\<close>

lemma refresh_fields [simp]:
  "pk_cache_seconds (snd (refresh J http now pk)) = pk_cache_seconds pk"
  "pk_max_stale_seconds (snd (refresh J http now pk)) = pk_max_stale_seconds pk"
  by (auto simp: refresh_def Let_def split: sum.split fetch_error.split option.split)

lemma refresh_if_due_fields [simp]:
  "pk_cache_seconds (snd (refresh_if_due J http now pk)) = pk_cache_seconds pk"
  "pk_max_stale_seconds (snd (refresh_if_due J http now pk)) = pk_max_stale_seconds pk"
  by (simp_all add: refresh_if_due_def)

lemma refreshed_for_fields:
  assumes "refreshed_for J http now key_id pk = (e, pk')"
  shows "pk_cache_seconds pk' = pk_cache_seconds pk" "pk_max_stale_seconds pk' = pk_max_stale_seconds pk"
proof -
  obtain e1 pk1 where due: "refresh_if_due J http now pk = (e1, pk1)" by fastforce
  have "pk_cache_seconds pk1 = pk_cache_seconds pk" "pk_max_stale_seconds pk1 = pk_max_stale_seconds pk"
    using refresh_if_due_fields [of J http now pk] due by simp_all
  moreover have "pk' = pk1 \<or> pk' = snd (refresh J http now pk1)"
    using assms due by (auto simp: refreshed_for_def split: option.splits py_value.splits if_splits)
  ultimately show "pk_cache_seconds pk' = pk_cache_seconds pk"
    "pk_max_stale_seconds pk' = pk_max_stale_seconds pk" by auto
qed

lemma chosen_key_known: "chosen_key key_id keys = Some k \<Longrightarrow> k \<in> snd ` set keys"
  by (force simp: chosen_key_def dest: map_of_SomeD split: option.splits py_value.splits list.splits)

lemma key_for_result:
  assumes "key_for J http now pk token = (Inr k, pk')"
  shows "k \<in> snd ` set (pk_keys pk')
    \<and> (\<exists>t. pk_fetched_at pk' = Some t \<and> now - t \<le> pk_cache_seconds pk + pk_max_stale_seconds pk)"
proof -
  obtain header where header: "jl_header J token = Some header"
    using assms by (auto simp: key_for_def split: option.splits)
  obtain e pk1 where pk1: "refreshed_for J http now (map_of header (lit ''kid'')) pk = (e, pk1)" by fastforce
  have "e = None" "trusted now pk1" "pk' = pk1" "chosen_key (map_of header (lit ''kid'')) (pk_keys pk1) = Some k"
    using assms header pk1 by (auto simp: key_for_def Let_def split: option.splits if_splits)
  then show ?thesis
    using refreshed_for_fields [OF pk1] chosen_key_known
    by (auto simp: trusted_def split: option.splits if_splits)
qed

subsection \<open>How often the provider is asked\<close>

text \<open>An attempt to fetch is made at most once in a call and never soon after another.\<close>

definition attempt_step :: "real \<Rightarrow> 'k provider_keys \<Rightarrow> 'k provider_keys \<Rightarrow> bool" where
  "attempt_step now pk pk' \<longleftrightarrow> pk_attempted_at pk' = pk_attempted_at pk
     \<or> pk_attempted_at pk' = Some now
       \<and> (case pk_attempted_at pk of None \<Rightarrow> True | Some t \<Rightarrow> MIN_REFRESH_SECONDS \<le> now - t)"

lemma refresh_attempt: "attempt_step now pk (snd (refresh J http now pk))"
  by (auto simp: attempt_step_def refresh_def Let_def split: option.splits sum.splits fetch_error.splits)

lemma refresh_again:
  assumes "attempt_step now pk pk1"
  shows "attempt_step now pk (snd (refresh J http now pk1))"
proof (cases "pk_attempted_at pk1 = Some now")
  case True
  then show ?thesis using assms by (simp add: refresh_def MIN_REFRESH_SECONDS_def)
next
  case False
  then have "pk_attempted_at pk1 = pk_attempted_at pk" using assms by (auto simp: attempt_step_def)
  then show ?thesis using refresh_attempt [of now pk1 J http] by (simp add: attempt_step_def)
qed

lemma refresh_if_due_attempt: "attempt_step now pk (snd (refresh_if_due J http now pk))"
  using refresh_attempt [of now pk J http] by (auto simp: refresh_if_due_def attempt_step_def)

lemma refreshed_for_attempt: "attempt_step now pk (snd (refreshed_for J http now key_id pk))"
proof -
  obtain e1 pk1 where due: "refresh_if_due J http now pk = (e1, pk1)" by fastforce
  have "attempt_step now pk pk1" using refresh_if_due_attempt [of now pk J http] due by simp
  moreover have "snd (refreshed_for J http now key_id pk) \<in> {pk1, snd (refresh J http now pk1)}"
    using due by (auto simp: refreshed_for_def split: option.splits py_value.splits)
  ultimately show ?thesis using refresh_again by auto
qed

datatype key_call = KeyFor str | AskUsable

fun key_step :: "'k jwt_lib \<Rightarrow> http \<Rightarrow> real \<Rightarrow> 'k provider_keys \<Rightarrow> key_call \<Rightarrow> 'k provider_keys" where
  "key_step J http now pk (KeyFor token) = snd (key_for J http now pk token)"
| "key_step J http now pk AskUsable = snd (usable J http now pk)"

text \<open>The moments at which a history of calls went to the provider.\<close>

fun attempts :: "'k jwt_lib \<Rightarrow> (real \<times> http \<times> key_call) list \<Rightarrow> 'k provider_keys \<Rightarrow> real list" where
  "attempts J [] pk = []"
| "attempts J ((now, http, c) # cs) pk =
     (let pk' = key_step J http now pk c
      in (if pk_attempted_at pk' \<noteq> pk_attempted_at pk then [now] else []) @ attempts J cs pk')"

lemma key_step_attempt: "attempt_step now pk (key_step J http now pk c)"
proof (cases c)
  case (KeyFor token)
  have "snd (key_for J http now pk token) \<in> {pk} \<union> {snd (refreshed_for J http now key_id pk) | key_id. True}"
    by (cases "jl_header J token")
      (auto simp: key_for_def Let_def split: prod.splits option.splits, (metis snd_conv)+)
  moreover have "attempt_step now pk pk" by (simp add: attempt_step_def)
  ultimately show ?thesis using KeyFor refreshed_for_attempt [of now pk J http] by auto
next
  case AskUsable
  then show ?thesis
    using refresh_if_due_attempt [of now pk J http] by (auto simp: usable_def split: prod.splits option.splits)
qed

lemma attempts_spaced:
  assumes "sorted (map fst calls)"
  shows "sorted_wrt (\<lambda>a b. a + MIN_REFRESH_SECONDS \<le> b) (attempts J calls pk)
    \<and> (\<forall>a \<in> set (attempts J calls pk). (\<exists>x \<in> set calls. fst x = a)
        \<and> (\<forall>t. pk_attempted_at pk = Some t \<longrightarrow> t + MIN_REFRESH_SECONDS \<le> a))"
  using assms
proof (induction calls arbitrary: pk)
  case (Cons x cs)
  obtain now http c where x: "x = (now, http, c)" by (cases x)
  let ?pk = "key_step J http now pk c"
  note step = key_step_attempt [of now pk J http c]
  have IH: "sorted_wrt (\<lambda>a b. a + MIN_REFRESH_SECONDS \<le> b) (attempts J cs ?pk)"
    "\<forall>a \<in> set (attempts J cs ?pk). (\<exists>x \<in> set cs. fst x = a)
        \<and> (\<forall>t. pk_attempted_at ?pk = Some t \<longrightarrow> t + MIN_REFRESH_SECONDS \<le> a)"
    using Cons.IH [of ?pk] Cons.prems by simp_all
  show ?case
  proof (cases "pk_attempted_at ?pk = pk_attempted_at pk")
    case True
    then show ?thesis using IH x by (auto simp: Let_def)
  next
    case False
    then have at: "pk_attempted_at ?pk = Some now"
      "case pk_attempted_at pk of None \<Rightarrow> True | Some t \<Rightarrow> MIN_REFRESH_SECONDS \<le> now - t"
      using step by (auto simp: attempt_step_def)
    have "t + MIN_REFRESH_SECONDS \<le> now" if "pk_attempted_at pk = Some t" for t
      using at(2) that by simp
    moreover have "0 \<le> MIN_REFRESH_SECONDS" by (simp add: MIN_REFRESH_SECONDS_def)
    ultimately show ?thesis using IH x at(1) False by (fastforce simp: Let_def)
  qed
qed simp

section \<open>Claims\<close>

lemma verifying_key_origin:
  assumes "verifying_key J http now v token = (Inr key, v')"
  shows "case iv_provider v of
       None \<Rightarrow> \<exists>secret. iv_key v = Some secret \<and> key = Configured secret
     | Some pk \<Rightarrow> \<exists>pk' k t. iv_provider v' = Some pk' \<and> key = Published k \<and> k \<in> snd ` set (pk_keys pk')
         \<and> pk_fetched_at pk' = Some t \<and> now - t \<le> pk_cache_seconds pk + pk_max_stale_seconds pk"
    and "iv_algorithm v' = iv_algorithm v" "iv_issuer v' = iv_issuer v" "iv_audience v' = iv_audience v"
proof -
  show "case iv_provider v of
       None \<Rightarrow> \<exists>secret. iv_key v = Some secret \<and> key = Configured secret
     | Some pk \<Rightarrow> \<exists>pk' k t. iv_provider v' = Some pk' \<and> key = Published k \<and> k \<in> snd ` set (pk_keys pk')
         \<and> pk_fetched_at pk' = Some t \<and> now - t \<le> pk_cache_seconds pk + pk_max_stale_seconds pk"
  proof (cases "iv_provider v")
    case None
    then show ?thesis using assms by (auto simp: verifying_key_def split: option.splits)
  next
    case (Some pk)
    obtain k pk' where k: "key_for J http now pk token = (Inr k, pk')" "key = Published k" "v' = v\<lparr>iv_provider := Some pk'\<rparr>"
      using assms Some by (auto simp: verifying_key_def split: prod.splits sum.splits)
    then show ?thesis using key_for_result [OF k(1)] Some by auto
  qed
qed (use assms in \<open>auto simp: verifying_key_def split: option.splits prod.splits sum.splits\<close>)

lemma principal_from_claims:
  assumes "principal_from claims = Inr p"
  shows "map_of claims (lit ''sub'') = Some (PStr (pr_identity p)) \<and> pr_identity p \<noteq> []
      \<and> map_of claims (lit ''tenant'') = Some (PStr (pr_tenant_id p)) \<and> pr_tenant_id p \<noteq> []"
    and "map_of claims (lit ''clearance'') = None \<and> pr_clearance p = INTERNAL \<or> pr_clearance p = PUBLIC
      \<or> map_of claims (lit ''clearance'') = Some (PStr (classification_value (pr_clearance p)))"
    and "r \<in> pr_roles p \<Longrightarrow> \<exists>xs. map_of claims (lit ''roles'') = Some (PList xs) \<and> PStr (role_value r) \<in> set xs"
proof -
  show "map_of claims (lit ''sub'') = Some (PStr (pr_identity p)) \<and> pr_identity p \<noteq> []
      \<and> map_of claims (lit ''tenant'') = Some (PStr (pr_tenant_id p)) \<and> pr_tenant_id p \<noteq> []"
    using assms by (auto simp: principal_from_def split: option.splits py_value.splits if_splits sum.splits)
  show "map_of claims (lit ''clearance'') = None \<and> pr_clearance p = INTERNAL \<or> pr_clearance p = PUBLIC
      \<or> map_of claims (lit ''clearance'') = Some (PStr (classification_value (pr_clearance p)))"
    using assms by (auto simp: principal_from_def claimed_clearance_def classification_of_def
        split: option.splits py_value.splits if_splits sum.splits)
  assume held: "r \<in> pr_roles p"
  have roles: "claimed_roles (map_of claims (lit ''roles'')) = Inr (pr_roles p)"
    using assms by (auto simp: principal_from_def split: option.splits py_value.splits if_splits sum.splits)
  have "\<exists>xs t. map_of claims (lit ''roles'') = Some (PList xs) \<and> PStr t \<in> set xs \<and> role_of t = Some r"
    if "claimed_roles (map_of claims (lit ''roles'')) = Inr rs" "r \<in> rs" for rs
    using that by (auto simp: claimed_roles_def Let_def split: option.splits py_value.splits if_splits)
  from this [OF roles held] show "\<exists>xs. map_of claims (lit ''roles'') = Some (PList xs) \<and> PStr (role_value r) \<in> set xs"
    by (auto simp: role_of_def find_Some_iff)
qed

text \<open>
  C21: A principal is only what a trusted key signed. If a credential is turned into a principal,
  then its token decoded under the configured algorithm, issuer and audience, with the configured
  secret, or else with a key of the provider that was fetched no longer ago than the cache and
  staleness limits allow; and the principal's identity and tenant are the token's own non-empty
  claims, its roles all named there, and its clearance above the lowest only if the token says so
  or says nothing.
\<close>

theorem verified_principal_authentic:
  assumes "verify u J http now v credential = (Inr p, v')"
  shows "\<exists>token key claims. bearer_token u credential = Inr token
    \<and> jl_decode J token key (iv_algorithm v) (iv_issuer v) (iv_audience v) = Inr claims
    \<and> (case iv_provider v of
         None \<Rightarrow> \<exists>secret. iv_key v = Some secret \<and> key = Configured secret
       | Some pk \<Rightarrow> \<exists>pk' k t. iv_provider v' = Some pk' \<and> key = Published k \<and> k \<in> snd ` set (pk_keys pk')
           \<and> pk_fetched_at pk' = Some t \<and> now - t \<le> pk_cache_seconds pk + pk_max_stale_seconds pk)
    \<and> map_of claims (lit ''sub'') = Some (PStr (pr_identity p)) \<and> pr_identity p \<noteq> []
    \<and> map_of claims (lit ''tenant'') = Some (PStr (pr_tenant_id p)) \<and> pr_tenant_id p \<noteq> []
    \<and> (\<forall>r. r \<in> pr_roles p \<longrightarrow> (\<exists>xs. map_of claims (lit ''roles'') = Some (PList xs) \<and> PStr (role_value r) \<in> set xs))
    \<and> (map_of claims (lit ''clearance'') = None \<and> pr_clearance p = INTERNAL \<or> pr_clearance p = PUBLIC
       \<or> map_of claims (lit ''clearance'') = Some (PStr (classification_value (pr_clearance p))))"
proof -
  obtain token where token: "bearer_token u credential = Inr token"
    using assms by (auto simp: verify_def split: if_splits sum.splits)
  obtain key v1 where key: "verifying_key J http now v token = (Inr key, v1)"
    using assms token by (auto simp: verify_def split: if_splits sum.splits prod.splits)
  note origin = verifying_key_origin [OF key]
  obtain claims where claims: "jl_decode J token key (iv_algorithm v) (iv_issuer v) (iv_audience v) = Inr claims"
    and p: "principal_from claims = Inr p" and v1: "v' = v1"
    using assms token key origin(2-4) by (auto simp: verify_def decode_def split: if_splits sum.splits jwt_error.splits)
  show ?thesis using token claims principal_from_claims [OF p] origin(1) v1 by blast
qed


subsection \<open>Libraries to apply them on\<close>

text \<open>A library that takes every token, for one fixed set of claims, and keys that are numbers.\<close>

definition example_jwt :: "claims \<Rightarrow> nat jwt_lib" where
  "example_jwt claims = \<lparr>jl_header = (\<lambda>_. Some []), jl_decode = (\<lambda>_ _ _ _ _. Inr claims),
     jl_encode = (\<lambda>_ _ _. lit ''t''), jl_rsa_key = (\<lambda>_. Some 0), jl_str = (\<lambda>_. [])\<rparr>"

definition no_http :: http where "no_http url = None"

definition hmac_settings :: settings where
  "hmac_settings = default_settings\<lparr>jwt_secret := Some (lit ''k'')\<rparr>"

definition example_claims :: claims where
  "example_claims = issue_claims hmac_settings (lit ''ann'') (lit ''acme'') [REVIEWER] 300 0 RESTRICTED"

lemma bearer_token_ascii: "bearer_token ascii_db (Some (lit ''Bearer t'')) = Inr (lit ''t'')"
  by (simp add: bearer_token_def BEARER_PREFIX_def ascii_db_def ascii_lower_def lit_def strip_def rstrip_def)

lemma example_verified:
  "verify ascii_db (example_jwt example_claims) no_http 0 (new_verifier hmac_settings) (Some (lit ''Bearer t''))
    = (principal_from example_claims, new_verifier hmac_settings)"
  by (simp add: verify_def bearer_token_ascii new_verifier_def hmac_settings_def default_settings_def truthy_def
      verifying_key_def decode_def example_jwt_def)

lemma example_principal:
  "\<exists>p. principal_from example_claims = Inr p"
  by (simp add: principal_from_def example_claims_def issue_claims_def claimed_roles_def hashable_def
      claimed_clearance_def Let_def)

theorem verified_principal_authentic_witness:
  "\<exists>p. pr_identity p \<noteq> [] \<and> pr_tenant_id p \<noteq> []
    \<and> verify ascii_db (example_jwt example_claims) no_http 0 (new_verifier hmac_settings) (Some (lit ''Bearer t''))
        = (Inr p, new_verifier hmac_settings)"
proof -
  obtain p where "verify ascii_db (example_jwt example_claims) no_http 0 (new_verifier hmac_settings)
      (Some (lit ''Bearer t'')) = (Inr p, new_verifier hmac_settings)"
    using example_principal example_verified by auto
  from this verified_principal_authentic [OF this] show ?thesis by blast
qed

definition unreachable_provider :: "nat provider_keys" where
  "unreachable_provider = new_provider_keys (default_settings\<lparr>jwks_url := Some (lit ''https://idp/keys'')\<rparr>)"


text \<open>
  C23: A token the gateway issues for itself verifies as what it was issued for. For a library
  whose decoding gives back the claims it encoded under the same secret, algorithm, issuer and
  audience, a fresh token from \<^verbatim>\<open>issue_token\<close>, presented as a bearer credential, yields exactly the
  identity, tenant, roles and clearance it was issued with.
\<close>

theorem issued_token_verifies:
  assumes "issue_token J s identity tenant roles lifetime now clearance = Inr token"
    and "jl_decode J token (Configured (the (jwt_secret s))) (jwt_algorithm s) (jwt_issuer s) (jwt_audience s)
      = Inr (issue_claims s identity tenant roles lifetime now clearance)"
    and "bearer_token u (Some (lit ''Bearer '' @ token)) = Inr token"
    and "oidc_issuer s = None" and "jwks_url s = None" and "jwt_issuer s \<noteq> Some []"
    and "identity \<noteq> []" and "tenant \<noteq> []"
  shows "fst (verify u J http t (new_verifier s) (Some (lit ''Bearer '' @ token)))
    = Inr \<lparr>pr_identity = identity, pr_tenant_id = tenant, pr_roles = set roles, pr_clearance = clearance\<rparr>"
proof -
  let ?c = "issue_claims s identity tenant roles lifetime now clearance"
  obtain secret where secret: "jwt_secret s = Some secret"
    using assms(1) by (auto simp: issue_token_def split: option.splits)
  have claims: "map_of ?c (lit ''sub'') = Some (PStr identity)" "map_of ?c (lit ''tenant'') = Some (PStr tenant)"
    "map_of ?c (lit ''roles'') = Some (PList (map (PStr \<circ> role_value) roles))"
    "map_of ?c (lit ''clearance'') = Some (PStr (classification_value clearance))"
    by (simp_all add: issue_claims_def)
  have "role_of (role_value r) = Some r" for r by (cases r) (simp_all add: role_of_def all_roles_def)
  then have "claimed_roles (map_of ?c (lit ''roles'')) = Inr (set roles)"
    unfolding claims claimed_roles_def Let_def by (auto simp: list_all_iff hashable_def)
  moreover have "claimed_clearance (map_of ?c (lit ''clearance'')) = Inr clearance"
    unfolding claims claimed_clearance_def
    by (cases clearance) (simp_all add: hashable_def classification_of_def)
  ultimately have "principal_from ?c
      = Inr \<lparr>pr_identity = identity, pr_tenant_id = tenant, pr_roles = set roles, pr_clearance = clearance\<rparr>"
    using assms(7,8) claims by (simp add: principal_from_def)
  moreover have "str_or (jwt_issuer s) (oidc_issuer s) = jwt_issuer s"
    using assms(4,6) by (simp add: str_or_def)
  ultimately show ?thesis
    using assms(2-5) secret
    by (simp add: verify_def new_verifier_def truthy_def verifying_key_def decode_def)
qed

theorem issued_token_verifies_witness:
  "fst (verify ascii_db (example_jwt example_claims) no_http 0 (new_verifier hmac_settings)
      (Some (lit ''Bearer '' @ lit ''t'')))
    = Inr \<lparr>pr_identity = lit ''ann'', pr_tenant_id = lit ''acme'', pr_roles = set [REVIEWER], pr_clearance = RESTRICTED\<rparr>"
proof (rule issued_token_verifies)
  show "bearer_token ascii_db (Some (lit ''Bearer '' @ lit ''t'')) = Inr (lit ''t'')"
    using bearer_token_ascii by (simp add: lit_def)
qed (simp_all add: issue_token_def example_jwt_def example_claims_def hmac_settings_def default_settings_def)

text \<open>
  One malformed key set stops verification. Where a fetch is due, and none was tried within
  the refresh interval, a provider that answers with a key set one of whose entries is not an
  object, the ones before it being skipped, makes the verification that asks raise \<^verbatim>\<open>AttributeError\<close>, which
  is none of the exceptions the refresh expects; for that call the keys held before are of no use, however
  fresh the limits say they are.
\<close>

theorem malformed_key_set_escapes:
  assumes "pk_jwks_url pk = Some url" and "url \<noteq> []"
    and "http url = Some (PDict [(lit ''keys'', PList (skipped @ entry # rest))])"
    and "list_all (\<lambda>e. key_entry J e = Inr None) skipped" and "\<forall>kvs. entry \<noteq> PDict kvs"
    and "pk_attempted_at pk = None \<or> pk_attempted_at pk = Some tried \<and> tried + MIN_REFRESH_SECONDS \<le> now"
    and "pk_fetched_at pk = None \<or> pk_fetched_at pk = Some got \<and> got + pk_cache_seconds pk \<le> now"
    and "jl_header J token = Some header"
  shows "key_for J http now pk token = (Inl (Uncaught AttributeError), pk\<lparr>pk_attempted_at := Some now\<rparr>)"
proof -
  have "key_entry J entry = Inl (Escapes AttributeError)"
    using assms(5) by (cases entry) (simp_all add: key_entry_def dict_items_def raised_def)
  then have "key_entries J (skipped @ entry # rest) keys = Inl (Escapes AttributeError)" for keys
    using assms(4) by (induction skipped arbitrary: keys) simp_all
  then have "fetch J http (pk\<lparr>pk_attempted_at := Some now\<rparr>) = Inl (Escapes AttributeError)"
    using assms(1-3) by (simp add: fetch_def subscript_def iterated_def)
  moreover have "(case pk_attempted_at pk of None \<Rightarrow> False | Some t \<Rightarrow> now - t < MIN_REFRESH_SECONDS) = False"
    using assms(6) by auto
  ultimately have "refresh J http now pk = (Some AttributeError, pk\<lparr>pk_attempted_at := Some now\<rparr>)"
    by (simp add: refresh_def)
  then have "refresh_if_due J http now pk = (Some AttributeError, pk\<lparr>pk_attempted_at := Some now\<rparr>)"
    using assms(7) by (auto simp: refresh_if_due_def)
  then show ?thesis using assms(8) by (simp add: key_for_def refreshed_for_def)
qed

theorem malformed_key_set_escapes_witness:
  "key_for (example_jwt []) (\<lambda>_. Some (PDict [(lit ''keys'', PList ([] @ PStr (lit ''rsa'') # []))])) 5000
      (unreachable_provider\<lparr>pk_keys := [(lit ''k1'', 7)], pk_fetched_at := Some 4000, pk_attempted_at := Some 4000\<rparr>)
      (lit ''t'')
    = (Inl (Uncaught AttributeError), unreachable_provider\<lparr>pk_keys := [(lit ''k1'', 7)],
        pk_fetched_at := Some 4000, pk_attempted_at := Some 4000, pk_attempted_at := Some 5000\<rparr>)"
  by (rule malformed_key_set_escapes [where tried = 4000 and got = 4000 and skipped = "[]"
      and entry = "PStr (lit ''rsa'')" and rest = "[]" and url = "lit ''https://idp/keys''"])
    (simp_all add: unreachable_provider_def new_provider_keys_def default_settings_def example_jwt_def
      MIN_REFRESH_SECONDS_def)

text \<open>
  A signed token can raise past the verifier. Where the claims name a subject and a tenant, a
  clearance that is a JSON list or object, or a list of roles that contains one, raises
  \<^verbatim>\<open>TypeError\<close>, which is no refusal of the credential, instead of granting the least.
\<close>

theorem structured_claims_escape:
  assumes "map_of claims (lit ''sub'') = Some (PStr subject)" and "subject \<noteq> []"
    and "map_of claims (lit ''tenant'') = Some (PStr tenant)" and "tenant \<noteq> []"
    and "map_of claims (lit ''clearance'') = Some c \<and> \<not> hashable c
      \<or> map_of claims (lit ''roles'') = Some (PList xs) \<and> \<not> list_all hashable xs"
  shows "principal_from claims = Inl (Uncaught TypeError)"
proof (cases "claimed_roles (map_of claims (lit ''roles''))")
  case (Inl e)
  then have "e = TypeError" by (auto simp: claimed_roles_def Let_def split: if_splits)
  then show ?thesis using assms(1-4) Inl by (simp add: principal_from_def)
next
  case (Inr rs)
  then have "map_of claims (lit ''clearance'') = Some c" "\<not> hashable c"
    using assms(5) by (auto simp: claimed_roles_def Let_def split: if_splits)
  then show ?thesis using assms(1-4) Inr by (simp add: principal_from_def claimed_clearance_def)
qed

theorem structured_claims_escape_witness:
  "principal_from [(lit ''sub'', PStr (lit ''ann'')), (lit ''tenant'', PStr (lit ''acme'')), (lit ''clearance'', PList [])]
    = Inl (Uncaught TypeError)"
  by (rule structured_claims_escape [where c = "PList []" and xs = "[]"
      and subject = "lit ''ann''" and tenant = "lit ''acme''"]) (simp_all add: hashable_def)

end
