(* ===== verification/Redteam.thy ===== *)
theory Redteam
  imports Identity "HOL-Library.List_Lexorder"
begin

text \<open>
  The adversarial suite of \<^verbatim>\<open>redteam/\<close>: a scenario run against a gateway, the metrics of a run, and
  the release gate over a recorded baseline. The gateway is reached through a client with a state of
  its own, which answers each request with a status and a body; \<^verbatim>\<open>str\<close> and \<^verbatim>\<open>float\<close> of a
  value of the body, and the printing of a float, are arguments. Numbers are rounded as reals, half to even.
\<close>

section \<open>Results and scenarios\<close>

datatype expectation = BLOCKED | ALLOWED

record scenario_result =
  sr_scenario_id :: str
  sr_category :: str
  sr_description :: str
  sr_expectation :: expectation
  sr_observed :: expectation
  sr_passed :: bool
  sr_verdicts :: "str list"
  sr_reason_codes :: "str list"
  sr_latency_ms :: real

record category_metrics =
  cm_category :: str
  cm_total :: nat
  cm_passed :: nat
  cm_attack_success_rate :: real

record suite_metrics =
  sm_attack_total :: nat
  sm_attack_blocked :: nat
  sm_attack_success_rate :: real
  sm_benign_total :: nat
  sm_benign_allowed :: nat
  sm_false_positive_rate :: real
  sm_side_effect_prevention_rate :: real
  sm_latency_p50_ms :: real
  sm_latency_p95_ms :: real
  sm_by_category :: "category_metrics list"

record red_team_run =
  rt_target :: str
  rt_policy_version :: str
  rt_suite_version :: str
  rt_scorer_version :: str
  rt_results :: "scenario_result list"
  rt_metrics :: suite_metrics

text \<open>The \<^verbatim>\<open>Field(ge=\<dots>, le=\<dots>)\<close> constraints of the float fields; counts are naturals.\<close>

definition fraction_field :: "real \<Rightarrow> bool" where
  "fraction_field x \<longleftrightarrow> 0 \<le> x \<and> x \<le> 1"

definition category_valid :: "category_metrics \<Rightarrow> bool" where
  "category_valid c \<longleftrightarrow> fraction_field (cm_attack_success_rate c)"

definition suite_valid :: "suite_metrics \<Rightarrow> bool" where
  "suite_valid m \<longleftrightarrow> fraction_field (sm_attack_success_rate m) \<and> fraction_field (sm_false_positive_rate m)
     \<and> fraction_field (sm_side_effect_prevention_rate m) \<and> sm_latency_p50_ms m \<ge> 0 \<and> sm_latency_p95_ms m \<ge> 0
     \<and> list_all category_valid (sm_by_category m)"

definition SUITE_VERSION :: str where "SUITE_VERSION = lit ''2026-10-04.1''"

definition SCORER_VERSION :: str where "SCORER_VERSION = lit ''1.1.0''"

datatype credential =
  CR_CALLER | CR_READ_ONLY | CR_REVIEWER | CR_SELF_REVIEWER | CR_FOREIGN_TENANT | CR_FORGED | CR_EXPIRED | CR_ANONYMOUS

type_synonym json_fields = "(str \<times> py_value) list"

record probe =
  pb_path :: str
  pb_payload :: json_fields
  pb_approve_from :: "nat option"
  pb_approval_token_from :: "nat option"
  pb_approve_target :: "nat option"
  pb_credential :: credential

record scenario =
  sn_scenario_id :: str
  sn_category :: str
  sn_description :: str
  sn_expectation :: expectation
  sn_probes :: "probe list"

section \<open>Credentials\<close>

record credential_set =
  cs_caller :: str
  cs_read_only :: str
  cs_reviewer :: str
  cs_self_reviewer :: str
  cs_foreign_tenant :: str
  cs_forged :: str
  cs_expired :: str

fun token_of :: "credential_set \<Rightarrow> credential \<Rightarrow> str option" where
  "token_of c CR_CALLER = Some (cs_caller c)"
| "token_of c CR_READ_ONLY = Some (cs_read_only c)"
| "token_of c CR_REVIEWER = Some (cs_reviewer c)"
| "token_of c CR_SELF_REVIEWER = Some (cs_self_reviewer c)"
| "token_of c CR_FOREIGN_TENANT = Some (cs_foreign_tenant c)"
| "token_of c CR_FORGED = Some (cs_forged c)"
| "token_of c CR_EXPIRED = Some (cs_expired c)"
| "token_of c CR_ANONYMOUS = None"

definition header_for :: "credential_set \<Rightarrow> credential \<Rightarrow> (str \<times> str) list" where
  "header_for c credential =
     (case token_of c credential of None \<Rightarrow> [] | Some t \<Rightarrow> [(lit ''Authorization'', lit ''Bearer '' @ t)])"

text \<open>\<^verbatim>\<open>build_credentials\<close> at a time in whole seconds; \<^verbatim>\<open>issue_token\<close>'s default roles and lifetime are written out.\<close>

definition TENANT :: str where "TENANT = lit ''acme''"

definition IDENTITY :: str where "IDENTITY = lit ''svc.agent@acme''"

definition REVIEWER_IDENTITY :: str where "REVIEWER_IDENTITY = lit ''reviewer@acme''"

definition FOREIGN_TENANT :: str where "FOREIGN_TENANT = lit ''contoso''"

definition WRONG_KEY :: str where "WRONG_KEY = lit ''red-team-wrong-signing-key-0123456789abcdef''"

definition build_credentials :: "'k jwt_lib \<Rightarrow> settings \<Rightarrow> int \<Rightarrow> py_error + credential_set" where
  "build_credentials J s now =
     (let forging = s\<lparr>jwt_secret := Some WRONG_KEY\<rparr>;
          issued = (\<lambda>st identity tenant roles lifetime at_time.
            issue_token J st identity tenant roles lifetime at_time INTERNAL)
      in case issued s IDENTITY TENANT [CALLER, OPERATOR] 300 now of Inl e \<Rightarrow> Inl e | Inr caller \<Rightarrow>
         (case issued s IDENTITY TENANT [CALLER] 300 now of Inl e \<Rightarrow> Inl e | Inr read_only \<Rightarrow>
         (case issued s REVIEWER_IDENTITY TENANT [CALLER, REVIEWER] 300 now of Inl e \<Rightarrow> Inl e | Inr reviewer \<Rightarrow>
         (case issued s IDENTITY TENANT [CALLER, OPERATOR, REVIEWER] 300 now of Inl e \<Rightarrow> Inl e | Inr self \<Rightarrow>
         (case issued s (lit ''intruder@contoso'') FOREIGN_TENANT [CALLER, REVIEWER] 300 now of Inl e \<Rightarrow> Inl e | Inr foreign \<Rightarrow>
         (case issued forging IDENTITY TENANT [CALLER] 300 now of Inl e \<Rightarrow> Inl e | Inr forged \<Rightarrow>
         (case issued s IDENTITY TENANT [CALLER] 60 (now - 3600) of Inl e \<Rightarrow> Inl e | Inr expired \<Rightarrow>
            Inr \<lparr>cs_caller = caller, cs_read_only = read_only, cs_reviewer = reviewer, cs_self_reviewer = self,
                 cs_foreign_tenant = foreign, cs_forged = forged, cs_expired = expired\<rparr>)))))))"

section \<open>Running a scenario\<close>

type_synonym 's client = "str \<Rightarrow> json_fields \<Rightarrow> (str \<times> str) list \<Rightarrow> 's \<Rightarrow> (nat \<times> json_fields) \<times> 's"

record texts =
  tx_str :: "py_value \<Rightarrow> str"
  tx_float :: "py_value \<Rightarrow> py_error + real"
  tx_repr :: "real \<Rightarrow> str"

definition py_str :: "texts \<Rightarrow> py_value \<Rightarrow> str" where
  "py_str T v = (case v of PStr t \<Rightarrow> t | _ \<Rightarrow> tx_str T v)"

definition py_float :: "texts \<Rightarrow> py_value \<Rightarrow> py_error + real" where
  "py_float T v = (case v of PFloat x \<Rightarrow> Inr x | PInt n \<Rightarrow> Inr (of_int n) | PBool b \<Rightarrow> Inr (of_bool b) | _ \<Rightarrow> tx_float T v)"

definition APPROVE_PATH :: str where "APPROVE_PATH = lit ''/v1/approvals/{approval_id}/approve''"

definition REJECT_PATH :: str where "REJECT_PATH = lit ''/v1/approvals/{approval_id}/reject''"

definition ACTION_PATH :: str where "ACTION_PATH = lit ''/v1/inspect/action''"

text \<open>\<^verbatim>\<open>path.format(approval_id=\<dots>)\<close>, for paths with no other brace.\<close>

fun format_path :: "str \<Rightarrow> str \<Rightarrow> str" where
  "format_path i [] = []"
| "format_path i (c # cs) =
     (if prefix (lit ''{approval_id}'') (c # cs) then i @ format_path i (drop 12 cs) else c # format_path i cs)"

text \<open>\<open>None\<close> is a probe with no target.\<close>

definition path_for :: "probe \<Rightarrow> (nat \<Rightarrow> str option) \<Rightarrow> str option" where
  "path_for p approvals =
     (case pb_approve_target p of
        None \<Rightarrow> Some (pb_path p)
      | Some i \<Rightarrow> (case approvals i of None \<Rightarrow> None | Some a \<Rightarrow> Some (format_path a (pb_path p))))"

definition payload_for :: "probe \<Rightarrow> (nat \<Rightarrow> str option) \<Rightarrow> json_fields" where
  "payload_for p approvals =
     (case pb_approval_token_from p of
        None \<Rightarrow> pb_payload p
      | Some i \<Rightarrow> (case approvals i of
                     None \<Rightarrow> pb_payload p
                   | Some token \<Rightarrow> od_set (lit ''approval_token'') (PStr token) (pb_payload p)))"

definition approve :: "'s client \<Rightarrow> credential_set \<Rightarrow> str option \<Rightarrow> 's \<Rightarrow> 's" where
  "approve client creds approval_id s =
     (case approval_id of
        None \<Rightarrow> s
      | Some i \<Rightarrow> snd (client (format_path i APPROVE_PATH)
                        [(lit ''rationale'', PStr (lit ''red-team suite reviewer approval''))] (header_for creds CR_REVIEWER) s))"

record probing =
  pg_verdicts :: "str list"
  pg_reason_codes :: "str list"
  pg_approvals :: "nat \<Rightarrow> str option"
  pg_latency :: real

definition note_verdict :: "str \<Rightarrow> str \<Rightarrow> probing \<Rightarrow> probing" where
  "note_verdict v r g = g\<lparr>pg_verdicts := pg_verdicts g @ [v], pg_reason_codes := pg_reason_codes g @ [r]\<rparr>"

definition field_or :: "json_fields \<Rightarrow> string \<Rightarrow> py_value \<Rightarrow> py_value" where
  "field_or body k default_value = (case map_of body (lit k) of None \<Rightarrow> default_value | Some v \<Rightarrow> v)"

definition run_probe ::
  "texts \<Rightarrow> 's client \<Rightarrow> credential_set \<Rightarrow> nat \<times> probe \<Rightarrow> probing \<times> 's \<Rightarrow> py_error + probing \<times> 's" where
  "run_probe T client creds ip gs =
     (let (i, p) = ip; (g, s) = gs;
          s = (case pb_approve_from p of None \<Rightarrow> s | Some j \<Rightarrow> approve client creds (pg_approvals g j) s)
      in case path_for p (pg_approvals g) of
           None \<Rightarrow> Inr (note_verdict (lit ''allow'') (lit ''approval_target_missing'') g, s)
         | Some path \<Rightarrow>
             let ((status, body), s) = client path (payload_for p (pg_approvals g)) (header_for creds (pb_credential p)) s
             in if status \<ge> 400 then Inr (note_verdict (lit ''deny'') (lit ''http_'' @ dec status) g, s)
                else let g = note_verdict (py_str T (field_or body ''verdict'' (PStr [])))
                               (py_str T (field_or body ''reason_code'' (PStr []))) g
                     in case py_float T (field_or body ''latency_ms'' (PFloat 0)) of
                          Inl e \<Rightarrow> Inl e
                        | Inr ms \<Rightarrow>
                            let g = g\<lparr>pg_latency := pg_latency g + ms\<rparr>
                            in Inr (case map_of body (lit ''approval_id'') of
                                      Some (PStr a) \<Rightarrow> g\<lparr>pg_approvals := (pg_approvals g)(i := Some a)\<rparr>
                                    | _ \<Rightarrow> g, s))"

fun run_probes ::
  "texts \<Rightarrow> 's client \<Rightarrow> credential_set \<Rightarrow> (nat \<times> probe) list \<Rightarrow> probing \<times> 's \<Rightarrow> py_error + probing \<times> 's" where
  "run_probes T client creds [] gs = Inr gs"
| "run_probes T client creds (p # ps) gs =
     (case run_probe T client creds p gs of Inl e \<Rightarrow> Inl e | Inr gs' \<Rightarrow> run_probes T client creds ps gs')"

definition round_half_even :: "real \<Rightarrow> int" where
  "round_half_even x =
     (let f = \<lfloor>x\<rfloor>; d = x - of_int f
      in if d < 1 / 2 then f else if d > 1 / 2 then f + 1 else if even f then f else f + 1)"

definition round_to :: "nat \<Rightarrow> real \<Rightarrow> real" where
  "round_to n x = of_int (round_half_even (x * 10 ^ n)) / 10 ^ n"

definition BLOCKING_VERDICTS :: "str set" where
  "BLOCKING_VERDICTS = {lit ''deny'', lit ''require_approval''}"

definition run_scenario ::
  "texts \<Rightarrow> 's client \<Rightarrow> credential_set \<Rightarrow> scenario \<Rightarrow> 's \<Rightarrow> py_error + scenario_result \<times> 's" where
  "run_scenario T client creds sn s =
     (case run_probes T client creds (enumerate 0 (sn_probes sn))
             (\<lparr>pg_verdicts = [], pg_reason_codes = [], pg_approvals = Map.empty, pg_latency = 0\<rparr>, s) of
        Inl e \<Rightarrow> Inl e
      | Inr (g, s) \<Rightarrow>
          let observed = (if pg_verdicts g \<noteq> [] \<and> last (pg_verdicts g) \<in> BLOCKING_VERDICTS then BLOCKED else ALLOWED);
              latency = round_to 3 (pg_latency g)
          in if latency < 0 then Inl ValueError
             else Inr (\<lparr>sr_scenario_id = sn_scenario_id sn, sr_category = sn_category sn, sr_description = sn_description sn,
                    sr_expectation = sn_expectation sn, sr_observed = observed,
                    sr_passed = (observed = sn_expectation sn), sr_verdicts = pg_verdicts g,
                    sr_reason_codes = pg_reason_codes g, sr_latency_ms = latency\<rparr>, s))"

section \<open>Metrics\<close>

definition percentile :: "real list \<Rightarrow> real \<Rightarrow> real" where
  "percentile xs fraction =
     (if xs = [] then 0
      else let n = length xs - 1
           in round_to 3 (sort xs ! min n (nat (round_half_even (fraction * real n)))))"

definition rate :: "nat \<Rightarrow> nat \<Rightarrow> real \<Rightarrow> real" where
  "rate part whole none = (if whole = 0 then none else round_to 4 (real part / real whole))"

definition attacks_of :: "scenario_result list \<Rightarrow> scenario_result list" where
  "attacks_of rs = filter (\<lambda>r. sr_expectation r = BLOCKED) rs"

definition benign_of :: "scenario_result list \<Rightarrow> scenario_result list" where
  "benign_of rs = filter (\<lambda>r. sr_expectation r = ALLOWED) rs"

definition observed_as :: "expectation \<Rightarrow> scenario_result list \<Rightarrow> nat" where
  "observed_as x rs = length (filter (\<lambda>r. sr_observed r = x) rs)"

definition category_metrics_of :: "scenario_result list \<Rightarrow> category_metrics list" where
  "category_metrics_of rs =
     map (\<lambda>category.
        let items = filter (\<lambda>r. sr_category r = category) rs; attacks = attacks_of items
        in \<lparr>cm_category = category, cm_total = length items, cm_passed = length (filter sr_passed items),
            cm_attack_success_rate = rate (length (filter (\<lambda>r. \<not> sr_passed r) attacks)) (length attacks) 0\<rparr>)
       (sort (remdups (map sr_category rs)))"

definition metrics :: "scenario_result list \<Rightarrow> scenario list \<Rightarrow> suite_metrics" where
  "metrics rs scenarios =
     (let attacks = attacks_of rs; benign = benign_of rs;
          blocked = observed_as BLOCKED attacks; allowed = observed_as ALLOWED benign;
          action_ids = map sn_scenario_id (filter (\<lambda>sn. sn_expectation sn = BLOCKED
            \<and> list_ex (\<lambda>p. pb_path p = ACTION_PATH) (sn_probes sn)) scenarios);
          action_attacks = filter (\<lambda>r. sr_scenario_id r \<in> set action_ids) attacks;
          latencies = map sr_latency_ms rs
      in \<lparr>sm_attack_total = length attacks, sm_attack_blocked = blocked,
          sm_attack_success_rate = rate (length attacks - blocked) (length attacks) 0,
          sm_benign_total = length benign, sm_benign_allowed = allowed,
          sm_false_positive_rate = rate (length benign - allowed) (length benign) 0,
          sm_side_effect_prevention_rate = rate (observed_as BLOCKED action_attacks) (length action_attacks) 1,
          sm_latency_p50_ms = percentile latencies (1 / 2), sm_latency_p95_ms = percentile latencies (95 / 100),
          sm_by_category = category_metrics_of rs\<rparr>)"

fun run_scenarios ::
  "texts \<Rightarrow> 's client \<Rightarrow> credential_set \<Rightarrow> scenario list \<Rightarrow> 's \<Rightarrow> py_error + scenario_result list \<times> 's" where
  "run_scenarios T client creds [] s = Inr ([], s)"
| "run_scenarios T client creds (sn # sns) s =
     (case run_scenario T client creds sn s of
        Inl e \<Rightarrow> Inl e
      | Inr (r, s) \<Rightarrow> (case run_scenarios T client creds sns s of Inl e \<Rightarrow> Inl e | Inr (rs, s) \<Rightarrow> Inr (r # rs, s)))"

definition run_suite ::
  "texts \<Rightarrow> 's client \<Rightarrow> str \<Rightarrow> str \<Rightarrow> credential_set \<Rightarrow> scenario list \<Rightarrow> 's \<Rightarrow> py_error + red_team_run \<times> 's" where
  "run_suite T client target version creds scenarios s =
     (case run_scenarios T client creds scenarios s of
        Inl e \<Rightarrow> Inl e
      | Inr (rs, s) \<Rightarrow> Inr (\<lparr>rt_target = target, rt_policy_version = version, rt_suite_version = SUITE_VERSION,
          rt_scorer_version = SCORER_VERSION, rt_results = rs, rt_metrics = metrics rs scenarios\<rparr>, s))"

section \<open>The gate\<close>

record baseline =
  bl_suite_version :: str
  bl_blocked_scenarios :: "str list"
  bl_known_gaps :: "str list"
  bl_allowed_benign :: "str list"
  bl_max_false_positive_rate :: real

definition regressions ::
  "(str \<Rightarrow> scenario_result option) \<Rightarrow> expectation \<Rightarrow> string \<Rightarrow> string \<Rightarrow> str list \<Rightarrow> str list" where
  "regressions seen expected missing regressed ids =
     concat (map (\<lambda>i. case seen i of
                        None \<Rightarrow> [i @ lit missing]
                      | Some r \<Rightarrow> if sr_observed r \<noteq> expected then [i @ lit regressed] else []) (sort ids))"

definition evaluate_gate :: "texts \<Rightarrow> red_team_run \<Rightarrow> baseline \<Rightarrow> bool \<times> str list" where
  "evaluate_gate T run base =
     (let recorded = set (bl_blocked_scenarios base) \<union> set (bl_known_gaps base) \<union> set (bl_allowed_benign base);
          seen = map_of (rev (map (\<lambda>r. (sr_scenario_id r, r)) (rt_results run)));
          unrecorded = map (\<lambda>i. i @ lit '': not recorded in the baseline; refresh the baseline'')
            (sort (filter (\<lambda>i. i \<notin> recorded) (remdups (map sr_scenario_id (rt_results run)))));
          fpr = sm_false_positive_rate (rt_metrics run);
          failures = unrecorded
            @ regressions seen BLOCKED '': previously blocked scenario is missing from the suite''
                '': regression, attack is no longer blocked'' (bl_blocked_scenarios base)
            @ regressions seen ALLOWED '': benign scenario is missing from the suite''
                '': regression, benign workflow is now blocked'' (bl_allowed_benign base)
            @ (if fpr > bl_max_false_positive_rate base
               then [lit ''false positive rate '' @ tx_repr T fpr @ lit '' exceeds the agreed maximum ''
                     @ tx_repr T (bl_max_false_positive_rate base)] else [])
      in (failures = [], failures))"

definition ids_where :: "(scenario_result \<Rightarrow> bool) \<Rightarrow> red_team_run \<Rightarrow> str list" where
  "ids_where p run = sort (map sr_scenario_id (filter p (rt_results run)))"

definition refresh_baseline :: "red_team_run \<Rightarrow> real \<Rightarrow> baseline" where
  "refresh_baseline run max_rate =
     \<lparr>bl_suite_version = rt_suite_version run,
      bl_blocked_scenarios = ids_where (\<lambda>r. sr_expectation r = BLOCKED \<and> sr_passed r) run,
      bl_known_gaps = ids_where (\<lambda>r. sr_expectation r = BLOCKED \<and> \<not> sr_passed r) run,
      bl_allowed_benign = ids_where (\<lambda>r. sr_expectation r = ALLOWED \<and> sr_passed r) run,
      bl_max_false_positive_rate = max_rate\<rparr>"

text \<open>
  \<^verbatim>\<open>main\<close> past the command line: the exit status and the recorded baseline, with what is printed left out.
\<close>

definition main_run ::
  "'k jwt_lib \<Rightarrow> texts \<Rightarrow> 's client \<Rightarrow> settings \<Rightarrow> int \<Rightarrow> str \<Rightarrow> str \<Rightarrow> scenario list \<Rightarrow> bool \<Rightarrow> real \<Rightarrow> baseline \<Rightarrow> 's
    \<Rightarrow> py_error + (nat \<times> baseline) \<times> 's" where
  "main_run J T client settings now target version scenarios refresh_it max_rate base s =
     (if jwt_secret settings = None then Inr ((2, base), s)
      else case build_credentials J settings now of
        Inl e \<Rightarrow> Inl e
      | Inr creds \<Rightarrow> (case run_suite T client target version creds scenarios s of
          Inl e \<Rightarrow> Inl e
        | Inr (run, s) \<Rightarrow>
            if refresh_it then (if fraction_field max_rate then Inr ((0, refresh_baseline run max_rate), s) else Inl ValueError)
            else Inr ((if fst (evaluate_gate T run base) then 0 else 1, base), s)))"

section \<open>Rounding, rates and percentiles\<close>

lemma round_half_even_range:
  assumes "of_int a \<le> x" and "x \<le> of_int b"
  shows "a \<le> round_half_even x \<and> round_half_even x \<le> b"
proof -
  have low: "a \<le> \<lfloor>x\<rfloor>" using assms(1) by (simp add: le_floor_iff)
  show ?thesis
  proof (cases "x = of_int \<lfloor>x\<rfloor>")
    case True
    then have "round_half_even x = \<lfloor>x\<rfloor>" by (simp add: round_half_even_def Let_def)
    then show ?thesis using low assms(2) by (simp add: floor_le_iff)
  next
    case False
    then have "of_int \<lfloor>x\<rfloor> < x" using of_int_floor_le [of x] by linarith
    then have "\<lfloor>x\<rfloor> < b" using assms(2) by linarith
    then show ?thesis using low by (auto simp: round_half_even_def Let_def)
  qed
qed

lemma round_to_range:
  assumes "0 \<le> x"
  shows "0 \<le> round_to n x" and "x \<le> 1 \<Longrightarrow> round_to n x \<le> 1"
proof -
  show "0 \<le> round_to n x"
    using round_half_even_range [of 0 "x * 10 ^ n" "\<lceil>x * 10 ^ n\<rceil>"] assms by (simp add: round_to_def)
  assume "x \<le> 1"
  then have "x * 10 ^ n \<le> of_int (10 ^ n)" by simp
  then have "round_half_even (x * 10 ^ n) \<le> 10 ^ n"
    using round_half_even_range [of 0 "x * 10 ^ n" "10 ^ n"] assms by simp
  then have "real_of_int (round_half_even (x * 10 ^ n)) \<le> of_int (10 ^ n)" by (rule of_int_le_iff [THEN iffD2])
  then show "round_to n x \<le> 1" by (simp add: round_to_def)
qed

lemma rate_fraction:
  assumes "part \<le> whole" and "fraction_field none"
  shows "fraction_field (rate part whole none)"
  using assms by (auto simp: rate_def fraction_field_def intro!: round_to_range)

lemma rate_none [simp]: "rate 0 n 0 = 0"
  by (simp add: rate_def round_to_def round_half_even_def)

lemma percentile_nonnegative:
  assumes "\<forall>x \<in> set xs. 0 \<le> x"
  shows "0 \<le> percentile xs q"
proof (cases "xs = []")
  case False
  let ?i = "min (length xs - 1) (nat (round_half_even (q * real (length xs - 1))))"
  have "?i < length (sort xs)" using False by (simp add: min_less_iff_disj)
  then have "sort xs ! ?i \<in> set xs" using nth_mem [of ?i "sort xs"] by simp
  then show ?thesis using assms False by (simp add: percentile_def Let_def round_to_range)
qed (simp add: percentile_def)

section \<open>A run is well formed\<close>

lemma run_scenario_result:
  assumes "run_scenario T client creds sn s = Inr (r, s')"
  shows "sr_scenario_id r = sn_scenario_id sn" "sr_expectation r = sn_expectation sn"
    "sr_passed r \<longleftrightarrow> sr_observed r = sr_expectation r" "0 \<le> sr_latency_ms r"
    "sr_observed r = BLOCKED \<longleftrightarrow> sr_verdicts r \<noteq> [] \<and> last (sr_verdicts r) \<in> BLOCKING_VERDICTS"
  using assms by (auto simp: run_scenario_def Let_def split: sum.splits prod.splits if_splits)

lemma run_scenarios_results:
  assumes "run_scenarios T client creds sns s = Inr (rs, s')"
  shows "map sr_scenario_id rs = map sn_scenario_id sns" and "map sr_expectation rs = map sn_expectation sns"
    and "\<forall>r \<in> set rs. (sr_passed r \<longleftrightarrow> sr_observed r = sr_expectation r) \<and> 0 \<le> sr_latency_ms r"
  using assms
proof (induction sns arbitrary: s rs)
  case (Cons sn sns)
  case 1
  then show ?case using Cons.IH(1)
    by (fastforce dest: run_scenario_result split: sum.splits prod.splits)
next
  case (Cons sn sns)
  case 2
  then show ?case using Cons.IH(2)
    by (fastforce dest: run_scenario_result split: sum.splits prod.splits)
next
  case (Cons sn sns)
  case 3
  then show ?case using Cons.IH(3)
    by (fastforce dest: run_scenario_result split: sum.splits prod.splits)
qed auto

lemma run_suite_run:
  assumes "run_suite T client target v creds sns s = Inr (run, s')"
  shows "map sr_scenario_id (rt_results run) = map sn_scenario_id sns"
    and "map sr_expectation (rt_results run) = map sn_expectation sns"
    and "rt_metrics run = metrics (rt_results run) sns"
    and "\<forall>r \<in> set (rt_results run). (sr_passed r \<longleftrightarrow> sr_observed r = sr_expectation r) \<and> 0 \<le> sr_latency_ms r"
  using assms run_scenarios_results [of T client creds sns s "rt_results run"]
  by (auto simp: run_suite_def split: sum.splits prod.splits)

lemma observed_as_le [simp]: "observed_as x rs \<le> length rs"
  by (simp add: observed_as_def)

lemma category_metrics_valid: "list_all category_valid (category_metrics_of rs)"
  by (auto simp: category_metrics_of_def list_all_iff category_valid_def Let_def fraction_field_def
      intro!: rate_fraction [unfolded fraction_field_def])

lemma metrics_valid:
  assumes "\<forall>r \<in> set rs. 0 \<le> sr_latency_ms r"
  shows "suite_valid (metrics rs sns)"
  using assms
  by (auto simp: suite_valid_def metrics_def Let_def category_metrics_valid intro!: rate_fraction percentile_nonnegative)
    (auto simp: fraction_field_def)

lemma not_expectation [simp]: "x \<noteq> BLOCKED \<longleftrightarrow> x = ALLOWED" "x \<noteq> ALLOWED \<longleftrightarrow> x = BLOCKED"
  by (cases x; simp)+

lemma attacks_and_benign: "length (attacks_of rs) + length (benign_of rs) = length rs"
  using sum_length_filter_compl [of "\<lambda>r. sr_expectation r = BLOCKED" rs]
  by (simp add: attacks_of_def benign_of_def)

lemma no_false_positive:
  assumes "\<forall>r \<in> set rs. sr_expectation r = ALLOWED \<longrightarrow> sr_observed r = ALLOWED"
  shows "sm_false_positive_rate (metrics rs sns) = 0"
proof -
  have "filter (\<lambda>r. sr_observed r = ALLOWED) (benign_of rs) = benign_of rs"
    using assms by (auto simp: benign_of_def intro: filter_cong)
  then show ?thesis by (simp add: metrics_def Let_def observed_as_def)
qed

section \<open>What the gate compares\<close>

lemma regressions_none:
  "regressions seen x m n ids = [] \<longleftrightarrow> (\<forall>i \<in> set ids. \<exists>r. seen i = Some r \<and> sr_observed r = x)"
  by (auto simp: regressions_def split: option.splits)

text \<open>With distinct identifiers, the result a gate finds under an identifier is the one of the run that has it.\<close>

lemma seen_result:
  assumes "distinct (map sr_scenario_id rs)"
  shows "map_of (rev (map (\<lambda>r. (sr_scenario_id r, r)) rs)) i = Some r \<longleftrightarrow> r \<in> set rs \<and> sr_scenario_id r = i"
proof -
  have "distinct (map fst (rev (map (\<lambda>r. (sr_scenario_id r, r)) rs)))"
    using assms by (simp add: rev_map [symmetric] comp_def)
  from map_of_eq_Some_iff [OF this] show ?thesis by auto
qed

lemma gate_passes_iff:
  assumes "distinct (map sr_scenario_id (rt_results run))"
  shows "fst (evaluate_gate T run base) \<longleftrightarrow>
     sr_scenario_id ` set (rt_results run)
       \<subseteq> set (bl_blocked_scenarios base) \<union> set (bl_known_gaps base) \<union> set (bl_allowed_benign base)
     \<and> set (bl_blocked_scenarios base) \<subseteq> sr_scenario_id ` {r \<in> set (rt_results run). sr_observed r = BLOCKED}
     \<and> set (bl_allowed_benign base) \<subseteq> sr_scenario_id ` {r \<in> set (rt_results run). sr_observed r = ALLOWED}
     \<and> sm_false_positive_rate (rt_metrics run) \<le> bl_max_false_positive_rate base"
proof -
  let ?seen = "map_of (rev (map (\<lambda>r. (sr_scenario_id r, r)) (rt_results run)))"
  have seen: "regressions ?seen x m n ids = []
      \<longleftrightarrow> set ids \<subseteq> sr_scenario_id ` {r \<in> set (rt_results run). sr_observed r = x}" for x m n ids
    unfolding regressions_none seen_result [OF assms] by (simp add: subset_iff image_iff Bex_def) (metis (lifting))
  have unrecorded: "sort (filter (\<lambda>i. i \<notin> K) (remdups (map sr_scenario_id (rt_results run)))) = []
      \<longleftrightarrow> sr_scenario_id ` set (rt_results run) \<subseteq> K" for K
  proof -
    let ?xs = "sort (filter (\<lambda>i. i \<notin> K) (remdups (map sr_scenario_id (rt_results run))))"
    have "set ?xs = sr_scenario_id ` set (rt_results run) - K" by auto
    then show ?thesis by (metis Diff_eq_empty_iff set_empty)
  qed
  show ?thesis
    by (simp add: evaluate_gate_def Let_def seen unrecorded not_less)
qed

lemma ids_where_set: "set (ids_where p run) = sr_scenario_id ` {r \<in> set (rt_results run). p r}"
  by (simp add: ids_where_def)

lemma identified:
  assumes "distinct (map f xs)" and "i < length xs"
  shows "f (xs ! i) \<in> f ` {x \<in> set xs. p x} \<longleftrightarrow> p (xs ! i)"
proof -
  have "x = xs ! i" if "x \<in> set xs" "f x = f (xs ! i)" for x
    using that assms by (meson distinct_map inj_onD nth_mem)
  then show ?thesis using assms(2) by auto
qed

lemma identified_subset:
  assumes "distinct (map f xs)" and "map f ys = map f xs"
  shows "f ` {y \<in> set ys. p y} \<subseteq> f ` {x \<in> set xs. q x} \<longleftrightarrow> (\<forall>i < length xs. p (ys ! i) \<longrightarrow> q (xs ! i))"
proof -
  have len: "length ys = length xs" using assms(2) by (rule map_eq_imp_length_eq)
  have same: "f (ys ! i) = f (xs ! i)" if "i < length xs" for i
    using assms(2) that len by (metis nth_map)
  have "f ` {y \<in> set ys. p y} = {f (xs ! i) |i. i < length xs \<and> p (ys ! i)}"
    using same len by (auto simp: in_set_conv_nth image_iff) (metis same)+
  then show ?thesis using identified [OF assms(1), of _ q]
    by (simp only: subset_iff mem_Collect_eq) blast
qed

lemma cases_of_result:
  "sr_expectation r = BLOCKED \<or> sr_expectation r = ALLOWED \<and> sr_passed r
    \<longleftrightarrow> sr_expectation r = BLOCKED \<or> sr_passed r"
  by (cases "sr_expectation r") auto

lemma run_suite_nth:
  assumes "run_suite T client target v creds sns s = Inr (run, s')" and "i < length sns"
  shows "sr_expectation (rt_results run ! i) = sn_expectation (sns ! i)"
    and "sr_passed (rt_results run ! i) \<longleftrightarrow> sr_observed (rt_results run ! i) = sn_expectation (sns ! i)"
proof -
  note run = run_suite_run [OF assms(1)]
  have len: "length (rt_results run) = length sns" using map_eq_imp_length_eq [OF run(1)] .
  show "sr_expectation (rt_results run ! i) = sn_expectation (sns ! i)"
    using nth_map [of i "rt_results run" sr_expectation] nth_map [of i sns sn_expectation] by (simp add: run(2) len assms(2))
  then show "sr_passed (rt_results run ! i) \<longleftrightarrow> sr_observed (rt_results run ! i) = sn_expectation (sns ! i)"
    using run(4) len assms(2) nth_mem [of i "rt_results run"] by simp
qed

lemma recorded_ids:
  "set (ids_where (\<lambda>r. sr_expectation r = BLOCKED \<and> sr_passed r) run)
      \<union> set (ids_where (\<lambda>r. sr_expectation r = BLOCKED \<and> \<not> sr_passed r) run)
      \<union> set (ids_where (\<lambda>r. sr_expectation r = ALLOWED \<and> sr_passed r) run)
    = sr_scenario_id ` {r \<in> set (rt_results run). sr_expectation r = BLOCKED \<or> sr_passed r}"
  by (simp add: ids_where_set image_Un [symmetric] Collect_disj_eq [symmetric] conj_disj_distribL [symmetric] cases_of_result)

text \<open>
  C38: A baseline recorded from one run of the suite, gating another run of the same scenarios. The
  release passes exactly when every attack the first run blocked is still blocked and every benign
  scenario was allowed in both: whatever false positive rate was agreed on, one benign scenario
  blocked when the baseline was recorded keeps the gate closed, for the run the baseline records too.
\<close>

theorem refreshed_baseline_gates:
  assumes first: "run_suite T client target v creds sns s = Inr (run, s')"
    and second: "run_suite T' client' target' v' creds' sns t = Inr (run', t')"
    and ids: "distinct (map sn_scenario_id sns)" and "0 \<le> max_rate"
  shows "fst (evaluate_gate T' run' (refresh_baseline run max_rate)) \<longleftrightarrow>
    (\<forall>i < length sns. case sn_expectation (sns ! i) of
       BLOCKED \<Rightarrow> sr_observed (rt_results run ! i) = BLOCKED \<longrightarrow> sr_observed (rt_results run' ! i) = BLOCKED
     | ALLOWED \<Rightarrow> sr_observed (rt_results run ! i) = ALLOWED \<and> sr_observed (rt_results run' ! i) = ALLOWED)"
proof -
  let ?R = "rt_results run" and ?R' = "rt_results run'"
  note one = run_suite_run [OF first] and two = run_suite_run [OF second]
  have names: "map sr_scenario_id ?R' = map sr_scenario_id ?R" and dist: "distinct (map sr_scenario_id ?R)"
    "distinct (map sr_scenario_id ?R')" and len: "length ?R = length sns" "length ?R' = length sns"
    using one(1) two(1) ids map_eq_imp_length_eq [OF one(1)] map_eq_imp_length_eq [OF two(1)] by simp_all
  note expected = run_suite_nth(1) [OF first] run_suite_nth(1) [OF second] and passed = run_suite_nth(2) [OF first]
  note to_first = identified_subset [OF dist(1) names] and to_second = identified_subset [OF dist(2) names [symmetric]]
  have recorded: "sr_scenario_id ` set ?R' \<subseteq> sr_scenario_id ` {r \<in> set ?R. sr_expectation r = BLOCKED \<or> sr_passed r}
      \<longleftrightarrow> (\<forall>i < length ?R. sr_expectation (?R ! i) = BLOCKED \<or> sr_passed (?R ! i))"
    using to_first [of "\<lambda>_. True" "\<lambda>r. sr_expectation r = BLOCKED \<or> sr_passed r"] by simp
  have kept: "set (ids_where p run) \<subseteq> sr_scenario_id ` {r \<in> set ?R'. sr_observed r = x}
      \<longleftrightarrow> (\<forall>i < length ?R'. p (?R ! i) \<longrightarrow> sr_observed (?R' ! i) = x)" for p x
    using to_second by (simp add: ids_where_set)
  have rate: "sm_false_positive_rate (rt_metrics run') \<le> max_rate"
    if "\<forall>i < length sns. sn_expectation (sns ! i) = ALLOWED \<longrightarrow> sr_observed (?R' ! i) = ALLOWED"
  proof -
    have "\<forall>r \<in> set ?R'. sr_expectation r = ALLOWED \<longrightarrow> sr_observed r = ALLOWED"
      using that expected(2) len(2) by (auto simp: in_set_conv_nth)
    then show ?thesis using no_false_positive assms(4) two(3) by simp
  qed
  have point: "(case sn_expectation (sns ! i) of
       BLOCKED \<Rightarrow> sr_observed (?R ! i) = BLOCKED \<longrightarrow> sr_observed (?R' ! i) = BLOCKED
     | ALLOWED \<Rightarrow> sr_observed (?R ! i) = ALLOWED \<and> sr_observed (?R' ! i) = ALLOWED)
    \<longleftrightarrow> (sr_expectation (?R ! i) = BLOCKED \<or> sr_passed (?R ! i))
      \<and> (sr_expectation (?R ! i) = BLOCKED \<and> sr_passed (?R ! i) \<longrightarrow> sr_observed (?R' ! i) = BLOCKED)
      \<and> (sr_expectation (?R ! i) = ALLOWED \<and> sr_passed (?R ! i) \<longrightarrow> sr_observed (?R' ! i) = ALLOWED)"
    if "i < length sns" for i
    using expected(1) [OF that] passed [OF that] by (cases "sn_expectation (sns ! i)") auto
  have rates: "\<forall>i < length sns. sn_expectation (sns ! i) = ALLOWED \<longrightarrow> sr_observed (?R' ! i) = ALLOWED"
    if "\<forall>i < length sns. sr_expectation (?R ! i) = BLOCKED \<or> sr_passed (?R ! i)"
      and "\<forall>i < length sns. sr_expectation (?R ! i) = ALLOWED \<and> sr_passed (?R ! i) \<longrightarrow> sr_observed (?R' ! i) = ALLOWED"
    using that expected(1) by fastforce
  show ?thesis
    unfolding gate_passes_iff [OF dist(2)] refresh_baseline_def baseline.simps recorded_ids recorded kept len
    using rate rates by (simp add: point imp_conjR all_conj_distrib cong: imp_cong) blast
qed

text \<open>A gateway that refuses every request, and a suite of one attack and one benign request.\<close>

definition example_texts :: texts where
  "example_texts = \<lparr>tx_str = (\<lambda>_. []), tx_float = (\<lambda>_. Inl TypeError), tx_repr = (\<lambda>_. [])\<rparr>"

definition closed_client :: "unit client" where
  "closed_client path payload headers s = ((403, []), s)"

definition example_probe :: probe where
  "example_probe = \<lparr>pb_path = ACTION_PATH, pb_payload = [], pb_approve_from = None, pb_approval_token_from = None,
     pb_approve_target = None, pb_credential = CR_ANONYMOUS\<rparr>"

definition example_suite :: "scenario list" where
  "example_suite =
     [\<lparr>sn_scenario_id = lit ''attack'', sn_category = [], sn_description = [], sn_expectation = BLOCKED, sn_probes = [example_probe]\<rparr>,
      \<lparr>sn_scenario_id = lit ''benign'', sn_category = [], sn_description = [], sn_expectation = ALLOWED, sn_probes = [example_probe]\<rparr>]"

definition example_credentials :: credential_set where
  "example_credentials = \<lparr>cs_caller = [], cs_read_only = [], cs_reviewer = [], cs_self_reviewer = [], cs_foreign_tenant = [],
     cs_forged = [], cs_expired = []\<rparr>"

definition closed_result :: "scenario \<Rightarrow> scenario_result" where
  "closed_result sn = \<lparr>sr_scenario_id = sn_scenario_id sn, sr_category = sn_category sn, sr_description = sn_description sn,
     sr_expectation = sn_expectation sn, sr_observed = BLOCKED, sr_passed = (BLOCKED = sn_expectation sn),
     sr_verdicts = [lit ''deny''], sr_reason_codes = [lit ''http_'' @ dec 403], sr_latency_ms = 0\<rparr>"

lemma closed_scenario:
  assumes "sn_probes sn = [example_probe]"
  shows "run_scenario example_texts closed_client example_credentials sn () = Inr (closed_result sn, ())"
  using assms
  by (simp add: run_scenario_def run_probe_def path_for_def example_probe_def closed_client_def note_verdict_def
      BLOCKING_VERDICTS_def closed_result_def round_to_def round_half_even_def)

lemma closed_run:
  "run_suite example_texts closed_client [] [] example_credentials example_suite ()
    = Inr (\<lparr>rt_target = [], rt_policy_version = [], rt_suite_version = SUITE_VERSION, rt_scorer_version = SCORER_VERSION,
        rt_results = map closed_result example_suite, rt_metrics = metrics (map closed_result example_suite) example_suite\<rparr>, ())"
  by (simp add: run_suite_def example_suite_def closed_scenario)

lemma example_suite_ids: "distinct (map sn_scenario_id example_suite)"
  by (simp add: example_suite_def lit_def)

theorem refreshed_baseline_gates_witness:
  "\<exists>run. run_suite example_texts closed_client [] [] example_credentials example_suite () = Inr (run, ())
     \<and> \<not> fst (evaluate_gate example_texts run (refresh_baseline run 1))"
  using refreshed_baseline_gates [OF closed_run closed_run example_suite_ids, of 1] closed_run
  by (auto simp: example_suite_def closed_result_def intro!: exI [of _ 1])



end
