(* ===== verification/Evidence.thy ===== *)
theory Evidence
  imports Pyregex
begin

text \<open>
  Labelling a retrieved document as untrusted evidence, \<^verbatim>\<open>service.py\<close>: who may read it, and
  the envelope that wraps an admitted document so that its text cannot pass for the end of it.
\<close>

section \<open>Who may read a document\<close>

definition may_read :: "context_document \<Rightarrow> principal \<Rightarrow> bool" where
  "may_read d p =
     (if rank (cd_classification d) > rank (pr_clearance p) then False
      else if cd_allowed_identities d = None \<and> cd_allowed_roles d = None then True
      else if pr_identity p \<in> set (case cd_allowed_identities d of None \<Rightarrow> [] | Some xs \<Rightarrow> xs) then True
      else role_value ` pr_roles p \<inter> set (case cd_allowed_roles d of None \<Rightarrow> [] | Some xs \<Rightarrow> xs) \<noteq> {})"

section \<open>The envelope\<close>

fun nocase_literal :: "unicode_db \<Rightarrow> str \<Rightarrow> regex" where
  "nocase_literal u [] = Eps"
| "nocase_literal u (c # cs) = Cat (Cls (u_same_letter u c)) (nocase_literal u cs)"

text \<open>\<^verbatim>\<open>_ENVELOPE_TAG\<close>, whose group is the match without its first character.\<close>

definition envelope_tag :: "unicode_db \<Rightarrow> regex" where
  "envelope_tag u =
     Cat (Cls (\<lambda>c. c = 60)) (Cat (Rep True 0 (Some 1) (Cls (\<lambda>c. c = 47)))
       (Cat (Rep True 0 None (Cls (u_space u))) (nocase_literal u (lit ''untrusted_evidence''))))"

definition inert :: "unicode_db \<Rightarrow> str \<Rightarrow> str" where
  "inert u content = re_sub (envelope_tag u) (\<lambda>m. lit ''&lt;'' @ tl m) content"

definition as_untrusted_evidence :: "unicode_db \<Rightarrow> context_document \<Rightarrow> str \<Rightarrow> str" where
  "as_untrusted_evidence u d content =
     lit ''<untrusted_evidence id='' @ [34] @ cd_id d @ [34] @ lit '' source_tenant='' @ [34]
     @ cd_source_tenant_id d @ [34] @ lit '' trust='' @ [34] @ trust_value (cd_trust_level d) @ [34]
     @ lit ''>'' @ [10] @ inert u content @ [10] @ lit ''</untrusted_evidence>''"

end
