(* ===== verification/Utf8.thy ===== *)
theory Utf8
  imports Pyregex
begin

text \<open>
  \<^verbatim>\<open>bytes.decode("utf-8")\<close> and \<^verbatim>\<open>str.encode()\<close> of the standard library. A byte is a number below
  256. Decoding goes piece by piece: a piece is a character, or the longest start of one that
  cannot be completed, for which strict decoding raises and \<^verbatim>\<open>errors="replace"\<close> puts U+FFFD.
\<close>

definition continuation :: "nat \<Rightarrow> bool" where
  "continuation b \<longleftrightarrow> 128 \<le> b \<and> b \<le> 191"

text \<open>The least and largest second byte after a lead byte of three or four.\<close>

definition second_ok :: "nat \<Rightarrow> nat \<Rightarrow> bool" where
  "second_ok lead b \<longleftrightarrow>
     (if lead = 224 then 160 else if lead = 240 then 144 else 128) \<le> b
     \<and> b \<le> (if lead = 237 then 159 else if lead = 244 then 143 else 191)"

definition holds :: "nat list \<Rightarrow> nat \<Rightarrow> (nat \<Rightarrow> bool) \<Rightarrow> bool" where
  "holds bs i p \<longleftrightarrow> i < length bs \<and> p (bs ! i)"

definition utf8_piece :: "nat list \<Rightarrow> nat option \<times> nat" where
  "utf8_piece bs =
     (let lead = hd bs; low = (\<lambda>i. bs ! i - 128)
      in if lead < 128 then (Some lead, 1)
         else if 194 \<le> lead \<and> lead \<le> 223
         then (if holds bs 1 continuation then (Some ((lead - 192) * 64 + low 1), 2) else (None, 1))
         else if 224 \<le> lead \<and> lead \<le> 239
         then (if \<not> holds bs 1 (second_ok lead) then (None, 1)
               else if \<not> holds bs 2 continuation then (None, 2)
               else (Some ((lead - 224) * 4096 + low 1 * 64 + low 2), 3))
         else if 240 \<le> lead \<and> lead \<le> 244
         then (if \<not> holds bs 1 (second_ok lead) then (None, 1)
               else if \<not> holds bs 2 continuation then (None, 2)
               else if \<not> holds bs 3 continuation then (None, 3)
               else (Some ((lead - 240) * 262144 + low 1 * 4096 + low 2 * 64 + low 3), 4))
         else (None, 1))"

lemma utf8_piece_positive: "0 < snd (utf8_piece bs)"
  by (simp add: utf8_piece_def Let_def)

function utf8_pieces :: "nat list \<Rightarrow> nat option list" where
  "utf8_pieces bs =
     (if bs = [] then [] else fst (utf8_piece bs) # utf8_pieces (drop (snd (utf8_piece bs)) bs))"
  by pat_completeness auto
termination
  by (relation "measure length") (simp_all add: utf8_piece_positive)

declare utf8_pieces.simps [simp del]

definition utf8_decode :: "nat list \<Rightarrow> str option" where
  "utf8_decode bs =
     (let pieces = utf8_pieces bs in if None \<in> set pieces then None else Some (map the pieces))"

definition utf8_replace :: "nat list \<Rightarrow> str" where
  "utf8_replace bs = map (\<lambda>c. case c of None \<Rightarrow> 65533 | Some x \<Rightarrow> x) (utf8_pieces bs)"

definition utf8_char :: "nat \<Rightarrow> nat list" where
  "utf8_char c =
     (if c < 128 then [c]
      else if c < 2048 then [192 + c div 64, 128 + c mod 64]
      else if c < 65536 then [224 + c div 4096, 128 + c div 64 mod 64, 128 + c mod 64]
      else [240 + c div 262144, 128 + c div 4096 mod 64, 128 + c div 64 mod 64, 128 + c mod 64])"

definition utf8_encode :: "str \<Rightarrow> nat list" where
  "utf8_encode s = concat (map utf8_char s)"

text \<open>What can be encoded: every code point but the surrogates.\<close>

definition scalar :: "nat \<Rightarrow> bool" where
  "scalar c \<longleftrightarrow> c < 1114112 \<and> \<not> (55296 \<le> c \<and> c \<le> 57343)"

lemma continuation_low: "x < 64 \<Longrightarrow> continuation (128 + x)"
  by (simp add: continuation_def)

lemma nth_small: "(w # x # y # z # bs) ! 1 = x" "(w # x # y # bs) ! 2 = y" "(w # x # y # z # bs) ! 3 = z"
  by (simp_all add: numeral_2_eq_2 numeral_3_eq_3)

lemma holds_small: "holds (w # x # bs) 1 p = p x" "holds (w # x # y # bs) 2 p = p y" "holds (w # x # y # z # bs) 3 p = p z"
  by (simp_all add: holds_def numeral_2_eq_2 numeral_3_eq_3)

lemma utf8_piece_two:
  assumes "2 \<le> a" "a \<le> 31" "b < 64"
  shows "utf8_piece ((192 + a) # (128 + b) # bs) = (Some (a * 64 + b), 2)"
  using assms by (simp add: utf8_piece_def holds_def continuation_low)

lemma utf8_piece_three:
  assumes "a \<le> 15" "second_ok (224 + a) (128 + b)" "c < 64"
  shows "utf8_piece ((224 + a) # (128 + b) # (128 + c) # bs) = (Some (a * 4096 + b * 64 + c), 3)"
  using assms by (simp add: utf8_piece_def Let_def holds_small [simplified] nth_small [simplified] continuation_low)

lemma utf8_piece_four:
  assumes "a \<le> 4" "second_ok (240 + a) (128 + b)" "c < 64" "d < 64"
  shows "utf8_piece ((240 + a) # (128 + b) # (128 + c) # (128 + d) # bs) = (Some (a * 262144 + b * 4096 + c * 64 + d), 4)"
  using assms by (simp add: utf8_piece_def Let_def holds_small [simplified] nth_small [simplified] continuation_low)

lemma utf8_piece_char:
  assumes "scalar c"
  shows "utf8_piece (utf8_char c @ bs) = (Some c, length (utf8_char c))"
proof -
  have digits: "c = c div 64 * 64 + c mod 64" "c div 64 = c div 4096 * 64 + c div 64 mod 64"
    "c div 4096 = c div 262144 * 64 + c div 4096 mod 64"
    using div_mult_mod_eq [of "c div 64" 64] div_mult_mod_eq [of "c div 4096" 64]
    by (simp_all flip: div_mult2_eq)
  have low: "c div 4096 mod 64 < 64" "c div 64 mod 64 < 64" "c mod 64 < 64" by simp_all
  consider (one) "c < 128" | (two) "128 \<le> c" "c < 2048" | (three) "2048 \<le> c" "c < 65536" | (four) "65536 \<le> c"
    by linarith
  then show ?thesis
  proof cases
    case one
    then show ?thesis by (simp add: utf8_char_def utf8_piece_def)
  next
    case two
    then have "2 \<le> c div 64" "c div 64 \<le> 31" by (simp_all add: less_eq_div_iff_mult_less_eq)
    then show ?thesis using two low utf8_piece_two digits(1) by (simp add: utf8_char_def)
  next
    case three
    have whole: "c div 4096 * 4096 + c div 64 mod 64 * 64 + c mod 64 = c" using digits(1,2) by linarith
    have lead: "c div 4096 \<le> 15" using three by (simp add: less_eq_div_iff_mult_less_eq)
    have "second_ok (224 + c div 4096) (128 + c div 64 mod 64)"
      using three assms whole low by (auto simp: second_ok_def scalar_def)
    from utf8_piece_three [OF lead this low(3)] show ?thesis
      using three whole by (simp add: utf8_char_def)
  next
    case four
    have whole: "c div 262144 * 262144 + c div 4096 mod 64 * 4096 + c div 64 mod 64 * 64 + c mod 64 = c"
      using digits by linarith
    have "c div 262144 < 5" using assms by (intro less_mult_imp_div_less) (simp add: scalar_def)
    then have lead: "c div 262144 \<le> 4" by simp
    have "c div 4096 mod 64 \<le> 63" using low(1) by linarith
    then have "second_ok (240 + c div 262144) (128 + c div 4096 mod 64)"
      using four assms whole low(2,3) by (auto simp: second_ok_def scalar_def)
    from utf8_piece_four [OF lead this low(2,3)] show ?thesis
      using four whole by (simp add: utf8_char_def)
  qed
qed

lemma utf8_char_nonempty [simp]: "utf8_char c \<noteq> []"
  by (simp add: utf8_char_def)

lemma utf8_pieces_encode: "list_all scalar s \<Longrightarrow> utf8_pieces (utf8_encode s) = map Some s"
proof (induction s)
  case Nil
  then show ?case by (subst utf8_pieces.simps) (simp add: utf8_encode_def)
next
  case (Cons c s)
  have "utf8_encode (c # s) = utf8_char c @ utf8_encode s" by (simp add: utf8_encode_def)
  then show ?case
    using Cons utf8_piece_char [of c "utf8_encode s"] by (subst utf8_pieces.simps) simp
qed

lemma utf8_round_trip: "list_all scalar s \<Longrightarrow> utf8_decode (utf8_encode s) = Some s"
  by (simp add: utf8_decode_def utf8_pieces_encode comp_def)

lemma utf8_replace_encode: "list_all scalar s \<Longrightarrow> utf8_replace (utf8_encode s) = s"
  by (simp add: utf8_replace_def utf8_pieces_encode comp_def)

end
