(* ===== verification/Normalize.thy ===== *)
theory Normalize
  imports Evidence Utf8
begin

text \<open>
  The alternative readings of \<^verbatim>\<open>normalize.py\<close>: what content says once an encoding or a
  disguise is undone. NFKC folding is the table \<open>u_nfkc\<close> of the Unicode database.
\<close>

section \<open>The patterns\<close>

definition is_hex :: "nat \<Rightarrow> bool" where
  "is_hex c \<longleftrightarrow> ascii_digit c \<or> 65 \<le> c \<and> c \<le> 70 \<or> 97 \<le> c \<and> c \<le> 102"

definition is_base64 :: "nat \<Rightarrow> bool" where
  "is_base64 c \<longleftrightarrow> ascii_letter c \<or> ascii_digit c \<or> c = 43 \<or> c = 47"

definition is_base64url :: "nat \<Rightarrow> bool" where
  "is_base64url c \<longleftrightarrow> ascii_letter c \<or> ascii_digit c \<or> c = 95 \<or> c = 45"

definition BASE64_RUN :: regex where
  "BASE64_RUN = Cat (at_least 20 (Cls is_base64)) (up_to 2 (char 61))"

definition BASE64URL_RUN :: regex where
  "BASE64URL_RUN = Cat (at_least 20 (Cls is_base64url)) (up_to 2 (char 61))"

definition HEX_RUN :: regex where
  "HEX_RUN = Cat (optional (text_of ''0x'')) (at_least 10 (Cat (Cls is_hex) (Cls is_hex)))"

definition HEX_ESCAPES :: regex where
  "HEX_ESCAPES = at_least 6 (sequence [char 92, char 120, Cls is_hex, Cls is_hex])"

definition PERCENT_ESCAPE :: regex where
  "PERCENT_ESCAPE = sequence [char 37, Cls is_hex, Cls is_hex]"

definition spacer :: "nat \<Rightarrow> bool" where "spacer c \<longleftrightarrow> c \<in> {32, 46, 95, 45}"

definition SPACED_LETTERS :: "unicode_db \<Rightarrow> regex" where
  "SPACED_LETTERS u =
     (let letter = Cls (\<lambda>c. u_word u c \<and> \<not> u_digit u c \<and> c \<noteq> 95); joined = (\<lambda>c. u_word u c \<and> c \<noteq> 95)
      in sequence [not_after joined, at_least 5 (Cat letter (Cls spacer)), letter, not_followed_by joined])"

section \<open>Unicode tricks\<close>

definition INVISIBLE :: "nat \<Rightarrow> bool" where
  "INVISIBLE c \<longleftrightarrow> c = 0x00AD \<or> c = 0x180E \<or> 0x200B \<le> c \<and> c < 0x2010 \<or> 0x202A \<le> c \<and> c < 0x202F
     \<or> 0x2060 \<le> c \<and> c < 0x2065 \<or> 0x2066 \<le> c \<and> c < 0x206A \<or> c = 0xFEFF \<or> 0xE0000 \<le> c \<and> c < 0xE0080"

definition CONFUSABLES :: "(nat \<times> nat) list" where
  "CONFUSABLES = map (\<lambda>(c, l). (c, of_char l))
    [(0x0430, CHR ''a''), (0x0435, CHR ''e''), (0x043E, CHR ''o''), (0x0440, CHR ''p''), (0x0441, CHR ''c''),
     (0x0445, CHR ''x''), (0x0443, CHR ''y''), (0x0456, CHR ''i''), (0x0458, CHR ''j''), (0x0455, CHR ''s''),
     (0x04BB, CHR ''h''), (0x0501, CHR ''d''), (0x051B, CHR ''q''), (0x051D, CHR ''w''), (0x0410, CHR ''A''),
     (0x0412, CHR ''B''), (0x0415, CHR ''E''), (0x041A, CHR ''K''), (0x041C, CHR ''M''), (0x041D, CHR ''H''),
     (0x041E, CHR ''O''), (0x0420, CHR ''P''), (0x0421, CHR ''C''), (0x0422, CHR ''T''), (0x0425, CHR ''X''),
     (0x0405, CHR ''S''), (0x0406, CHR ''I''), (0x0408, CHR ''J''),
     (0x03B1, CHR ''a''), (0x03BF, CHR ''o''), (0x03C1, CHR ''p''), (0x03BD, CHR ''v''), (0x03B9, CHR ''i''),
     (0x03BA, CHR ''k''), (0x03C4, CHR ''t''), (0x0391, CHR ''A''), (0x0392, CHR ''B''), (0x0395, CHR ''E''),
     (0x0396, CHR ''Z''), (0x0397, CHR ''H''), (0x0399, CHR ''I''), (0x039A, CHR ''K''), (0x039C, CHR ''M''),
     (0x039D, CHR ''N''), (0x039F, CHR ''O''), (0x03A1, CHR ''P''), (0x03A4, CHR ''T''), (0x03A5, CHR ''Y''),
     (0x03A7, CHR ''X'')]"

definition confusable :: "nat \<Rightarrow> nat" where
  "confusable c = (case map_of CONFUSABLES c of None \<Rightarrow> c | Some l \<Rightarrow> l)"

definition without_unicode_tricks :: "unicode_db \<Rightarrow> str \<Rightarrow> str" where
  "without_unicode_tricks u content = map confusable (filter (\<lambda>c. \<not> INVISIBLE c) (u_nfkc u content))"

section \<open>Percent encoding\<close>

definition hex_value :: "nat \<Rightarrow> nat" where
  "hex_value c = (if ascii_digit c then c - 48 else if c \<le> 70 then c - 55 else c - 87)"

text \<open>\<^verbatim>\<open>unquote_to_bytes\<close> of ASCII text, then \<^verbatim>\<open>urllib.parse.unquote\<close>: each run of ASCII is decoded.\<close>

fun percent_bytes :: "str \<Rightarrow> nat list" where
  "percent_bytes [] = []"
| "percent_bytes (c # s) =
     (if c = 37 \<and> 2 \<le> length s \<and> is_hex (s ! 0) \<and> is_hex (s ! 1)
      then (hex_value (s ! 0) * 16 + hex_value (s ! 1)) # percent_bytes (drop 2 s)
      else c # percent_bytes s)"

function unquote :: "str \<Rightarrow> str" where
  "unquote s =
     (if s = [] then []
      else let run = takeWhile (\<lambda>c. c < 128) s; rest = dropWhile (\<lambda>c. c < 128) s
           in utf8_replace (percent_bytes run) @ takeWhile (\<lambda>c. 128 \<le> c) rest
              @ unquote (dropWhile (\<lambda>c. 128 \<le> c) rest))"
  by pat_completeness auto
termination
proof (relation "measure length")
  fix s run rest :: str
  assume s: "s \<noteq> []" "run = takeWhile (\<lambda>c. c < 128) s" "rest = dropWhile (\<lambda>c. c < 128) s"
  have "length (dropWhile (\<lambda>c. 128 \<le> c) rest) < length s"
  proof (cases "hd s < 128")
    case True
    then have "length rest < length s" using s by (cases s) (simp_all add: less_Suc_eq_le length_dropWhile_le)
    then show ?thesis by (meson le_less_trans length_dropWhile_le)
  next
    case False
    then show ?thesis using s by (cases s) (simp_all add: less_Suc_eq_le length_dropWhile_le)
  qed
  then show "(dropWhile (\<lambda>c. 128 \<le> c) rest, s) \<in> measure length" by simp
qed simp

declare unquote.simps [simp del]

definition percent_decoded :: "str \<Rightarrow> str option" where
  "percent_decoded content = (if searches PERCENT_ESCAPE content then Some (unquote content) else None)"

section \<open>Spaced letters and rotation\<close>

definition unspaced :: "unicode_db \<Rightarrow> str \<Rightarrow> str option" where
  "unspaced u content =
     (if searches (SPACED_LETTERS u) content
      then Some (re_sub (SPACED_LETTERS u) (filter (\<lambda>c. \<not> spacer c)) content) else None)"

definition rot13_char :: "nat \<Rightarrow> nat" where
  "rot13_char c = (if 65 \<le> c \<and> c \<le> 90 then 65 + (c - 65 + 13) mod 26
     else if 97 \<le> c \<and> c \<le> 122 then 97 + (c - 97 + 13) mod 26 else c)"

definition rot13 :: "str \<Rightarrow> str" where "rot13 s = map rot13_char s"

section \<open>Base64 and hexadecimal\<close>

text \<open>
  \<^verbatim>\<open>sum(isprintable) / len <= 0.8\<close>: the quotient is not rounded across the bound for texts
  shorter than 2^50 characters, so it is compared as a fraction.
\<close>

definition printable :: "unicode_db \<Rightarrow> nat list \<Rightarrow> str option" where
  "printable u raw =
     (case utf8_decode raw of
        None \<Rightarrow> None
      | Some t \<Rightarrow> if t = [] then None
                  else if 5 * length (filter (u_printable u) t) \<le> 4 * length t then None
                  else Some t)"

definition base64_value :: "nat \<Rightarrow> nat option" where
  "base64_value c =
     (if 65 \<le> c \<and> c \<le> 90 then Some (c - 65)
      else if 97 \<le> c \<and> c \<le> 122 then Some (c - 71)
      else if ascii_digit c then Some (c + 4)
      else if c = 43 then Some 62 else if c = 47 then Some 63 else None)"

text \<open>The quads of \<^verbatim>\<open>b64decode\<close> without their padding; a single digit cannot be completed.\<close>

fun base64_bytes :: "nat list \<Rightarrow> nat list option" where
  "base64_bytes [] = Some []"
| "base64_bytes [a] = None"
| "base64_bytes [a, b] = Some [a * 4 + b div 16]"
| "base64_bytes [a, b, c] = Some [a * 4 + b div 16, b mod 16 * 16 + c div 4]"
| "base64_bytes (a # b # c # d # ds) =
     map_option (\<lambda>bs. (a * 4 + b div 16) # (b mod 16 * 16 + c div 4) # (c mod 4 * 64 + d) # bs) (base64_bytes ds)"

definition b64decode :: "str \<Rightarrow> nat list option" where
  "b64decode blob =
     (if list_ex (\<lambda>c. base64_value c = None) blob then None else base64_bytes (map (the \<circ> base64_value) blob))"

definition rstrip_padding :: "str \<Rightarrow> str" where
  "rstrip_padding run = rev (dropWhile (\<lambda>c. c = 61) (rev run))"

definition base64_decoded :: "unicode_db \<Rightarrow> str \<Rightarrow> str option" where
  "base64_decoded u run =
     (let blob = map (\<lambda>c. if c = 45 then 43 else if c = 95 then 47 else c) (rstrip_padding run)
      in case b64decode blob of None \<Rightarrow> None | Some raw \<Rightarrow> printable u raw)"

fun fromhex :: "str \<Rightarrow> nat list option" where
  "fromhex [] = Some []"
| "fromhex [a] = None"
| "fromhex (a # b # s) =
     (if is_hex a \<and> is_hex b then map_option (\<lambda>bs. (hex_value a * 16 + hex_value b) # bs) (fromhex s) else None)"

definition hex_decoded :: "unicode_db \<Rightarrow> str \<Rightarrow> str option" where
  "hex_decoded u run = (case fromhex run of None \<Rightarrow> None | Some raw \<Rightarrow> printable u raw)"

text \<open>\<^verbatim>\<open>match.group(1)\<close> of the run, which leaves out its \<^verbatim>\<open>0x\<close>, and \<^verbatim>\<open>replace("\\x", "")\<close>.\<close>

definition hex_group :: "str \<Rightarrow> str" where
  "hex_group m = (if prefix (lit ''0x'') m then drop 2 m else m)"

fun without_escapes :: "str \<Rightarrow> str" where
  "without_escapes (a # b # s) =
     (if a = 92 \<and> b = 120 then without_escapes s else a # without_escapes (b # s))"
| "without_escapes s = s"

section \<open>The readings\<close>

definition offer :: "str option \<Rightarrow> str set \<times> str list \<Rightarrow> str set \<times> str list" where
  "offer candidate st =
     (case (candidate, st) of
        (Some c, (seen, readings)) \<Rightarrow>
          if c \<noteq> [] \<and> c \<notin> seen then (insert c seen, readings @ [c]) else st
      | (None, _) \<Rightarrow> st)"

definition first_pass :: "unicode_db \<Rightarrow> str \<Rightarrow> str option list" where
  "first_pass u content =
     [Some (without_unicode_tricks u content), percent_decoded content, unspaced u content, Some (rot13 content)]
     @ map (base64_decoded u) (matches BASE64_RUN content @ matches BASE64URL_RUN content)
     @ map (hex_decoded u \<circ> hex_group) (matches HEX_RUN content)
     @ map (hex_decoded u \<circ> without_escapes) (matches HEX_ESCAPES content)"

definition second_pass :: "unicode_db \<Rightarrow> str \<Rightarrow> str option list" where
  "second_pass u reading = percent_decoded reading # map (base64_decoded u) (matches BASE64_RUN reading)"

definition alternative_readings :: "unicode_db \<Rightarrow> str \<Rightarrow> str list" where
  "alternative_readings u content =
     (let st = fold offer (first_pass u content) ({content}, [])
      in snd (fold offer (concat (map (second_pass u) (snd st))) st))"

end
