(* ===== verification/Readings.thy ===== *)
theory Readings
  imports Normalize
begin

text \<open>
  What the readings of \<^verbatim>\<open>normalize.py\<close> recover: which texts they are, and that a text put
  into percent encoding, base64, hexadecimal or rotation is among them.
\<close>

section \<open>The readings as a set\<close>

definition offered :: "str \<Rightarrow> str option list \<Rightarrow> str set" where
  "offered content cs = {x. Some x \<in> set cs \<and> x \<noteq> [] \<and> x \<noteq> content}"

lemma offered_simps [simp]:
  "offered c [] = {}" "offered c (None # cs) = offered c cs"
  "offered c (Some x # cs) = (if x = [] \<or> x = c then offered c cs else insert x (offered c cs))"
  by (auto simp: offered_def)

lemma self_not_offered [simp]: "c \<notin> offered c cs"
  by (simp add: offered_def)

text \<open>The content counts as seen and is never listed; what is listed is listed once.\<close>

definition seen_ok :: "str \<Rightarrow> str set \<times> str list \<Rightarrow> bool" where
  "seen_ok c st \<longleftrightarrow> fst st = insert c (set (snd st)) \<and> distinct (snd st) \<and> c \<notin> set (snd st)"

lemma offer_step:
  assumes "seen_ok c st"
  shows "seen_ok c (offer x st) \<and> set (snd (offer x st)) = set (snd st) \<union> offered c [x]"
  using assms by (cases st; cases x) (auto simp: seen_ok_def offer_def)

lemma fold_offer:
  "seen_ok c st \<Longrightarrow> seen_ok c (fold offer cs st) \<and> set (snd (fold offer cs st)) = set (snd st) \<union> offered c cs"
proof (induction cs arbitrary: st)
  case (Cons x cs)
  show ?case
    using Cons.IH [of "offer x st"] offer_step [OF Cons.prems, of x] by (cases x) auto
qed simp

lemma readings_state:
  obtains st where "seen_ok content st" "set (snd st) = offered content (first_pass u content)"
    "seen_ok content (fold offer (concat (map (second_pass u) (snd st))) st)"
    "alternative_readings u content = snd (fold offer (concat (map (second_pass u) (snd st))) st)"
proof -
  let ?st = "fold offer (first_pass u content) ({content}, [])"
  have first: "seen_ok content ?st \<and> set (snd ?st) = offered content (first_pass u content)"
    using fold_offer [of content "({content}, [])" "first_pass u content"] by (simp add: seen_ok_def)
  then show thesis
    using fold_offer [of content ?st] that [of ?st] by (simp add: alternative_readings_def Let_def)
qed

lemma set_readings:
  "set (alternative_readings u content) =
     offered content (first_pass u content)
     \<union> (\<Union>r \<in> offered content (first_pass u content). offered content (second_pass u r))"
proof -
  obtain st where st: "seen_ok content st" "set (snd st) = offered content (first_pass u content)"
    "alternative_readings u content = snd (fold offer (concat (map (second_pass u) (snd st))) st)"
    by (rule readings_state)
  have "offered content (concat (map (second_pass u) rs)) = (\<Union>r \<in> set rs. offered content (second_pass u r))" for rs
    by (auto simp: offered_def)
  then show ?thesis
    using fold_offer [OF st(1), of "concat (map (second_pass u) (snd st))"] st(2,3) by simp
qed

lemma readings_distinct:
  "distinct (alternative_readings u content)" "content \<notin> set (alternative_readings u content)"
  by (rule readings_state [of content u], simp add: seen_ok_def)+

lemma reading_first:
  assumes "Some t \<in> set (first_pass u content)" and "t \<noteq> []"
  shows "t = content \<or> t \<in> set (alternative_readings u content)"
  using assms by (auto simp: set_readings offered_def)

section \<open>Disguises\<close>

definition hex_digit :: "nat \<Rightarrow> nat" where
  "hex_digit d = (if d < 10 then 48 + d else 87 + d)"

definition hex_encode :: "nat list \<Rightarrow> str" where
  "hex_encode bs = concat (map (\<lambda>b. [hex_digit (b div 16), hex_digit (b mod 16)]) bs)"

definition percent_encode :: "nat list \<Rightarrow> str" where
  "percent_encode bs = concat (map (\<lambda>b. [37, hex_digit (b div 16), hex_digit (b mod 16)]) bs)"

definition base64_digit :: "nat \<Rightarrow> nat" where
  "base64_digit d = (if d < 26 then 65 + d else if d < 52 then 71 + d else if d < 62 then d - 4
     else if d = 62 then 43 else 47)"

fun base64_values :: "nat list \<Rightarrow> nat list" where
  "base64_values [] = []"
| "base64_values [a] = [a div 4, a mod 4 * 16]"
| "base64_values [a, b] = [a div 4, a mod 4 * 16 + b div 16, b mod 16 * 4]"
| "base64_values (a # b # c # bs) =
     [a div 4, a mod 4 * 16 + b div 16, b mod 16 * 4 + c div 64, c mod 64] @ base64_values bs"

definition base64_encode :: "nat list \<Rightarrow> str" where
  "base64_encode bs = map base64_digit (base64_values bs) @ replicate ((3 - length bs mod 3) mod 3) 61"

datatype disguise = Rotated | PercentEncoded | HexEncoded | Base64Encoded

primrec disguised :: "disguise \<Rightarrow> str \<Rightarrow> str" where
  "disguised Rotated t = rot13 t"
| "disguised PercentEncoded t = percent_encode (utf8_encode t)"
| "disguised HexEncoded t = hex_encode (utf8_encode t)"
| "disguised Base64Encoded t = base64_encode (utf8_encode t)"

lemma rot13_halves:
  assumes "d \<le> 12"
  shows "rot13_char (65 + d) = 78 + d" "rot13_char (78 + d) = 65 + d"
    "rot13_char (97 + d) = 110 + d" "rot13_char (110 + d) = 97 + d"
  using assms by (simp_all add: rot13_char_def)

lemma rot13_involution: "rot13 (rot13 t) = t"
proof -
  have "rot13_char (rot13_char c) = c" for c
  proof -
    consider d where "c = 65 + d" "d \<le> 12" | d where "c = 78 + d" "d \<le> 12" | d where "c = 97 + d" "d \<le> 12"
      | d where "c = 110 + d" "d \<le> 12" | "\<not> (65 \<le> c \<and> c \<le> 90)" "\<not> (97 \<le> c \<and> c \<le> 122)"
      by (cases "c < 65"; cases "c < 78"; cases "c \<le> 90"; cases "c < 97"; cases "c < 110"; cases "c \<le> 122")
        (auto dest!: le_Suc_ex simp: not_less)
    then show ?thesis by cases (simp_all add: rot13_halves, auto simp: rot13_char_def)
  qed
  then show ?thesis by (simp add: rot13_def comp_def)
qed

lemma hex_digit: "d < 16 \<Longrightarrow> is_hex (hex_digit d) \<and> hex_value (hex_digit d) = d \<and> hex_digit d < 128 \<and> hex_digit d \<noteq> 120"
  by (auto simp: is_hex_def hex_digit_def hex_value_def ascii_digit_def)

lemma byte_digits: "b < 256 \<Longrightarrow> b div 16 < 16" "b mod 16 < (16::nat)" "b div 16 * 16 + b mod 16 = (b::nat)"
  by (simp_all add: less_mult_imp_div_less)

lemma fromhex_encode: "\<forall>b \<in> set bs. b < 256 \<Longrightarrow> fromhex (hex_encode bs) = Some bs"
  by (induction bs) (simp_all add: hex_encode_def hex_digit byte_digits)

lemma percent_bytes_encode: "\<forall>b \<in> set bs. b < 256 \<Longrightarrow> percent_bytes (percent_encode bs) = bs"
  by (induction bs) (simp_all add: percent_encode_def hex_digit byte_digits)

lemma utf8_char_bytes:
  assumes "scalar c"
  shows "\<forall>b \<in> set (utf8_char c). b < 256"
proof -
  have "c div 262144 < 5" using assms by (intro less_mult_imp_div_less) (simp add: scalar_def)
  moreover have "c < 2048 \<Longrightarrow> c div 64 < 64" "c < 65536 \<Longrightarrow> c div 4096 < 32"
    by (intro less_mult_imp_div_less, simp)+
  moreover have "128 + x mod 64 < 256" for x :: nat
    using mod_less_divisor [of 64 x] by linarith
  ultimately show ?thesis by (simp add: utf8_char_def)
qed

lemma utf8_encode_bytes: "list_all scalar t \<Longrightarrow> \<forall>b \<in> set (utf8_encode t). b < 256"
  using utf8_char_bytes by (auto simp: utf8_encode_def list_all_iff)

section \<open>What the patterns find in a disguise\<close>

lemma searches_here: "match_at r s 0 = Some e \<Longrightarrow> searches r s"
  unfolding searches_def finditer_def by (subst find_from.simps) simp

lemma percent_ascii: "\<forall>b \<in> set bs. b < 256 \<Longrightarrow> \<forall>c \<in> set (percent_encode bs). c < 128"
  by (auto simp: percent_encode_def hex_digit byte_digits)

lemma unquote_ascii:
  assumes "\<forall>c \<in> set s. c < 128"
  shows "unquote s = utf8_replace (percent_bytes s)"
proof -
  have run: "takeWhile (\<lambda>c. c < 128) s = s" "dropWhile (\<lambda>c. c < 128) s = []" using assms by auto
  have "unquote [] = []" by (subst unquote.simps) simp
  moreover have "utf8_replace [] = []" by (subst utf8_replace_def, subst utf8_pieces.simps) simp
  moreover have "unquote s = (if s = [] then [] else utf8_replace (percent_bytes s) @ unquote [])"
    by (subst unquote.simps) (simp only: Let_def run takeWhile.simps dropWhile.simps append_Nil)
  ultimately show ?thesis by simp
qed

lemma percent_reading:
  assumes "list_all scalar t" and "t \<noteq> []"
  shows "percent_decoded (percent_encode (utf8_encode t)) = Some t"
proof -
  let ?bs = "utf8_encode t"
  have bytes: "\<forall>b \<in> set ?bs. b < 256" by (rule utf8_encode_bytes [OF assms(1)])
  obtain b bs where bs: "?bs = b # bs" using assms(2) by (cases t; cases ?bs) (auto simp: utf8_encode_def)
  have "match_at PERCENT_ESCAPE (percent_encode ?bs) 0 = Some 3"
    using bytes bs by (simp add: match_at_def PERCENT_ESCAPE_def sequence_def char_def percent_encode_def hex_digit byte_digits)
  from searches_here [OF this] show ?thesis
    using percent_bytes_encode [OF bytes] unquote_ascii [OF percent_ascii [OF bytes]] utf8_replace_encode [OF assms(1)]
    by (simp add: percent_decoded_def)
qed

lemma length_hex_encode: "length (hex_encode bs) = 2 * length bs"
  by (induction bs) (simp_all add: hex_encode_def)

lemma hex_encode_digits: "\<forall>b \<in> set bs. b < 256 \<Longrightarrow> \<forall>c \<in> set (hex_encode bs). is_hex c \<and> c \<noteq> 120"
  by (auto simp: hex_encode_def hex_digit byte_digits)

lemma hex_run_whole:
  assumes "\<forall>c \<in> set h. is_hex c \<and> c \<noteq> 120" and "length h = 2 * n" and "10 \<le> n"
  shows "h \<in> set (matches HEX_RUN h)"
proof -
  let ?pair = "Cat (Cls is_hex) (Cls is_hex)"
  have hex: "is_hex (h ! i)" "h ! i \<noteq> 120" if "i < length h" for i using assms(1) that by simp_all
  have "\<exists>rest. reps True (ends ?pair h) 10 (length h) 0 = (0 + n * 2) # rest"
  proof (rule reps_greedy)
    show "ends ?pair h (0 + k * 2) = [0 + Suc k * 2]" if "k < n" for k
      using hex(1) [of "2 * k"] hex(1) [of "2 * k + 1"] that assms(2) by (simp add: algebra_simps)
  qed (use assms(2,3) in simp_all)
  moreover have "ends (optional (text_of ''0x'')) h 0 = [0]"
    using hex(2) [of 1] assms(2,3)
    by (auto simp: optional_def text_of_def sequence_def char_def lit_def Let_def)
  ultimately have "match_at HEX_RUN h 0 = Some (length h)"
    using assms(2) by (auto simp: match_at_def HEX_RUN_def at_least_def)
  then show ?thesis by (rule finditer_whole) (use assms(2,3) in auto)
qed

lemma sextets:
  assumes "b < 256"
  shows "a mod 4 * 16 + b div 16 < (64::nat)" "a mod 16 * 4 + b div 64 < (64::nat)"
proof -
  have "b div 16 < 16" "b div 64 < 4" using assms by (simp_all add: less_mult_imp_div_less)
  moreover have "a mod 4 < 4" "a mod 16 < 16" by simp_all
  ultimately show "a mod 4 * 16 + b div 16 < 64" "a mod 16 * 4 + b div 64 < 64" by linarith+
qed

lemma base64_values_small: "\<forall>b \<in> set bs. b < 256 \<Longrightarrow> \<forall>v \<in> set (base64_values bs). v < 64"
proof (induction bs rule: base64_values.induct)
  case (2 a)
  then show ?case by (simp add: less_mult_imp_div_less)
next
  case (3 a b)
  then show ?case using sextets [of b a] by (simp add: less_mult_imp_div_less)
next
  case (4 a b c bs)
  then show ?case using sextets [of b a] sextets [of c b] by (simp add: less_mult_imp_div_less)
qed simp

lemma byte_parts:
  assumes "b < (256::nat)"
  shows "b div 16 div 16 = 0" "b div 16 mod 16 = b div 16" "b div 64 div 4 = 0" "b div 64 mod 4 = b div 64"
proof -
  have "b div 16 < 16" "b div 64 < 4" using assms by (simp_all add: less_mult_imp_div_less)
  then show "b div 16 div 16 = 0" "b div 16 mod 16 = b div 16" "b div 64 div 4 = 0" "b div 64 mod 4 = b div 64"
    by simp_all
qed

lemma base64_bytes_values: "\<forall>b \<in> set bs. b < 256 \<Longrightarrow> base64_bytes (base64_values bs) = Some bs"
  by (induction bs rule: base64_values.induct) (simp_all add: byte_parts)

lemma length_base64_values: "4 * length bs \<le> 3 * length (base64_values bs)"
  by (induction bs rule: base64_values.induct) simp_all

lemma base64_digit:
  "v < 64 \<Longrightarrow> base64_value (base64_digit v) = Some v \<and> is_base64 (base64_digit v) \<and> base64_digit v \<notin> {45, 95, 61}"
  by (auto simp: base64_digit_def base64_value_def is_base64_def ascii_digit_def ascii_letter_def)

lemma base64_run_whole:
  assumes "\<forall>c \<in> set ds. is_base64 c" and "20 \<le> length ds" and "p \<le> 2"
  shows "ds @ replicate p 61 \<in> set (matches BASE64_RUN (ds @ replicate p 61))"
proof -
  let ?s = "ds @ replicate p 61"
  have end_of_digits: "\<not> is_base64 61" by (simp add: is_base64_def ascii_letter_def ascii_digit_def)
  have "\<exists>rest. reps True (ends (Cls is_base64) ?s) 20 (length ?s) 0 = length ds # rest"
    by (rule reps_class_greedy) (use assms end_of_digits in \<open>auto simp: nth_append\<close>)
  moreover have "\<exists>rest. reps True (ends (char 61) ?s) 0 2 (length ds) = length ?s # rest"
    unfolding char_def by (rule reps_class_greedy) (use assms(3) in \<open>auto simp: nth_append\<close>)
  ultimately have "match_at BASE64_RUN ?s 0 = Some (length ?s)"
    by (auto simp: match_at_def BASE64_RUN_def at_least_def up_to_def)
  then show ?thesis by (rule finditer_whole) (use assms(2) in auto)
qed

lemma rstrip_digits:
  assumes "\<forall>c \<in> set ds. c \<noteq> 61"
  shows "rstrip_padding (ds @ replicate p 61) = ds"
proof -
  have "dropWhile (\<lambda>c. c = 61) (replicate p 61 @ xs) = dropWhile (\<lambda>c. c = 61) xs" for xs :: str
    by (induction p) simp_all
  moreover have "dropWhile (\<lambda>c. c = 61) (rev ds) = rev ds"
    using assms by (cases ds rule: rev_cases) simp_all
  ultimately show ?thesis by (simp add: rstrip_padding_def)
qed

lemma base64_encode_decoded:
  assumes "\<forall>b \<in> set bs. b < 256"
  shows "base64_decoded u (base64_encode bs) = printable u bs"
proof -
  let ?vs = "base64_values bs" and ?ds = "map base64_digit (base64_values bs)"
  have small: "\<forall>v \<in> set ?vs. v < 64" by (rule base64_values_small [OF assms])
  then have plain: "\<forall>c \<in> set ?ds. c \<notin> {45, 95, 61}" using base64_digit by auto
  then have "rstrip_padding (base64_encode bs) = ?ds" by (simp add: base64_encode_def rstrip_digits)
  moreover have "map (\<lambda>c. if c = 45 then 43 else if c = 95 then 47 else c) ?ds = ?ds"
    using plain by (intro map_idI) auto
  moreover have "b64decode ?ds = base64_bytes ?vs"
    using small base64_digit by (auto simp: b64decode_def list_ex_iff comp_def intro!: arg_cong [of _ _ base64_bytes] map_idI)
  ultimately show ?thesis
    by (simp only: base64_decoded_def Let_def base64_bytes_values [OF assms] option.case)
qed

section \<open>A disguised text is read\<close>

text \<open>What an encoded text needs to be recognised: enough of it, and mostly printable.\<close>

definition recognisable :: "unicode_db \<Rightarrow> disguise \<Rightarrow> str \<Rightarrow> bool" where
  "recognisable u d t \<longleftrightarrow> t \<noteq> [] \<and> (d = Rotated \<or> list_all scalar t
     \<and> (d = PercentEncoded \<or> 15 \<le> length (utf8_encode t) \<and> 4 * length t < 5 * length (filter (u_printable u) t)))"

lemma printable_text:
  assumes "list_all scalar t" and "t \<noteq> []" and "4 * length t < 5 * length (filter (u_printable u) t)"
  shows "printable u (utf8_encode t) = Some t"
  using assms by (simp add: printable_def utf8_round_trip)

lemma disguise_read:
  assumes "recognisable u d t"
  shows "t = disguised d t \<or> t \<in> set (alternative_readings u (disguised d t))"
proof (rule reading_first)
  show "t \<noteq> []" using assms by (simp add: recognisable_def)
  let ?bs = "utf8_encode t"
  show "Some t \<in> set (first_pass u (disguised d t))"
  proof (cases d)
    case Rotated
    then show ?thesis by (simp add: first_pass_def rot13_involution)
  next
    case PercentEncoded
    then show ?thesis using assms percent_reading by (simp add: first_pass_def recognisable_def)
  next
    case HexEncoded
    then have t: "list_all scalar t" "15 \<le> length ?bs" "printable u ?bs = Some t"
      using assms printable_text by (simp_all add: recognisable_def)
    note bytes = utf8_encode_bytes [OF t(1)] and digits = hex_encode_digits [OF utf8_encode_bytes [OF t(1)]]
    have "hex_encode ?bs \<in> set (matches HEX_RUN (hex_encode ?bs))"
      using digits by (rule hex_run_whole [where n = "length ?bs"]) (use t(2) in \<open>simp_all add: length_hex_encode\<close>)
    moreover have "hex_group (hex_encode ?bs) = hex_encode ?bs"
      using digits by (auto simp: hex_group_def prefix_def lit_def)
    then have "(hex_decoded u \<circ> hex_group) (hex_encode ?bs) = Some t"
      using fromhex_encode [OF bytes] t(3) by (simp add: hex_decoded_def)
    ultimately show ?thesis using HexEncoded unfolding first_pass_def by (force intro!: rev_image_eqI)
  next
    case Base64Encoded
    then have t: "list_all scalar t" "15 \<le> length ?bs" "printable u ?bs = Some t"
      using assms printable_text by (simp_all add: recognisable_def)
    note bytes = utf8_encode_bytes [OF t(1)]
    have "base64_encode ?bs \<in> set (matches BASE64_RUN (base64_encode ?bs))"
      unfolding base64_encode_def
    proof (rule base64_run_whole)
      show "\<forall>c \<in> set (map base64_digit (base64_values ?bs)). is_base64 c"
        using base64_values_small [OF bytes] base64_digit by auto
      show "20 \<le> length (map base64_digit (base64_values ?bs))" using t(2) length_base64_values [of ?bs] by simp
      show "(3 - length ?bs mod 3) mod 3 \<le> 2" using mod_less_divisor [of 3 "3 - length ?bs mod 3"] by linarith
    qed
    moreover have "base64_decoded u (base64_encode ?bs) = Some t"
      using base64_encode_decoded [OF bytes] t(3) by simp
    ultimately show ?thesis using Base64Encoded unfolding first_pass_def by (force intro!: rev_image_eqI)
  qed
qed

lemma utf8_encode_ascii: "\<forall>c \<in> set t. c < 128 \<Longrightarrow> utf8_encode t = t"
  by (induction t) (simp_all add: utf8_encode_def utf8_char_def)

lemma scalar_ascii: "\<forall>c \<in> set t. c < 128 \<Longrightarrow> list_all scalar t"
  by (auto simp: list_all_iff scalar_def)

section \<open>What is too short to be decoded\<close>

lemma runs_short:
  assumes "length s < 20"
  shows "finditer BASE64_RUN s = []" "finditer BASE64URL_RUN s = []" "finditer HEX_RUN s = []" "finditer HEX_ESCAPES s = []"
proof -
  have "ends (at_least 20 (Cls p)) s i = []" if "i \<le> length s" for p i
    by (rule at_least_short [where w = 1]) (use assms that in \<open>auto split: if_splits\<close>)
  then show "finditer BASE64_RUN s = []" "finditer BASE64URL_RUN s = []"
    by (auto intro!: finditer_empty simp: BASE64_RUN_def BASE64URL_RUN_def simp del: ends.simps) (simp_all add: ends.simps)
  show "finditer HEX_RUN s = []"
  proof (rule finditer_empty)
    fix i assume i: "i \<le> length s"
    have "ends (at_least 10 (Cat (Cls is_hex) (Cls is_hex))) s k = []" if "k \<in> set (ends (optional (text_of ''0x'')) s i)" for k
      by (rule at_least_short [where w = 2]) (use ends_bound [OF that] i assms in \<open>auto split: if_splits\<close>)
    then show "ends HEX_RUN s i = []" by (simp add: HEX_RUN_def del: ends.simps) (simp add: ends.simps(3))
  qed
  have "ends (at_least 6 (sequence [char 92, char 120, Cls is_hex, Cls is_hex])) s i = []" if "i \<le> length s" for i
    by (rule at_least_short [where w = 4]) (use assms that in \<open>auto simp: sequence_def char_def split: if_splits\<close>)
  then show "finditer HEX_ESCAPES s = []" by (auto intro!: finditer_empty simp: HEX_ESCAPES_def)
qed

lemma plain_short:
  assumes "\<forall>c \<in> set s. c \<noteq> 37 \<and> \<not> spacer c"
  shows "finditer PERCENT_ESCAPE s = []" "finditer (SPACED_LETTERS u) s = []"
proof -
  show "finditer PERCENT_ESCAPE s = []"
    using assms by (intro finditer_empty) (auto simp: PERCENT_ESCAPE_def sequence_def char_def dest: nth_mem)
  have none: "\<not> (k < length s \<and> spacer (s ! k))" for k using assms by (auto dest: nth_mem)
  show "finditer (SPACED_LETTERS u) s = []"
    by (intro finditer_empty) (simp add: SPACED_LETTERS_def sequence_def at_least_def Let_def reps_numeral none)
qed

text \<open>A text of base64 digits shorter than a run has no reading but its rotation.\<close>

lemma base64_plain:
  assumes "is_base64 c"
  shows "c \<noteq> 37" "\<not> spacer c" "\<not> INVISIBLE c" "confusable c = c" "rot13_char c \<noteq> 37" "\<not> spacer (rot13_char c)"
    "is_base64 (rot13_char c)"
proof -
  have c: "43 \<le> c \<and> c \<le> 122 \<and> c \<noteq> 45 \<and> c \<noteq> 46 \<and> c \<noteq> 95"
    using assms by (auto simp: is_base64_def ascii_letter_def ascii_digit_def)
  then show "c \<noteq> 37" "\<not> spacer c" by (auto simp: spacer_def)
  show "\<not> INVISIBLE c" using c by (auto simp: INVISIBLE_def)
  have "\<forall>k \<in> set (map fst CONFUSABLES). 122 < k" by (simp add: CONFUSABLES_def)
  then have "map_of CONFUSABLES c = None" using c by (auto simp: map_of_eq_None_iff)
  then show "confusable c = c" by (simp add: confusable_def)
  have r: "is_base64 (rot13_char c)"
  proof (cases "65 \<le> c \<and> c \<le> 90 \<or> 97 \<le> c \<and> c \<le> 122")
    case True
    moreover have "(c - 65 + 13) mod 26 < 26" "(c - 97 + 13) mod 26 < 26" by simp_all
    ultimately show ?thesis by (auto simp: rot13_char_def is_base64_def ascii_letter_def)
  qed (use assms in \<open>auto simp: rot13_char_def\<close>)
  then show "is_base64 (rot13_char c)" .
  from r have "43 \<le> rot13_char c \<and> rot13_char c \<noteq> 45 \<and> rot13_char c \<noteq> 46 \<and> rot13_char c \<noteq> 95"
    by (auto simp: is_base64_def ascii_letter_def ascii_digit_def)
  then show "rot13_char c \<noteq> 37" "\<not> spacer (rot13_char c)" by (auto simp: spacer_def)
qed

lemma short_base64_readings:
  assumes "\<forall>c \<in> set s. is_base64 c" and "length s < 20" and "u_nfkc u s = s"
  shows "set (alternative_readings u s) \<subseteq> {rot13 s}"
proof -
  have same: "without_unicode_tricks u s = s"
    using assms(1,3) base64_plain(3,4) by (simp add: without_unicode_tricks_def filter_id_conv map_idI)
  have "finditer PERCENT_ESCAPE s = []" "finditer (SPACED_LETTERS u) s = []"
    using plain_short assms(1) base64_plain(1,2) by blast+
  then have first: "offered s (first_pass u s) \<subseteq> {rot13 s}"
    using runs_short [OF assms(2)] same
    by (auto simp: first_pass_def matches_def percent_decoded_def unspaced_def searches_def)
  have "length (rot13 s) < 20" using assms(2) by (simp add: rot13_def)
  moreover have "\<forall>c \<in> set (rot13 s). c \<noteq> 37 \<and> \<not> spacer c"
    using assms(1) base64_plain(5,6) by (auto simp: rot13_def)
  then have "finditer PERCENT_ESCAPE (rot13 s) = []" by (rule plain_short)
  ultimately have "offered s (second_pass u (rot13 s)) = {}"
    using runs_short by (simp add: second_pass_def matches_def percent_decoded_def searches_def)
  then show ?thesis using first by (fastforce simp: set_readings)
qed

end
