(* ===== verification/Tools.thy ===== *)
theory Tools
  imports Urls
begin

text \<open>
  The tool registry and the argument checks of \<^verbatim>\<open>tools.py\<close>. The argument models are strict
  and closed: a field of another type, a missing field or an extra field is refused. The SQL
  parser is \<^verbatim>\<open>sqlglot\<close>, outside the repository: it is the argument \<open>sql_parse\<close>.
\<close>

section \<open>Argument models\<close>

datatype argument_model =
    SearchDocumentsArguments | ExecuteSqlArguments | SendEmailArguments | UpdateRecordArguments
  | DeleteRecordArguments | ReadFileArguments | FetchUrlArguments | RunCodeArguments

text \<open>The validated arguments of each model.\<close>

datatype arguments =
    SearchDocuments str "int option"
  | ExecuteSql str "int option"
  | SendEmail str str str
  | UpdateRecord str "(str \<times> py_value) list"
  | DeleteRecord str
  | ReadFile str
  | FetchUrl str str
  | RunCode str str bool

type_synonym fields = "(str \<times> py_value) list"

definition only_fields :: "string list \<Rightarrow> fields \<Rightarrow> bool" where
  "only_fields names args \<longleftrightarrow> set (map fst args) \<subseteq> set (map lit names)"

text \<open>A required string field within bounds, of which \<open>ok\<close> holds.\<close>

definition str_field :: "fields \<Rightarrow> string \<Rightarrow> nat \<Rightarrow> nat \<Rightarrow> (str \<Rightarrow> bool) \<Rightarrow> str option" where
  "str_field args name lo hi ok =
     (case map_of args (lit name) of
        Some (PStr s) \<Rightarrow> if sized lo hi s \<and> ok s then Some s else None
      | _ \<Rightarrow> None)"

text \<open>\<^verbatim>\<open>int | None\<close> with default \<^verbatim>\<open>None\<close>; strict mode takes no boolean for an integer.\<close>

definition limit_field :: "fields \<Rightarrow> int \<Rightarrow> int option option" where
  "limit_field args hi =
     (case map_of args (lit ''limit'') of
        None \<Rightarrow> Some None
      | Some PNone \<Rightarrow> Some None
      | Some (PInt n) \<Rightarrow> if 1 \<le> n \<and> n \<le> hi then Some (Some n) else None
      | _ \<Rightarrow> None)"

fun is_scalar :: "py_value \<Rightarrow> bool" where
  "is_scalar (PList xs) = False"
| "is_scalar (PDict kvs) = False"
| "is_scalar _ = True"

definition changes_field :: "fields \<Rightarrow> fields option" where
  "changes_field args =
     (case map_of args (lit ''changes'') of
        None \<Rightarrow> Some []
      | Some (PDict kvs) \<Rightarrow> if length kvs \<le> 50 \<and> list_all (is_scalar \<circ> snd) kvs then Some kvs else None
      | _ \<Rightarrow> None)"

definition bool_field :: "fields \<Rightarrow> string \<Rightarrow> bool option" where
  "bool_field args name =
     (case map_of args (lit name) of None \<Rightarrow> Some False | Some (PBool b) \<Rightarrow> Some b | _ \<Rightarrow> None)"

definition record_id_ok :: "str \<Rightarrow> bool" where
  "record_id_ok s \<longleftrightarrow> s \<noteq> [] \<and> name_chars ''_.:-'' s"

definition email_part :: "unicode_db \<Rightarrow> regex" where
  "email_part u = Rep True 1 None (Cls (\<lambda>c. \<not> (c = 64 \<or> u_space u c \<or> c = 44 \<or> c = 59)))"

definition email_ok :: "unicode_db \<Rightarrow> str \<Rightarrow> bool" where
  "email_ok u = fullmatch (Cat (email_part u) (Cat (Cls (\<lambda>c. c = 64)) (Cat (email_part u)
     (Cat (Cls (\<lambda>c. c = 46)) (email_part u)))))"

definition both :: "'a option \<Rightarrow> 'b option \<Rightarrow> ('a \<Rightarrow> 'b \<Rightarrow> 'c) \<Rightarrow> 'c option" where
  "both a b f = (case (a, b) of (Some x, Some y) \<Rightarrow> Some (f x y) | _ \<Rightarrow> None)"

fun model_validate :: "unicode_db \<Rightarrow> argument_model \<Rightarrow> fields \<Rightarrow> arguments option" where
  "model_validate u SearchDocumentsArguments args =
     (if only_fields [''q'', ''limit''] args
      then both (str_field args ''q'' 1 500 (\<lambda>_. True)) (limit_field args 100) SearchDocuments
      else None)"
| "model_validate u ExecuteSqlArguments args =
     (if only_fields [''query'', ''limit''] args
      then both (str_field args ''query'' 1 10000 (\<lambda>_. True)) (limit_field args 10000) ExecuteSql
      else None)"
| "model_validate u SendEmailArguments args =
     (if only_fields [''to'', ''subject'', ''body''] args
      then both (str_field args ''to'' 0 320 (email_ok u))
        (both (str_field args ''subject'' 1 200 (\<lambda>_. True)) (str_field args ''body'' 1 20000 (\<lambda>_. True)) Pair)
        (\<lambda>recipient (subject, body). SendEmail recipient subject body)
      else None)"
| "model_validate u UpdateRecordArguments args =
     (if only_fields [''record_id'', ''changes''] args
      then both (str_field args ''record_id'' 1 100 record_id_ok) (changes_field args) UpdateRecord
      else None)"
| "model_validate u DeleteRecordArguments args =
     (if only_fields [''record_id''] args
      then map_option DeleteRecord (str_field args ''record_id'' 1 100 record_id_ok)
      else None)"
| "model_validate u ReadFileArguments args =
     (if only_fields [''path''] args
      then map_option ReadFile (str_field args ''path'' 1 1024 (\<lambda>_. True))
      else None)"
| "model_validate u FetchUrlArguments args =
     (if only_fields [''url'', ''method''] args \<and> map_of args (lit ''method'') \<in> {None, Some (PStr (lit ''GET''))}
      then map_option (\<lambda>url. FetchUrl url (lit ''GET'')) (str_field args ''url'' 1 2048 (\<lambda>_. True))
      else None)"
| "model_validate u RunCodeArguments args =
     (if only_fields [''language'', ''code'', ''network''] args
         \<and> map_of args (lit ''language'') = Some (PStr (lit ''python''))
      then both (str_field args ''code'' 1 20000 (\<lambda>_. True)) (bool_field args ''network'')
        (RunCode (lit ''python''))
      else None)"

section \<open>The registry\<close>

record tool_spec =
  ts_effects :: "side_effect set"
  ts_arguments :: argument_model
  ts_roles :: "role set"

definition READERS :: "role set" where "READERS = {CALLER, OPERATOR}"

definition OPERATORS :: "role set" where "OPERATORS = {OPERATOR}"

definition TOOLS :: "(str \<times> tool_spec) list" where
  "TOOLS =
    [(lit ''search_documents'',
        \<lparr>ts_effects = {SE_NONE, SE_READ}, ts_arguments = SearchDocumentsArguments, ts_roles = READERS\<rparr>),
     (lit ''execute_sql'', \<lparr>ts_effects = {SE_READ}, ts_arguments = ExecuteSqlArguments, ts_roles = READERS\<rparr>),
     (lit ''read_file'', \<lparr>ts_effects = {SE_READ}, ts_arguments = ReadFileArguments, ts_roles = READERS\<rparr>),
     (lit ''send_email'', \<lparr>ts_effects = {SE_EXTERNAL}, ts_arguments = SendEmailArguments, ts_roles = OPERATORS\<rparr>),
     (lit ''fetch_url'', \<lparr>ts_effects = {SE_EXTERNAL}, ts_arguments = FetchUrlArguments, ts_roles = OPERATORS\<rparr>),
     (lit ''update_record'', \<lparr>ts_effects = {SE_WRITE}, ts_arguments = UpdateRecordArguments, ts_roles = OPERATORS\<rparr>),
     (lit ''delete_record'',
        \<lparr>ts_effects = {SE_DESTRUCTIVE}, ts_arguments = DeleteRecordArguments, ts_roles = OPERATORS\<rparr>),
     (lit ''run_code'',
        \<lparr>ts_effects = {SE_NONE, SE_EXTERNAL}, ts_arguments = RunCodeArguments, ts_roles = OPERATORS\<rparr>)]"

definition CODE_TOOL :: str where "CODE_TOOL = lit ''run_code''"

definition validate_arguments :: "unicode_db \<Rightarrow> tool_spec \<Rightarrow> fields \<Rightarrow> arguments option" where
  "validate_arguments u spec args = model_validate u (ts_arguments spec) args"

section \<open>SQL\<close>

text \<open>
  A parsed statement is a tree of nodes, each with the class that the checks ask about: the
  first of the named classes the node is an instance of, \<open>SqlOther\<close> when it is of none.
\<close>

datatype sql_class =
    SqlSelect | SqlSetOperation | SqlInsert | SqlUpdate | SqlDelete | SqlMerge | SqlDrop | SqlCreate
  | SqlAlter | SqlTruncateTable | SqlCopy | SqlCommand | SqlInto | SqlLock | SqlSet | SqlTransaction
  | SqlCommit | SqlRollback | SqlGrant | SqlAnonymous | SqlOther

datatype sql_node = SqlNode sql_class "sql_node list"

fun node_classes :: "sql_node \<Rightarrow> sql_class list" where
  "node_classes (SqlNode c children) = c # concat (map node_classes children)"

fun root_class :: "sql_node \<Rightarrow> sql_class" where
  "root_class (SqlNode c children) = c"

definition SQL_FORBIDDEN_NODES :: "sql_class set" where
  "SQL_FORBIDDEN_NODES = {SqlInsert, SqlUpdate, SqlDelete, SqlMerge, SqlDrop, SqlCreate, SqlAlter,
     SqlTruncateTable, SqlCopy, SqlCommand, SqlInto, SqlLock, SqlSet, SqlTransaction, SqlCommit,
     SqlRollback, SqlGrant}"

text \<open>\<^verbatim>\<open>sqlglot.parse\<close>: \<open>None\<close> for a \<^verbatim>\<open>SqlglotError\<close>, else the statements, some empty.\<close>

type_synonym sql_parser = "str \<Rightarrow> sql_node option list option"

definition sql_violation :: "sql_parser \<Rightarrow> str \<Rightarrow> str option" where
  "sql_violation sql_parse query =
     (case sql_parse query of
        None \<Rightarrow> Some (lit ''invalid_sql_arguments'')
      | Some statements \<Rightarrow>
          (case statements of
             [Some statement] \<Rightarrow>
               if root_class statement \<notin> {SqlSelect, SqlSetOperation} then Some (lit ''sql_not_read_only'')
               else if list_ex (\<lambda>c. c \<in> SQL_FORBIDDEN_NODES) (node_classes statement)
               then Some (lit ''sql_not_read_only'')
               else if SqlAnonymous \<in> set (node_classes statement) then Some (lit ''sql_function_not_allowed'')
               else None
           | _ \<Rightarrow> if \<not> list_ex (\<lambda>st. st \<noteq> None) statements then Some (lit ''invalid_sql_arguments'')
                  else Some (lit ''sql_not_read_only'')))"

end
