(* ===== verification/Sensitive.thy ===== *)
theory Sensitive
  imports Pyregex Config "HOL-Library.Product_Lexorder"
begin

text \<open>
  What happens to sensitive values, \<^verbatim>\<open>sensitive.py\<close>: the rule of each category, the
  pseudonym vault, and the replacement of located values in the content. The vault's contract
  is the locale \<open>pseudonym_vault\<close>, interpreted by the in-memory adapter.
\<close>

section \<open>Categories and rules\<close>

definition is_sensitive :: "str \<Rightarrow> bool" where
  "is_sensitive category \<longleftrightarrow> category = lit ''secret'' \<or> prefix (lit ''pii_'') category"

definition removeprefix :: "str \<Rightarrow> str \<Rightarrow> str" where
  "removeprefix p s = (if prefix p s then drop (length p) s else s)"

definition label :: "unicode_db \<Rightarrow> str \<Rightarrow> str" where
  "label u category = u_upper u (removeprefix (lit ''pii_'') category)"

text \<open>The tenant's rule for a category, else the deployment's, else redaction.\<close>

definition action_resolver :: "settings \<Rightarrow> str \<Rightarrow> str \<Rightarrow> entity_action" where
  "action_resolver s tenant_id category =
     (let tenant_rules = (case map_of (tenant_entity_actions s) tenant_id of None \<Rightarrow> [] | Some r \<Rightarrow> r)
      in case map_of tenant_rules category of
           Some a \<Rightarrow> a
         | None \<Rightarrow> (case map_of (sensitive_entity_actions s) category of
                      Some a \<Rightarrow> a | None \<Rightarrow> EA_REDACT))"

text \<open>Under accepted settings a secret is redacted or denied, whatever the tenant.\<close>

lemma secret_rule:
  assumes "validate_settings s = Inr s"
  shows "action_resolver s tenant (lit ''secret'') \<in> {EA_REDACT, EA_DENY}"
proof (cases "map_of (tenant_entity_actions s) tenant")
  case None
  then show ?thesis
    using validated_secret_rule [OF assms, of "sensitive_entity_actions s"]
    by (auto simp: action_resolver_def split: option.splits)
next
  case (Some rule)
  then have "(tenant, rule) \<in> set (tenant_entity_actions s)" by (rule map_of_SomeD)
  then show ?thesis
    using validated_secret_rule [OF assms, of "sensitive_entity_actions s"]
      validated_secret_rule [OF assms, of rule tenant] Some
    by (auto simp: action_resolver_def split: option.splits)
qed

section \<open>Replacing located values\<close>

type_synonym span = "nat \<times> nat \<times> str \<times> entity_action"

text \<open>The spans of findings that have a place and a category whose rule transforms it.\<close>

definition span_of :: "(str \<Rightarrow> entity_action) \<Rightarrow> finding \<Rightarrow> span list" where
  "span_of action_of f =
     (let category = ev_category (fi_evidence f) in
      case (fi_start f, fi_end f) of
        (Some a, Some b) \<Rightarrow>
          if \<not> is_sensitive category then []
          else if action_of category \<in> {EA_REDACT, EA_PSEUDONYMIZE}
          then [(a, b, category, action_of category)] else []
      | _ \<Rightarrow> [])"

definition spans_of :: "(str \<Rightarrow> entity_action) \<Rightarrow> finding list \<Rightarrow> span list" where
  "spans_of action_of findings = concat (map (span_of action_of) findings)"

text \<open>
  Join overlapping spans. The first argument is the span held last, \<^verbatim>\<open>merged[-1]\<close>; where
  two rules disagree the irreversible one wins.
\<close>

fun merged_from :: "span \<Rightarrow> span list \<Rightarrow> span list" where
  "merged_from held [] = [held]"
| "merged_from (hs, he, hc, ha) ((a, b, c, act) # rest) =
     (if a < he
      then merged_from (hs, max b he, hc,
             if EA_REDACT \<in> {act, ha} then EA_REDACT else act) rest
      else (hs, he, hc, ha) # merged_from (a, b, c, act) rest)"

definition span_order :: "span \<Rightarrow> int \<times> int" where
  "span_order sp = (int (fst sp), - int (fst (snd sp)))"

definition merged :: "span list \<Rightarrow> span list" where
  "merged spans = (case sort_key span_order spans of [] \<Rightarrow> [] | h # t \<Rightarrow> merged_from h t)"

definition redacted_label :: "unicode_db \<Rightarrow> str \<Rightarrow> str" where
  "redacted_label u category = lit ''[REDACTED_'' @ label u category @ lit '']''"

text \<open>
  The loop over the merged spans, from a cursor. The tokenizer is the vault's: it is given a
  category and a value, and threads the vault's state.
\<close>

fun replace_spans ::
  "unicode_db \<Rightarrow> ('v \<Rightarrow> str \<Rightarrow> str \<Rightarrow> py_error + str \<times> 'v) \<Rightarrow> str \<Rightarrow> 'v \<Rightarrow> nat \<Rightarrow> span list
    \<Rightarrow> py_error + str \<times> 'v" where
  "replace_spans u tokenize content v cursor [] = Inr (drop cursor content, v)"
| "replace_spans u tokenize content v cursor ((a, b, category, action) # rest) =
     (case (if action = EA_PSEUDONYMIZE then tokenize v category (py_slice content a b)
            else Inr (redacted_label u category, v)) of
        Inl e \<Rightarrow> Inl e
      | Inr (piece, v') \<Rightarrow>
          (case replace_spans u tokenize content v' b rest of
             Inl e \<Rightarrow> Inl e
           | Inr (out, v'') \<Rightarrow> Inr (py_slice content cursor a @ piece @ out, v'')))"

definition transform_content ::
  "unicode_db \<Rightarrow> str \<Rightarrow> finding list \<Rightarrow> (str \<Rightarrow> entity_action)
    \<Rightarrow> ('v \<Rightarrow> str \<Rightarrow> str \<Rightarrow> py_error + str \<times> 'v) \<Rightarrow> 'v \<Rightarrow> py_error + str \<times> 'v" where
  "transform_content u content findings action_of tokenize v =
     replace_spans u tokenize content v 0 (merged (spans_of action_of findings))"

lemma replace_spans_total:
  assumes "\<And>v c x. ok v \<Longrightarrow> returns (tokenize v c x) (\<lambda>(t, v'). ok v')" and "ok v"
  shows "returns (replace_spans u tokenize content v cursor sps) (\<lambda>(out, v'). ok v')"
  using assms(2)
proof (induction sps arbitrary: v cursor)
  case (Cons sp sps)
  obtain a b c act where sp: "sp = (a, b, c, act)" by (cases sp) auto
  have piece: "returns (if act = EA_PSEUDONYMIZE then tokenize v c (py_slice content a b)
      else Inr (redacted_label u c, v)) (\<lambda>(t, v'). ok v')"
    using assms(1) [OF Cons.prems] Cons.prems by simp
  show ?case
    unfolding sp replace_spans.simps
  proof (rule returns_bind [OF piece], clarify)
    fix t v' assume "ok v'"
    from Cons.IH [OF this, of b]
    show "returns (case replace_spans u tokenize content v' b sps of Inl e \<Rightarrow> Inl e
        | Inr (out, v'') \<Rightarrow> Inr (py_slice content cursor a @ t @ out, v'')) (\<lambda>(out, v'). ok v')"
      by (rule returns_bind) auto
  qed
qed simp

subsection \<open>The merged spans\<close>

definition covers :: "span list \<Rightarrow> nat \<Rightarrow> bool" where
  "covers sps i \<longleftrightarrow> (\<exists>(a, b, c, act) \<in> set sps. a \<le> i \<and> i < b)"

lemma covers_simps [simp]:
  "covers [] i = False"
  "covers ((a, b, c, act) # sps) i = (a \<le> i \<and> i < b \<or> covers sps i)"
  by (auto simp: covers_def)

text \<open>\<open>apart n sps\<close>: from position \<open>n\<close> on, the spans are in order and do not overlap.\<close>

fun apart :: "nat \<Rightarrow> span list \<Rightarrow> bool" where
  "apart n [] = True"
| "apart n ((a, b, c, act) # sps) = (n \<le> a \<and> a \<le> b \<and> apart b sps)"

fun starts_sorted :: "nat \<Rightarrow> span list \<Rightarrow> bool" where
  "starts_sorted n [] = True"
| "starts_sorted n ((a, b, c, act) # sps) = (n \<le> a \<and> a \<le> b \<and> starts_sorted a sps)"

lemma starts_sorted_mono: "starts_sorted n sps \<Longrightarrow> m \<le> n \<Longrightarrow> starts_sorted m sps"
  by (cases sps) auto

lemma apart_mono: "apart n sps \<Longrightarrow> m \<le> n \<Longrightarrow> apart m sps"
  by (cases sps) auto

lemma merged_from_apart:
  "starts_sorted hs rest \<Longrightarrow> n \<le> hs \<Longrightarrow> hs \<le> he \<Longrightarrow> apart n (merged_from (hs, he, hc, ha) rest)"
proof (induction "(hs, he, hc, ha)" rest arbitrary: n hs he hc ha rule: merged_from.induct)
  case (2 hs he hc ha a b c act rest)
  show ?case
  proof (cases "a < he")
    case True
    have "starts_sorted hs rest" using 2(3) starts_sorted_mono by auto
    then show ?thesis using 2(1) [OF True, of n] 2(4,5) True by simp
  next
    case False
    then show ?thesis using 2(2) [OF False, of he] 2(3-5) by simp
  qed
qed simp

lemma merged_from_covers:
  "starts_sorted hs rest \<Longrightarrow>
   covers (merged_from (hs, he, hc, ha) rest) i = covers ((hs, he, hc, ha) # rest) i"
proof (induction "(hs, he, hc, ha)" rest arbitrary: hs he hc ha rule: merged_from.induct)
  case (2 hs he hc ha a b c act rest)
  show ?case
  proof (cases "a < he")
    case True
    have "starts_sorted hs rest" using 2(3) starts_sorted_mono by auto
    then show ?thesis using 2(1) [OF True] 2(3) True by auto
  next
    case False
    then show ?thesis using 2(2) [OF False] 2(3) by simp
  qed
qed simp

definition spans_ok :: "nat \<Rightarrow> span list \<Rightarrow> bool" where
  "spans_ok n sps \<longleftrightarrow> (\<forall>(a, b, c, act) \<in> set sps. a \<le> b \<and> b \<le> n)"

lemma sorted_spans:
  assumes "spans_ok n sps"
  shows "starts_sorted 0 (sort_key span_order sps)"
proof -
  have "starts_sorted m ys"
    if "sorted (map span_order ys)" "\<forall>y \<in> set ys. m \<le> fst y" "spans_ok n ys" for ys m
    using that
  proof (induction ys arbitrary: m)
    case (Cons y ys)
    have "\<forall>z \<in> set ys. fst y \<le> fst z"
      using Cons.prems(1) by (auto simp: span_order_def less_eq_prod_def)
    moreover have "spans_ok n ys" using Cons.prems(3) by (simp add: spans_ok_def)
    ultimately have "starts_sorted (fst y) ys" using Cons by simp
    then show ?case using Cons.prems by (cases y) (auto simp: spans_ok_def)
  qed simp
  then show ?thesis using assms by (simp add: spans_ok_def)
qed

lemma merged_ok:
  assumes "spans_ok n sps"
  shows "apart 0 (merged sps)" and "covers (merged sps) i = covers sps i"
proof -
  let ?s = "sort_key span_order sps"
  have srt: "starts_sorted 0 ?s" using sorted_spans [OF assms] .
  have "covers ?s i = covers sps i" by (simp add: covers_def)
  moreover have "apart 0 (merged sps) \<and> covers (merged sps) i = covers ?s i"
  proof (cases ?s)
    case (Cons h t)
    obtain a b c act where h: "h = (a, b, c, act)" by (cases h) auto
    have "starts_sorted a t" "a \<le> b" using srt Cons h by auto
    then show ?thesis
      using merged_from_apart [of a t 0 b] merged_from_covers [of a t] Cons h
      by (simp add: merged_def)
  qed (simp add: merged_def)
  ultimately show "apart 0 (merged sps)" "covers (merged sps) i = covers sps i" by blast+
qed


definition redacted_part :: "span list \<Rightarrow> span list" where
  "redacted_part sps = filter (\<lambda>(a, b, c, act). act = EA_REDACT) sps"

lemma redacted_part_simps [simp]:
  "redacted_part [] = []"
  "redacted_part ((a, b, c, act) # sps) =
     (if act = EA_REDACT then (a, b, c, act) # redacted_part sps else redacted_part sps)"
  by (simp_all add: redacted_part_def)

lemma merged_from_redacted:
  "starts_sorted hs rest \<Longrightarrow> covers (redacted_part ((hs, he, hc, ha) # rest)) i \<Longrightarrow>
   covers (redacted_part (merged_from (hs, he, hc, ha) rest)) i"
proof (induction "(hs, he, hc, ha)" rest arbitrary: hs he hc ha rule: merged_from.induct)
  case (2 hs he hc ha a b c act rest)
  show ?case
  proof (cases "a < he")
    case True
    have "starts_sorted hs rest" using 2(3) starts_sorted_mono by auto
    then show ?thesis
      using 2(1) [OF True] 2(3,4) True by (auto simp: less_max_iff_disj split: if_splits)
  next
    case False
    then show ?thesis using 2(2) [OF False] 2(3,4) by (auto split: if_splits)
  qed
qed simp

text \<open>A position some rule redacts is redacted whatever overlaps it.\<close>

lemma merged_redacted:
  assumes "spans_ok n sps" and "covers (redacted_part sps) i"
  shows "covers (redacted_part (merged sps)) i"
proof -
  let ?s = "sort_key span_order sps"
  have srt: "starts_sorted 0 ?s" using sorted_spans [OF assms(1)] .
  have cov: "covers (redacted_part ?s) i"
    using assms(2) by (simp add: covers_def redacted_part_def)
  show ?thesis
  proof (cases ?s)
    case Nil then show ?thesis using cov by simp
  next
    case (Cons h t)
    obtain a b c act where h: "h = (a, b, c, act)" by (cases h) auto
    have "starts_sorted a t" using srt Cons h by simp
    with merged_from_redacted [OF this] cov Cons h show ?thesis
      by (simp add: merged_def del: redacted_part_simps)
  qed
qed

text \<open>The category of a merged span is one of the spans', and so is a common action.\<close>

lemma merged_from_members:
  "(a, b, c, act) \<in> set (merged_from h rest) \<Longrightarrow>
     (\<exists>(_, _, c', _) \<in> set (h # rest). c' = c)
     \<and> (act = EA_REDACT \<or> (\<exists>(_, _, _, act') \<in> set (h # rest). act' = act))"
proof (induction h rest rule: merged_from.induct)
  case (2 hs he hc ha a' b' c' act' rest)
  then show ?case by (fastforce split: if_splits)
qed auto

lemma merged_members:
  assumes "(a, b, c, act) \<in> set (merged sps)"
  shows "\<exists>(_, _, c', _) \<in> set sps. c' = c"
    and "act = EA_REDACT \<or> (\<exists>(_, _, _, act') \<in> set sps. act' = act)"
proof -
  let ?s = "sort_key span_order sps"
  have set_s: "set ?s = set sps" by simp
  obtain h t where ht: "?s = h # t" using assms by (cases ?s) (auto simp: merged_def)
  then have "set (h # t) = set sps" using set_s by simp
  moreover have "(a, b, c, act) \<in> set (merged_from h t)" using assms ht by (simp add: merged_def)
  ultimately show "\<exists>(_, _, c', _) \<in> set sps. c' = c"
    and "act = EA_REDACT \<or> (\<exists>(_, _, _, act') \<in> set sps. act' = act)"
    using merged_from_members [of a b c act h t] by auto
qed

lemma apart_covers: "apart n sps \<Longrightarrow> covers sps i \<Longrightarrow> n \<le> i"
  by (induction n sps rule: apart.induct) fastforce+

lemma redacted_part_covers: "covers (redacted_part sps) i \<Longrightarrow> covers sps i"
  by (auto simp: covers_def redacted_part_def)

lemma py_slice_cong:
  assumes "length s = length t" and "\<And>i. a \<le> i \<Longrightarrow> i < b \<Longrightarrow> i < length s \<Longrightarrow> s ! i = t ! i"
  shows "py_slice s a b = py_slice t a b"
  using assms by (intro nth_equalityI) (auto simp: py_slice_def)

lemma replace_spans_noninterference:
  assumes "apart n sps" and "length s = length t"
    and "\<And>i. n \<le> i \<Longrightarrow> i < length s \<Longrightarrow> \<not> covers (redacted_part sps) i \<Longrightarrow> s ! i = t ! i"
  shows "replace_spans u tok s v n sps = replace_spans u tok t v n sps"
  using assms
proof (induction sps arbitrary: n v)
  case Nil
  have "drop n s = drop n t" using Nil by (intro nth_equalityI) auto
  then show ?case by simp
next
  case (Cons sp sps)
  obtain a b c act where sp: "sp = (a, b, c, act)" by (cases sp) auto
  have ap: "n \<le> a" "a \<le> b" "apart b sps" using Cons.prems(1) sp by auto
  have later: "b \<le> i" if "covers (redacted_part sps) i" for i
    using apart_covers [OF ap(3)] redacted_part_covers [OF that] by blast
  have agree: "s ! i = t ! i" if "n \<le> i" "i < length s" "\<not> (act = EA_REDACT \<and> a \<le> i \<and> i < b)"
    "\<not> covers (redacted_part sps) i" for i
    using Cons.prems(3) [of i] that sp by (auto split: if_splits)
  have gap: "py_slice s n a = py_slice t n a"
    using later ap by (intro py_slice_cong Cons.prems(2) agree) force+
  have inner: "py_slice s a b = py_slice t a b" if "act = EA_PSEUDONYMIZE"
    using later ap that by (intro py_slice_cong Cons.prems(2) agree) force+
  have rest: "replace_spans u tok s v' b sps = replace_spans u tok t v' b sps" for v'
    using ap by (intro Cons.IH Cons.prems(2) agree) auto
  show ?case using gap inner rest sp by (simp split: sum.splits prod.splits)
qed

definition located_in :: "str \<Rightarrow> finding list \<Rightarrow> bool" where
  "located_in content findings \<longleftrightarrow>
     (\<forall>f \<in> set findings. \<forall>a b. fi_start f = Some a \<longrightarrow> fi_end f = Some b \<longrightarrow> a \<le> b \<and> b \<le> length content)"

lemma located_spans_ok:
  assumes "located_in content findings"
  shows "spans_ok (length content) (spans_of r findings)"
proof -
  have "a \<le> b \<and> b \<le> length content" if "f \<in> set findings" "(a, b, c, act) \<in> set (span_of r f)" for f a b c act
  proof -
    have "fi_start f = Some a" "fi_end f = Some b"
      using that(2) by (auto simp: span_of_def Let_def split: option.splits if_splits)
    then show ?thesis using assms that(1) by (simp add: located_in_def)
  qed
  then show ?thesis by (auto simp: spans_ok_def spans_of_def)
qed

section \<open>What redaction hides\<close>

text \<open>
  C6: A value whose rule is redact never influences what the rewriting returns. Take two
  contents of the same length that agree wherever no located finding with a redact rule lies,
  whatever other findings overlap those places, pseudonymised ones included: the rewritten
  contents are equal, and so is everything that was handed to the tokenizer, since the state it
  leaves is equal for every tokenizer.
\<close>

theorem redaction_noninterference:
  assumes "length s = length t" and "located_in s findings"
    and "\<And>i. i < length s \<Longrightarrow> \<not> covers (redacted_part (spans_of r findings)) i \<Longrightarrow> s ! i = t ! i"
  shows "transform_content u s findings r tokenize v = transform_content u t findings r tokenize v"
  unfolding transform_content_def
proof (rule replace_spans_noninterference [OF _ assms(1)])
  have ok: "spans_ok (length s) (spans_of r findings)" by (rule located_spans_ok [OF assms(2)])
  show "apart 0 (merged (spans_of r findings))" by (rule merged_ok [OF ok])
  show "s ! i = t ! i"
    if "0 \<le> i" "i < length s" "\<not> covers (redacted_part (merged (spans_of r findings))) i" for i
    using assms(3) [OF that(2)] merged_redacted [OF ok] that(3) by blast
qed

definition example_evidence :: "string \<Rightarrow> evidence" where
  "example_evidence category = \<lparr>ev_detector = lit ''rules'', ev_version = lit ''1'',
     ev_category = lit category, ev_score = 1, ev_threshold = 1, ev_redacted_excerpt = [],
     ev_explanation = lit ''matched''\<rparr>"

definition example_finding :: "string \<Rightarrow> nat \<Rightarrow> nat \<Rightarrow> finding" where
  "example_finding category a b =
     \<lparr>fi_evidence = example_evidence category, fi_start = Some a, fi_end = Some b\<rparr>"

theorem redaction_noninterference_witness:
  "transform_content ascii_db (lit ''key abcd!'') [example_finding ''secret'' 4 8]
       (\<lambda>_. EA_REDACT) (\<lambda>v c x. Inr (x, v @ [x])) []
   = transform_content ascii_db (lit ''key wxyz!'') [example_finding ''secret'' 4 8]
       (\<lambda>_. EA_REDACT) (\<lambda>v c x. Inr (x, v @ [x])) []"
proof (rule redaction_noninterference)
  show "located_in (lit ''key abcd!'') [example_finding ''secret'' 4 8]"
    by (simp add: located_in_def example_finding_def)
  show "lit ''key abcd!'' ! i = lit ''key wxyz!'' ! i"
    if "i < length (lit ''key abcd!'')"
      "\<not> covers (redacted_part (spans_of (\<lambda>_. EA_REDACT) [example_finding ''secret'' 4 8])) i" for i
  proof -
    have "i < 4 \<or> i = 8"
      using that by (simp add: spans_of_def span_of_def example_finding_def example_evidence_def
          is_sensitive_def Let_def) arith
    then consider "i = 0" | "i = 1" | "i = 2" | "i = 3" | "i = 8" by linarith
    then show ?thesis by cases (simp_all add: lit_def)
  qed
qed simp

end
