(* ===== verification/Policy.thy ===== *)
theory Policy
  imports Tools Sensitive "HOL-Library.List_Lexorder"
begin

text \<open>
  The deterministic policies of \<^verbatim>\<open>policy.py\<close>: the verdict on content, the canonical form and
  digest of an action, the verdict on an action, and the local policy engine. SHA-256 is the
  argument \<open>sha256\<close>, and the printing of a floating-point number the argument \<open>float_repr\<close>.
\<close>

section \<open>Content\<close>

definition DECODED_DETECTOR :: str where "DECODED_DETECTOR = lit ''deterministic_content_decoded''"

definition content_verdict ::
  "enforcement_point \<Rightarrow> trust_level \<Rightarrow> str option \<Rightarrow> str \<Rightarrow> evidence list
    \<Rightarrow> (str \<Rightarrow> entity_action) option \<Rightarrow> verdict \<times> str" where
  "content_verdict point trust source_tenant tenant evidence action_of =
     (if source_tenant \<noteq> None \<and> source_tenant \<noteq> Some tenant then (DENY, lit ''cross_tenant_context'')
      else if list_ex (\<lambda>e. ev_category e = lit ''canary'') evidence then (DENY, lit ''canary_leak_detected'')
      else if list_ex (\<lambda>e. ev_detector e = DECODED_DETECTOR) evidence
      then (DENY, lit ''obfuscated_content_detected'')
      else
        let categories = map ev_category evidence in
        if lit ''embedded_action'' \<in> set categories \<and> point \<in> {OUTPUT, CONTEXT}
        then (DENY, lit ''embedded_action_detected'')
        else if (lit ''prompt_injection'' \<in> set categories \<or> lit ''jailbreak'' \<in> set categories)
          \<and> (point = CONTEXT \<or> trust = UNTRUSTED)
        then (DENY, lit ''prompt_injection_detected'')
        else
          let resolve = (case action_of of None \<Rightarrow> (\<lambda>_. EA_REDACT) | Some f \<Rightarrow> f);
              governed = set (filter (\<lambda>a. a \<noteq> EA_ALLOW) (map resolve (filter is_sensitive categories)))
          in if EA_DENY \<in> governed then (DENY, lit ''sensitive_content_denied'')
             else if governed \<noteq> {} \<and> point = OUTPUT then (DENY, lit ''sensitive_output_detected'')
             else if governed = {EA_PSEUDONYMIZE} then (TRANSFORM, lit ''sensitive_content_pseudonymized'')
             else if governed \<noteq> {} then (TRANSFORM, lit ''sensitive_content_redacted'')
             else (ALLOW, lit ''policy_allow''))"

section \<open>The canonical action\<close>

text \<open>\<^verbatim>\<open>json.dumps(\<dots>, sort_keys=True, separators=(",", ":"), ensure_ascii=True)\<close>.\<close>

definition hex4 :: "nat \<Rightarrow> str" where
  "hex4 n = map (\<lambda>d. if d < 10 then 48 + d else 87 + d)
     [n div 4096 mod 16, n div 256 mod 16, n div 16 mod 16, n mod 16]"

definition json_char :: "nat \<Rightarrow> str" where
  "json_char c =
     (if c = 34 then [92, 34] else if c = 92 then [92, 92]
      else if c = 10 then [92, 110] else if c = 13 then [92, 114] else if c = 9 then [92, 116]
      else if c = 8 then [92, 98] else if c = 12 then [92, 102]
      else if 32 \<le> c \<and> c \<le> 126 then [c]
      else if c < 65536 then [92, 117] @ hex4 c
      else [92, 117] @ hex4 (55296 + (c - 65536) div 1024) @ [92, 117] @ hex4 (56320 + (c - 65536) mod 1024))"

definition json_str :: "str \<Rightarrow> str" where
  "json_str s = [34] @ concat (map json_char s) @ [34]"

definition int_repr :: "int \<Rightarrow> str" where
  "int_repr n = (if n < 0 then [45] @ dec (nat (- n)) else dec (nat n))"

fun json_dumps :: "(real \<Rightarrow> str) \<Rightarrow> py_value \<Rightarrow> str" where
  "json_dumps float_repr PNone = lit ''null''"
| "json_dumps float_repr (PBool b) = (if b then lit ''true'' else lit ''false'')"
| "json_dumps float_repr (PInt n) = int_repr n"
| "json_dumps float_repr (PFloat x) = float_repr x"
| "json_dumps float_repr (PStr s) = json_str s"
| "json_dumps float_repr (PList xs) = [91] @ join_with [44] (map (json_dumps float_repr) xs) @ [93]"
| "json_dumps float_repr (PDict kvs) =
     [123] @ join_with [44] (map (\<lambda>(k, t). json_str k @ [58] @ t)
       (sort_key fst (map (\<lambda>(k, v). (k, json_dumps float_repr v)) kvs))) @ [125]"

definition canonical_action_payload :: "action_request \<Rightarrow> py_value" where
  "canonical_action_payload r = PDict
     [(lit ''identity'', PStr (ar_identity r)), (lit ''tenant_id'', PStr (ar_tenant_id r)),
      (lit ''tool'', PStr (ar_tool r)), (lit ''resource'', PStr (ar_resource r)),
      (lit ''arguments'', PDict (ar_arguments r)),
      (lit ''side_effect'', PStr (side_effect_value (ar_side_effect r)))]"

definition action_digest :: "(str \<Rightarrow> str) \<Rightarrow> (real \<Rightarrow> str) \<Rightarrow> action_request \<Rightarrow> str" where
  "action_digest sha256 float_repr r = sha256 (json_dumps float_repr (canonical_action_payload r))"

section \<open>Actions\<close>

text \<open>What the argument checks take from outside: the Unicode tables and the SQL parser.\<close>

record parsers =
  pa_unicode :: unicode_db
  pa_sql :: sql_parser

definition APPROVAL_EFFECTS :: "side_effect set" where
  "APPROVAL_EFFECTS = {SE_WRITE, SE_EXTERNAL, SE_DESTRUCTIVE}"

definition argument_violation :: "parsers \<Rightarrow> action_request \<Rightarrow> policy_config \<Rightarrow> str option" where
  "argument_violation ps r limits =
     (case map_of TOOLS (ar_tool r) of
        None \<Rightarrow> None
      | Some spec \<Rightarrow>
          (case validate_arguments (pa_unicode ps) spec (ar_arguments r) of
             None \<Rightarrow> Some (lit ''invalid_tool_arguments'')
           | Some (ExecuteSql query _) \<Rightarrow> sql_violation (pa_sql ps) query
           | Some (ReadFile path) \<Rightarrow> path_violation path limits
           | Some (FetchUrl url _) \<Rightarrow> url_violation (pa_unicode ps) url limits
           | Some (RunCode _ _ network) \<Rightarrow>
               if network \<and> ar_side_effect r \<noteq> SE_EXTERNAL then Some (lit ''network_requires_approval'') else None
           | Some _ \<Rightarrow> None))"

definition action_verdict ::
  "parsers \<Rightarrow> action_request \<Rightarrow> role set \<Rightarrow> policy_config \<Rightarrow> verdict \<times> str" where
  "action_verdict ps r roles limits =
     (case map_of TOOLS (ar_tool r) of
        None \<Rightarrow> (DENY, lit ''tool_not_allowlisted'')
      | Some spec \<Rightarrow>
          if roles \<inter> ts_roles spec = {} then (DENY, lit ''tool_not_authorized_for_role'')
          else if ar_side_effect r \<notin> ts_effects spec then (DENY, lit ''side_effect_mismatch'')
          else if \<not> prefix (lit ''tenant:'' @ ar_tenant_id r @ lit '':'') (ar_resource r)
          then (DENY, lit ''resource_tenant_mismatch'')
          else (case argument_violation ps r limits of
                  Some violation \<Rightarrow> (DENY, violation)
                | None \<Rightarrow>
                    if ar_side_effect r \<in> APPROVAL_EFFECTS
                    then (REQUIRE_APPROVAL, lit ''risky_action_requires_approval'')
                    else (ALLOW, lit ''action_policy_allow'')))"

section \<open>Policy engines\<close>

text \<open>
  The decision point: it answers or raises \<^verbatim>\<open>PolicyEngineUnavailableError\<close>. An engine other
  than the local one is outside the process and answers as its environment makes it, so the
  answer of a call is what the model takes.
\<close>

datatype policy_error = PolicyEngineUnavailableError

record policy_engine =
  pe_content :: "enforcement_point \<Rightarrow> trust_level \<Rightarrow> str option \<Rightarrow> str \<Rightarrow> evidence list
    \<Rightarrow> policy_error + verdict \<times> str"
  pe_action :: "action_request \<Rightarrow> role set \<Rightarrow> policy_error + verdict \<times> str"

definition local_config :: "unicode_db \<Rightarrow> settings \<Rightarrow> policy_config" where
  "local_config u s = \<lparr>allowed_hosts = set (map (u_lower u) (allowed_url_hosts s)), config_root = file_root s\<rparr>"

definition local_content_verdict ::
  "settings \<Rightarrow> enforcement_point \<Rightarrow> trust_level \<Rightarrow> str option \<Rightarrow> str \<Rightarrow> evidence list \<Rightarrow> verdict \<times> str" where
  "local_content_verdict s point trust source_tenant tenant evidence =
     content_verdict point trust source_tenant tenant evidence (Some (action_resolver s tenant))"

definition local_action_verdict :: "parsers \<Rightarrow> settings \<Rightarrow> action_request \<Rightarrow> role set \<Rightarrow> verdict \<times> str" where
  "local_action_verdict ps s r roles = action_verdict ps r roles (local_config (pa_unicode ps) s)"

definition local_policy_engine :: "parsers \<Rightarrow> settings \<Rightarrow> policy_engine" where
  "local_policy_engine ps s = \<lparr>
     pe_content = (\<lambda>point trust source_tenant tenant evidence.
       Inr (local_content_verdict s point trust source_tenant tenant evidence)),
     pe_action = (\<lambda>r roles. Inr (local_action_verdict ps s r roles))\<rparr>"

section \<open>What the policies guarantee\<close>

fun strictness :: "verdict \<Rightarrow> nat" where
  "strictness ALLOW = 0"
| "strictness TRANSFORM = 1"
| "strictness REQUIRE_APPROVAL = 2"
| "strictness DENY = 3"

definition governed_actions :: "(str \<Rightarrow> entity_action) \<Rightarrow> evidence list \<Rightarrow> entity_action set" where
  "governed_actions resolve evidence =
     {a. a \<noteq> EA_ALLOW \<and> (\<exists>e \<in> set evidence. is_sensitive (ev_category e) \<and> resolve (ev_category e) = a)}"

lemma governed_set:
  "set (filter (\<lambda>a. a \<noteq> EA_ALLOW) (map resolve (filter is_sensitive (map ev_category evidence))))
    = governed_actions resolve evidence"
  by (auto simp: governed_actions_def)

lemma governed_mono: "set es \<subseteq> set fs \<Longrightarrow> governed_actions f es \<subseteq> governed_actions f fs"
  by (auto simp: governed_actions_def)

text \<open>The verdict as a chain of denials before the choice among what the rules govern.\<close>

definition denied_early ::
  "enforcement_point \<Rightarrow> trust_level \<Rightarrow> str option \<Rightarrow> str \<Rightarrow> evidence list \<Rightarrow> entity_action set \<Rightarrow> bool" where
  "denied_early point trust src tenant es g \<longleftrightarrow>
     (src \<noteq> None \<and> src \<noteq> Some tenant)
     \<or> list_ex (\<lambda>e. ev_category e = lit ''canary'') es
     \<or> list_ex (\<lambda>e. ev_detector e = DECODED_DETECTOR) es
     \<or> (lit ''embedded_action'' \<in> set (map ev_category es) \<and> point \<in> {OUTPUT, CONTEXT})
     \<or> ((lit ''prompt_injection'' \<in> set (map ev_category es) \<or> lit ''jailbreak'' \<in> set (map ev_category es))
          \<and> (point = CONTEXT \<or> trust = UNTRUSTED))
     \<or> EA_DENY \<in> g \<or> (g \<noteq> {} \<and> point = OUTPUT)"

definition rules_of :: "(str \<Rightarrow> entity_action) option \<Rightarrow> str \<Rightarrow> entity_action" where
  "rules_of action_of = (case action_of of None \<Rightarrow> (\<lambda>_. EA_REDACT) | Some f \<Rightarrow> f)"

lemma if_chain:
  "(if c1 then (DENY, r1) else if c2 then (DENY, r2) else if c3 then (DENY, r3) else if c4 then (DENY, r4)
    else if c5 then (DENY, r5) else if c6 then (DENY, r6) else if c7 then (DENY, r7) else x)
   = (if c1 \<or> c2 \<or> c3 \<or> c4 \<or> c5 \<or> c6 \<or> c7
      then (DENY, if c1 then r1 else if c2 then r2 else if c3 then r3 else if c4 then r4
             else if c5 then r5 else if c6 then r6 else r7) else x)"
  by simp

lemma if_reorder: "(if g = {p} then a else if g \<noteq> {} then b else c) = (if g = {} then c else if g = {p} then a else b)"
  by simp

definition denial_reason ::
  "enforcement_point \<Rightarrow> trust_level \<Rightarrow> str option \<Rightarrow> str \<Rightarrow> evidence list \<Rightarrow> entity_action set \<Rightarrow> str" where
  "denial_reason point trust src tenant es g =
     (if src \<noteq> None \<and> src \<noteq> Some tenant then lit ''cross_tenant_context''
      else if list_ex (\<lambda>e. ev_category e = lit ''canary'') es then lit ''canary_leak_detected''
      else if list_ex (\<lambda>e. ev_detector e = DECODED_DETECTOR) es then lit ''obfuscated_content_detected''
      else if lit ''embedded_action'' \<in> set (map ev_category es) \<and> point \<in> {OUTPUT, CONTEXT}
      then lit ''embedded_action_detected''
      else if (lit ''prompt_injection'' \<in> set (map ev_category es) \<or> lit ''jailbreak'' \<in> set (map ev_category es))
          \<and> (point = CONTEXT \<or> trust = UNTRUSTED) then lit ''prompt_injection_detected''
      else if EA_DENY \<in> g then lit ''sensitive_content_denied''
      else lit ''sensitive_output_detected'')"

lemma content_verdict_chain:
  "content_verdict point trust src tenant es action_of =
    (if denied_early point trust src tenant es (governed_actions (rules_of action_of) es)
     then (DENY, denial_reason point trust src tenant es (governed_actions (rules_of action_of) es))
     else if governed_actions (rules_of action_of) es = {} then (ALLOW, lit ''policy_allow'')
     else if governed_actions (rules_of action_of) es = {EA_PSEUDONYMIZE}
     then (TRANSFORM, lit ''sensitive_content_pseudonymized'')
     else (TRANSFORM, lit ''sensitive_content_redacted''))"
  unfolding content_verdict_def Let_def governed_set rules_of_def [symmetric] if_chain denied_early_def
    denial_reason_def if_reorder
  by (rule refl)

lemma content_not_denied:
  "fst (content_verdict point trust src tenant es action_of) \<noteq> DENY
    \<longleftrightarrow> \<not> denied_early point trust src tenant es (governed_actions (rules_of action_of) es)"
  using content_verdict_chain [of point trust src tenant es action_of] by (auto simp: Let_def split: if_splits)

lemma content_strictness:
  assumes "\<not> denied_early point trust src tenant es (governed_actions (rules_of action_of) es)"
  shows "strictness (fst (content_verdict point trust src tenant es action_of))
    = (if governed_actions (rules_of action_of) es = {} then 0 else 1)"
  using content_verdict_chain [of point trust src tenant es action_of] assms
  by (auto simp: Let_def split: if_splits)

lemma denied_early_mono:
  assumes "set es \<subseteq> set fs" and "denied_early point trust src tenant es (governed_actions f es)"
  shows "denied_early point trust src tenant fs (governed_actions f fs)"
  using assms governed_mono [OF assms(1), of f] by (auto simp: denied_early_def list_ex_iff)

text \<open>
  C9: Evidence only ever tightens the verdict on content: adding any findings to those a verdict
  was reached on, at the same enforcement point, for the same tenant and rules, never turns a
  denial into anything else nor a rewriting into a plain permission. A detector's silence cannot
  outvote another's finding.
\<close>

theorem content_verdict_monotone:
  assumes "set es \<subseteq> set fs"
  shows "strictness (fst (content_verdict point trust src tenant es action_of))
    \<le> strictness (fst (content_verdict point trust src tenant fs action_of))"
proof (cases "denied_early point trust src tenant fs (governed_actions (rules_of action_of) fs)")
  case True
  then have "fst (content_verdict point trust src tenant fs action_of) = DENY"
    using content_not_denied by blast
  then show ?thesis by (cases "fst (content_verdict point trust src tenant es action_of)") simp_all
next
  case False
  then have es: "\<not> denied_early point trust src tenant es (governed_actions (rules_of action_of) es)"
    using denied_early_mono [OF assms] by blast
  have "governed_actions (rules_of action_of) es \<subseteq> governed_actions (rules_of action_of) fs"
    by (rule governed_mono [OF assms])
  then show ?thesis by (auto simp: content_strictness [OF False] content_strictness [OF es])
qed

theorem content_verdict_monotone_witness:
  "strictness (fst (content_verdict INPUT TRUSTED None (lit ''acme'') [] None))
    \<le> strictness (fst (content_verdict INPUT TRUSTED None (lit ''acme'') [example_evidence ''secret''] None))"
  by (rule content_verdict_monotone) simp

lemma tool_registered:
  assumes "map_of TOOLS t = Some spec"
  shows "t \<in> lit ` {''search_documents'', ''execute_sql'', ''read_file''} \<and> ts_roles spec = READERS
      \<and> ts_effects spec \<subseteq> {SE_NONE, SE_READ}
    \<or> t \<in> lit ` {''send_email'', ''fetch_url'', ''update_record'', ''delete_record''} \<and> ts_roles spec = OPERATORS
      \<and> ts_effects spec \<subseteq> APPROVAL_EFFECTS
    \<or> t = CODE_TOOL \<and> ts_roles spec = OPERATORS \<and> ts_arguments spec = RunCodeArguments"
  using assms by (auto simp: TOOLS_def APPROVAL_EFFECTS_def CODE_TOOL_def split: if_splits)

lemma action_not_denied:
  assumes "fst (action_verdict ps r roles limits) \<noteq> DENY"
  obtains spec where "map_of TOOLS (ar_tool r) = Some spec" "roles \<inter> ts_roles spec \<noteq> {}"
    "ar_side_effect r \<in> ts_effects spec"
    "prefix (lit ''tenant:'' @ ar_tenant_id r @ lit '':'') (ar_resource r)"
    "argument_violation ps r limits = None"
    "fst (action_verdict ps r roles limits) = (if ar_side_effect r \<in> APPROVAL_EFFECTS then REQUIRE_APPROVAL else ALLOW)"
  using assms by (auto simp: action_verdict_def split: option.splits if_splits)

lemma action_policy_effect:
  assumes "fst (action_verdict ps r roles limits) = ALLOW"
  shows "ar_side_effect r \<in> {SE_NONE, SE_READ}"
proof -
  have "fst (action_verdict ps r roles limits) \<noteq> DENY" using assms by simp
  from action_not_denied [OF this] have "ar_side_effect r \<notin> APPROVAL_EFFECTS"
    using assms by (metis verdict.distinct(5))
  then show ?thesis by (cases "ar_side_effect r") (simp_all add: APPROVAL_EFFECTS_def)
qed

lemma code_arguments:
  assumes "model_validate u RunCodeArguments args = Some a"
  shows "\<exists>code network. a = RunCode (lit ''python'') code network
    \<and> map_of args (lit ''code'') = Some (PStr code)
    \<and> (network \<longleftrightarrow> map_of args (lit ''network'') = Some (PBool True))"
  using assms
  by (auto simp: both_def str_field_def bool_field_def split: if_splits option.splits py_value.splits)

lemma argument_code:
  assumes "argument_violation ps r limits = None" and "ar_tool r = CODE_TOOL"
  obtains c network where "map_of (ar_arguments r) (lit ''code'') = Some (PStr c)"
    "network \<longleftrightarrow> map_of (ar_arguments r) (lit ''network'') = Some (PBool True)"
    "network \<Longrightarrow> ar_side_effect r = SE_EXTERNAL"
proof -
  obtain spec where spec: "map_of TOOLS (ar_tool r) = Some spec" "ts_arguments spec = RunCodeArguments"
    using assms(2) by (auto simp: TOOLS_def CODE_TOOL_def)
  obtain a where a: "model_validate (pa_unicode ps) RunCodeArguments (ar_arguments r) = Some a"
    using spec assms(1) by (auto simp: argument_violation_def validate_arguments_def split: option.splits)
  obtain c network where c: "a = RunCode (lit ''python'') c network"
    "map_of (ar_arguments r) (lit ''code'') = Some (PStr c)"
    "network \<longleftrightarrow> map_of (ar_arguments r) (lit ''network'') = Some (PBool True)"
    using code_arguments [OF a] by blast
  have "ar_side_effect r = SE_EXTERNAL" if network
    using spec assms(1) a c(1) that by (auto simp: argument_violation_def validate_arguments_def split: if_splits)
  then show thesis using c(2,3) that by blast
qed

text \<open>What the policy lets through for the code tool, plainly or for approval.\<close>

lemma allowed_code:
  assumes "fst (action_verdict ps r roles limits) \<noteq> DENY" and "ar_tool r = CODE_TOOL"
  shows "OPERATOR \<in> roles" and "\<exists>code. map_of (ar_arguments r) (lit ''code'') = Some (PStr code)"
    and "prefix (lit ''tenant:'' @ ar_tenant_id r @ lit '':'') (ar_resource r)"
    and "map_of (ar_arguments r) (lit ''network'') = Some (PBool True) \<Longrightarrow> ar_side_effect r = SE_EXTERNAL"
proof -
  obtain spec where spec: "map_of TOOLS (ar_tool r) = Some spec" "roles \<inter> ts_roles spec \<noteq> {}"
    "prefix (lit ''tenant:'' @ ar_tenant_id r @ lit '':'') (ar_resource r)"
    "argument_violation ps r limits = None"
    using assms(1) by (rule action_not_denied)
  have "ts_roles spec = OPERATORS"
    using spec(1) assms(2) by (auto simp: TOOLS_def CODE_TOOL_def split: if_splits)
  then show "OPERATOR \<in> roles" using spec(2) by (auto simp: OPERATORS_def)
  show "prefix (lit ''tenant:'' @ ar_tenant_id r @ lit '':'') (ar_resource r)" using spec(3) .
  obtain c network where "map_of (ar_arguments r) (lit ''code'') = Some (PStr c)"
    "network \<longleftrightarrow> map_of (ar_arguments r) (lit ''network'') = Some (PBool True)"
    "network \<Longrightarrow> ar_side_effect r = SE_EXTERNAL"
    using argument_code [OF spec(4) assms(2)] by blast
  then show "\<exists>code. map_of (ar_arguments r) (lit ''code'') = Some (PStr code)"
    "map_of (ar_arguments r) (lit ''network'') = Some (PBool True) \<Longrightarrow> ar_side_effect r = SE_EXTERNAL"
    by blast+
qed


definition example_read :: action_request where
  "example_read = \<lparr>ar_request_id = 1, ar_trace_id = 2, ar_identity = lit ''ann'', ar_tenant_id = lit ''acme'',
     ar_tool = lit ''search_documents'', ar_resource = lit ''tenant:acme:docs'',
     ar_arguments = [(lit ''q'', PStr (lit ''refunds''))], ar_side_effect = SE_READ, ar_approval_token = None\<rparr>"

definition example_parsers :: parsers where
  "example_parsers = \<lparr>pa_unicode = ascii_db, pa_sql = (\<lambda>_. None)\<rparr>"

lemma example_read_allowed: "fst (action_verdict example_parsers example_read {CALLER} example_config) = ALLOW"
  by (simp add: action_verdict_def example_read_def TOOLS_def READERS_def argument_violation_def
      validate_arguments_def only_fields_def both_def str_field_def limit_field_def sized_def APPROVAL_EFFECTS_def)
    (simp add: lit_def)


section \<open>The contract of a decision point\<close>

text \<open>
  What the service relies on: the decision point never plainly permits an action with a side
  effect, and denies content in which a canary was seen or that belongs to another tenant.
\<close>

locale decision_point =
  fixes engine :: policy_engine
  assumes risky_not_allowed: "pe_action engine r roles = Inr (ALLOW, reason) \<Longrightarrow> ar_side_effect r \<in> {SE_NONE, SE_READ}"
    and canary_denied: "pe_content engine point trust src tenant es = Inr (v, reason) \<Longrightarrow>
      \<exists>e \<in> set es. ev_category e = lit ''canary'' \<Longrightarrow> v = DENY"
    and foreign_denied: "pe_content engine point trust src tenant es = Inr (v, reason) \<Longrightarrow>
      src \<noteq> None \<Longrightarrow> src \<noteq> Some tenant \<Longrightarrow> v = DENY"

interpretation local: decision_point "local_policy_engine ps s" for ps s
proof unfold_locales
  fix r roles reason
  assume "pe_action (local_policy_engine ps s) r roles = Inr (ALLOW, reason)"
  then have "fst (action_verdict ps r roles (local_config (pa_unicode ps) s)) = ALLOW"
    by (simp add: local_policy_engine_def local_action_verdict_def)
  then show "ar_side_effect r \<in> {SE_NONE, SE_READ}"
    using action_policy_effect by blast
next
  fix point trust src tenant es v reason
  assume v: "pe_content (local_policy_engine ps s) point trust src tenant es = Inr (v, reason)"
  then have eq: "content_verdict point trust src tenant es (Some (action_resolver s tenant)) = (v, reason)"
    by (simp add: local_policy_engine_def local_content_verdict_def)
  show "v = DENY" if "\<exists>e \<in> set es. ev_category e = lit ''canary''"
    using content_not_denied [of point trust src tenant es "Some (action_resolver s tenant)"] eq that
    by (auto simp: denied_early_def list_ex_iff)
  show "v = DENY" if "src \<noteq> None" "src \<noteq> Some tenant"
    using content_not_denied [of point trust src tenant es "Some (action_resolver s tenant)"] eq that
    by (auto simp: denied_early_def list_ex_iff)
qed

end
