(* ===== verification/Limiters.thy ===== *)
theory Limiters
  imports Models
begin

text \<open>
  The three limiters of \<^verbatim>\<open>limits.py\<close>: the fixed-window request counter, the per-trace
  execution budget and the violation lockout. Each keeps its state per key in an ordered
  dictionary in least recently used order, bounded by \<^verbatim>\<open>max_keys\<close>. The injected clock is
  the argument \<open>now\<close>, one reading per call as in the code.
\<close>

section \<open>RateLimiter\<close>

record 'k rate_limiter =
  rl_limit :: int
  rl_window :: real
  rl_max_keys :: nat
  rl_windows :: "('k, real \<times> int) odict"

definition DEFAULT_MAX_KEYS :: nat where "DEFAULT_MAX_KEYS = 50000"

definition new_rate_limiter :: "int \<Rightarrow> real \<Rightarrow> 'k rate_limiter" where
  "new_rate_limiter limit window =
     \<lparr>rl_limit = limit, rl_window = window, rl_max_keys = DEFAULT_MAX_KEYS, rl_windows = []\<rparr>"

text \<open>
  \<open>started, count = self._windows.get(key, (now, 0))\<close>, reset when the window has passed.
\<close>

definition rl_current :: "'k rate_limiter \<Rightarrow> real \<Rightarrow> 'k \<Rightarrow> real \<times> int" where
  "rl_current l now k =
     (let (started, count) = (case od_get (rl_windows l) k of None \<Rightarrow> (now, 0) | Some e \<Rightarrow> e)
      in if now - started \<ge> rl_window l then (now, 0) else (started, count))"

text \<open>
  A refused request only refreshes the key's place. \<^verbatim>\<open>move_to_end\<close> raises
  \<^verbatim>\<open>KeyError\<close> for a key that has no window yet.
\<close>

definition rl_allow ::
  "'k rate_limiter \<Rightarrow> real \<Rightarrow> 'k \<Rightarrow> py_error + (bool \<times> 'k rate_limiter)" where
  "rl_allow l now k =
     (let (started, count) = rl_current l now k in
      if count \<ge> rl_limit l then
        (case od_move_to_end k (rl_windows l) of
           Inl e \<Rightarrow> Inl e
         | Inr d \<Rightarrow> Inr (False, l\<lparr>rl_windows := d\<rparr>))
      else
        (case od_move_to_end k (od_set k (started, count + 1) (rl_windows l)) of
           Inl e \<Rightarrow> Inl e
         | Inr d \<Rightarrow> Inr (True, l\<lparr>rl_windows := od_evict (rl_max_keys l) d\<rparr>)))"

definition rl_wf :: "'k rate_limiter \<Rightarrow> bool" where
  "rl_wf l \<longleftrightarrow> 1 \<le> rl_limit l \<and> 0 < rl_window l \<and> od_wf (rl_windows l)
     \<and> length (rl_windows l) \<le> rl_max_keys l"

lemma new_rate_limiter_wf: "1 \<le> limit \<Longrightarrow> 0 < window \<Longrightarrow> rl_wf (new_rate_limiter limit window)"
  by (simp add: rl_wf_def new_rate_limiter_def)

text \<open>The entry of one key, as its own two-field machine; the other keys are not touched.\<close>

definition window_step ::
  "int \<Rightarrow> real \<Rightarrow> real \<Rightarrow> (real \<times> int) option \<Rightarrow> bool \<times> (real \<times> int) option" where
  "window_step limit window now e =
     (let (started, count) = (case e of None \<Rightarrow> (now, 0) | Some e \<Rightarrow> e);
          (started', count') = (if now - started \<ge> window then (now, 0) else (started, count))
      in if count' \<ge> limit then (False, e) else (True, Some (started', count' + 1)))"

lemma od_move_set:
  "\<exists>d'. od_move_to_end k (od_set k v d) = Inr d'
     \<and> (\<forall>k'. od_get d' k' = (if k' = k then Some v else od_get d k'))
     \<and> (od_wf d \<longrightarrow> od_wf d') \<and> fst ` set d' = insert k (fst ` set d)"
proof -
  have "od_get (od_set k v d) k = Some v" by (simp add: od_simps)
  from od_move_to_end_Some [OF this] show ?thesis
    by (force simp: od_simps dom_update)
qed

text \<open>
  A call never raises: the state it leaves is well formed, the key's own entry moves as
  \<open>window_step\<close> says or is forgotten by an eviction, and so are the others' kept or
  forgotten.
\<close>

lemma rl_allow_step:
  assumes wf: "rl_wf l"
  obtains l' where
    "rl_allow l now k = Inr (fst (window_step (rl_limit l) (rl_window l) now (od_get (rl_windows l) k)), l')"
    and "rl_wf l'" and "rl_limit l' = rl_limit l" and "rl_window l' = rl_window l"
    and "rl_max_keys l' = rl_max_keys l"
    and "\<And>k'. let e = (if k' = k
                then snd (window_step (rl_limit l) (rl_window l) now (od_get (rl_windows l) k))
                else od_get (rl_windows l) k')
          in od_get (rl_windows l') k' = e \<or> od_get (rl_windows l') k' = None"
    and "card (insert k (fst ` set (rl_windows l))) \<le> rl_max_keys l \<Longrightarrow>
         (\<forall>k'. od_get (rl_windows l') k' = (if k' = k
                then snd (window_step (rl_limit l) (rl_window l) now (od_get (rl_windows l) k))
                else od_get (rl_windows l) k'))
         \<and> fst ` set (rl_windows l') \<subseteq> insert k (fst ` set (rl_windows l))"
proof -
  let ?e = "od_get (rl_windows l) k"
  obtain started count where cur: "rl_current l now k = (started, count)" by fastforce
  have wfd: "od_wf (rl_windows l)" "1 \<le> rl_limit l" using wf by (simp_all add: rl_wf_def)
  have ws: "window_step (rl_limit l) (rl_window l) now ?e =
      (if count \<ge> rl_limit l then (False, ?e) else (True, Some (started, count + 1)))"
    using cur by (auto simp: window_step_def rl_current_def Let_def split: if_splits option.splits)
  show thesis
  proof (cases "count \<ge> rl_limit l")
    case True
    then have "?e \<noteq> None"
      using cur wfd(2) by (auto simp: rl_current_def split: if_splits option.splits)
    then obtain v where v: "?e = Some v" by blast
    from od_move_to_end_Some [OF v] obtain d' where d':
      "od_move_to_end k (rl_windows l) = Inr d'" "\<forall>k'. od_get d' k' = od_get (rl_windows l) k'"
      "od_wf d'" "fst ` set d' = fst ` set (rl_windows l)"
      using wfd(1) by blast
    have "length d' = length (rl_windows l)"
      using d'(3,4) wfd(1) by (simp add: od_wf_length)
    with d' True wf cur ws show thesis
      by (intro that [of "l\<lparr>rl_windows := d'\<rparr>"]) (auto simp: rl_allow_def rl_wf_def Let_def)
  next
    case False
    obtain d' where d': "od_move_to_end k (od_set k (started, count + 1) (rl_windows l)) = Inr d'"
      "\<forall>k'. od_get d' k' = (if k' = k then Some (started, count + 1) else od_get (rl_windows l) k')"
      "od_wf d'" "fst ` set d' = insert k (fst ` set (rl_windows l))"
      using od_move_set [of k "(started, count + 1)" "rl_windows l"] wfd(1) by blast
    let ?l' = "l\<lparr>rl_windows := od_evict (rl_max_keys l) d'\<rparr>"
    have keep: "card (insert k (fst ` set (rl_windows l))) \<le> rl_max_keys l \<Longrightarrow>
        od_evict (rl_max_keys l) d' = d'"
      using d'(3,4) wfd(1) by (simp add: od_wf_length od_evict_id)
    show thesis
    proof (rule that [of ?l'])
      show "let e = if k' = k then snd (window_step (rl_limit l) (rl_window l) now ?e)
                  else od_get (rl_windows l) k'
            in od_get (rl_windows ?l') k' = e \<or> od_get (rl_windows ?l') k' = None" for k'
        using od_get_evict [OF d'(3), of "rl_max_keys l" k'] False ws d'(2)
        by (auto simp: Let_def)
    qed (use False wf cur ws d' keep wfd in
        \<open>auto simp: rl_allow_def rl_wf_def Let_def length_od_evict\<close>)
  qed
qed

lemma rl_allow_total: "rl_wf l \<Longrightarrow> \<exists>b l'. rl_allow l now k = Inr (b, l') \<and> rl_wf l'"
  by (erule rl_allow_step [of l now k]) blast

lemma rl_allow_False:
  assumes "rl_wf l" and "rl_allow l now k = Inr (False, l')"
  shows "rl_limit l \<le> snd (rl_current l now k)"
  using assms by (auto simp: rl_allow_def Let_def split: if_splits sum.splits prod.splits)

subsection \<open>Runs: the bound a fixed window gives\<close>

fun rl_run :: "'k rate_limiter \<Rightarrow> (real \<times> 'k) list \<Rightarrow> py_error + (bool list \<times> 'k rate_limiter)" where
  "rl_run l [] = Inr ([], l)"
| "rl_run l ((now, k) # evs) =
     (case rl_allow l now k of
        Inl e \<Rightarrow> Inl e
      | Inr (b, l') \<Rightarrow>
          (case rl_run l' evs of Inl e \<Rightarrow> Inl e | Inr (bs, l'') \<Rightarrow> Inr (b # bs, l'')))"

text \<open>The times at which a key was admitted, given the calls and their answers.\<close>

fun admitted :: "'k \<Rightarrow> (real \<times> 'k) list \<Rightarrow> bool list \<Rightarrow> real list" where
  "admitted k ((t, k') # evs) (b # bs) =
     (if b \<and> k' = k then t # admitted k evs bs else admitted k evs bs)"
| "admitted k _ _ = []"

definition count_in :: "(real \<Rightarrow> bool) \<Rightarrow> real list \<Rightarrow> int" where
  "count_in P xs = int (length (filter P xs))"

lemma count_in_simps [simp]:
  "count_in P [] = 0"
  "count_in P (xs @ ys) = count_in P xs + count_in P ys"
  "count_in P (x # xs) = (if P x then 1 else 0) + count_in P xs"
  by (simp_all add: count_in_def)

lemma count_in_mono: "(\<And>x. x \<in> set xs \<Longrightarrow> P x \<Longrightarrow> Q x) \<Longrightarrow> count_in P xs \<le> count_in Q xs"
  by (induction xs) (auto simp: count_in_def)

lemma count_in_split:
  "(\<And>x. x \<in> set xs \<Longrightarrow> P x \<Longrightarrow> Q x \<or> R x) \<Longrightarrow> count_in P xs \<le> count_in Q xs + count_in R xs"
  by (induction xs) (auto simp: count_in_def)

lemma count_in_none: "(\<And>x. x \<in> set xs \<Longrightarrow> \<not> P x) \<Longrightarrow> count_in P xs = 0"
  by (simp add: count_in_def)

lemma count_in_nonneg [simp]: "0 \<le> count_in P xs"
  by (simp add: count_in_def)

text \<open>
  What holds of one key's window and the times it was admitted so far, at time \<open>T\<close>: the
  counter is the number admitted since the window began, and the window before it was
  within the limit too, so no interval as long as a window holds more than two limits.
\<close>

definition key_inv :: "int \<Rightarrow> real \<Rightarrow> real \<Rightarrow> real list \<Rightarrow> (real \<times> int) option \<Rightarrow> bool" where
  "key_inv limit w T hist e \<longleftrightarrow>
     (\<forall>x \<in> set hist. x \<le> T) \<and>
     (case e of None \<Rightarrow> hist = []
      | Some (s, c) \<Rightarrow> s \<le> T \<and> (\<forall>x \<in> set hist. x < s + w) \<and> c = count_in (\<lambda>x. s \<le> x) hist \<and> c \<le> limit
          \<and> count_in (\<lambda>x. s - w \<le> x \<and> x < s) hist \<le> limit) \<and>
     (\<forall>a. count_in (\<lambda>x. a \<le> x \<and> x < a + w) hist \<le> 2 * limit)"

lemma key_inv_Nil: "1 \<le> limit \<Longrightarrow> key_inv limit w T [] None"
  by (simp add: key_inv_def)

lemma key_inv_later: "key_inv limit w T hist e \<Longrightarrow> T \<le> T' \<Longrightarrow> key_inv limit w T' hist e"
  unfolding key_inv_def by (cases e) (auto intro: order_trans)

lemma key_inv_refused:
  assumes "key_inv limit w T hist e" and "window_step limit w now e = (False, e')"
    and "0 < w" and "1 \<le> limit"
  shows "e' = e \<and> limit \<le> count_in (\<lambda>x. now - w < x) hist"
proof -
  obtain s c where e: "e = Some (s, c)" and c: "limit \<le> c" and s: "now - s < w" and "e' = e"
    using assms(2-4) by (cases e) (auto simp: window_step_def Let_def split: if_splits)
  have "c \<le> count_in (\<lambda>x. now - w < x) hist"
    using assms(1) s by (auto simp: key_inv_def e intro!: count_in_mono)
  with c \<open>e' = e\<close> show ?thesis by linarith
qed

lemma key_inv_admitted:
  assumes inv: "key_inv limit w T hist e" and "T \<le> now"
    and step: "window_step limit w now e = (True, e')" and w: "0 < w" and limit: "1 \<le> limit"
  shows "key_inv limit w now (hist @ [now]) e'"
proof (cases e)
  case None
  then show ?thesis
    using inv step w limit by (auto simp: key_inv_def window_step_def Let_def split: if_splits)
next
  case (Some sc)
  then obtain s c where e: "e = Some (s, c)" by (cases sc) blast
  have old: "s \<le> now" "\<forall>x \<in> set hist. x \<le> now" "\<forall>x \<in> set hist. x < s + w" "c = count_in (\<lambda>x. s \<le> x) hist"
    "c \<le> limit" "count_in (\<lambda>x. s - w \<le> x \<and> x < s) hist \<le> limit"
    "\<And>a. count_in (\<lambda>x. a \<le> x \<and> x < a + w) hist \<le> 2 * limit"
    using inv \<open>T \<le> now\<close> by (force simp: key_inv_def e)+
  show ?thesis
  proof (cases "now - s \<ge> w")
    case True
    with step e have e': "e' = Some (now, 1)"
      by (auto simp: window_step_def Let_def split: if_splits)
    have prev: "count_in (\<lambda>x. now - w \<le> x \<and> x < now) hist \<le> limit"
      using True old(4,5) count_in_mono [of hist "\<lambda>x. now - w \<le> x \<and> x < now" "\<lambda>x. s \<le> x"]
      by fastforce
    have none: "count_in (\<lambda>x. now \<le> x) hist = 0"
      using True old(3) by (intro count_in_none) force
    have "count_in (\<lambda>x. a \<le> x \<and> x < a + w) hist + 1 \<le> 2 * limit" if "a \<le> now" "now < a + w" for a
    proof -
      have "count_in (\<lambda>x. a \<le> x \<and> x < a + w) hist
          \<le> count_in (\<lambda>x. now - w \<le> x \<and> x < now) hist + count_in (\<lambda>x. now \<le> x) hist"
        using that by (intro count_in_split) auto
      with prev none limit show ?thesis by simp
    qed
    with old prev none e' limit w show ?thesis by (auto simp: key_inv_def)
  next
    case False
    with step e have e': "e' = Some (s, c + 1)" "c < limit"
      by (auto simp: window_step_def Let_def split: if_splits)
    have "count_in (\<lambda>x. a \<le> x \<and> x < a + w) hist + 1 \<le> 2 * limit" if "a \<le> now" "now < a + w" for a
    proof -
      have "count_in (\<lambda>x. a \<le> x \<and> x < a + w) hist
          \<le> count_in (\<lambda>x. s - w \<le> x \<and> x < s) hist + count_in (\<lambda>x. s \<le> x) hist"
        using that old(1) by (intro count_in_split) auto
      with old(4,6) e'(2) show ?thesis by linarith
    qed
    with old False e' show ?thesis by (auto simp: key_inv_def)
  qed
qed


lemma key_inv_step:
  assumes "key_inv limit w T hist e" and "T \<le> now" and "0 < w" and "1 \<le> limit"
    and "window_step limit w now e = (b, e')"
  shows "key_inv limit w now (if b then hist @ [now] else hist) e'"
proof (cases b)
  case True
  then show ?thesis using key_inv_admitted assms by simp
next
  case False
  then show ?thesis using key_inv_refused [OF assms(1)] key_inv_later assms by fastforce
qed

text \<open>
  The whole run: it never raises, the bound holds of every interval, and each refusal had a
  full window behind it. \<open>hist\<close> is what the key was admitted before the run.
\<close>

fun refusals_justified :: "int \<Rightarrow> real \<Rightarrow> 'k \<Rightarrow> real list \<Rightarrow> (real \<times> 'k) list \<Rightarrow> bool list \<Rightarrow> bool" where
  "refusals_justified limit w k hist ((t, k') # evs) (b # bs) =
     ((k' = k \<and> \<not> b \<longrightarrow> limit \<le> count_in (\<lambda>x. t - w < x) hist)
      \<and> refusals_justified limit w k (if b \<and> k' = k then hist @ [t] else hist) evs bs)"
| "refusals_justified limit w k hist _ _ = True"

lemma rl_run_bound:
  assumes "rl_wf l" and "sorted (map fst evs)" and "\<forall>x \<in> set evs. T \<le> fst x"
    and "card (fst ` set (rl_windows l) \<union> snd ` set evs) \<le> rl_max_keys l"
    and "key_inv (rl_limit l) (rl_window l) T hist (od_get (rl_windows l) k)"
  shows "\<exists>bs l'. rl_run l evs = Inr (bs, l') \<and> length bs = length evs
    \<and> (\<forall>a. count_in (\<lambda>x. a \<le> x \<and> x < a + rl_window l) (hist @ admitted k evs bs) \<le> 2 * rl_limit l)
    \<and> refusals_justified (rl_limit l) (rl_window l) k hist evs bs"
  using assms
proof (induction evs arbitrary: l T hist)
  case Nil
  then show ?case by (simp add: key_inv_def)
next
  case (Cons ev evs)
  obtain t k' where ev: "ev = (t, k')" by (cases ev) blast
  let ?step = "window_step (rl_limit l) (rl_window l) t (od_get (rl_windows l) k')"
  have room: "card (insert k' (fst ` set (rl_windows l))) \<le> rl_max_keys l"
    by (rule le_trans [OF card_mono Cons.prems(4)]) (auto simp: ev)
  obtain l' where l': "rl_allow l t k' = Inr (fst ?step, l')" "rl_wf l'" "rl_limit l' = rl_limit l"
      "rl_window l' = rl_window l" "rl_max_keys l' = rl_max_keys l"
      "\<forall>q. od_get (rl_windows l') q = (if q = k' then snd ?step else od_get (rl_windows l) q)"
      "fst ` set (rl_windows l') \<subseteq> insert k' (fst ` set (rl_windows l))"
    using rl_allow_step [OF Cons.prems(1), of t k'] room by metis
  let ?hist = "if fst ?step \<and> k' = k then hist @ [t] else hist"
  have pos: "0 < rl_window l" "1 \<le> rl_limit l" using Cons.prems(1) by (simp_all add: rl_wf_def)
  have "T \<le> t" using Cons.prems(3) ev by simp
  have inv: "key_inv (rl_limit l') (rl_window l') t ?hist (od_get (rl_windows l') k)"
  proof (cases "k' = k")
    case True
    then show ?thesis
      using key_inv_step [OF Cons.prems(5) \<open>T \<le> t\<close> pos, of "fst ?step" "snd ?step"] l' by auto
  next
    case False
    then show ?thesis using key_inv_later [OF Cons.prems(5) \<open>T \<le> t\<close>] l' by auto
  qed
  have "card (fst ` set (rl_windows l') \<union> snd ` set evs) \<le> rl_max_keys l'"
    unfolding l'(5) using l'(7) by (intro le_trans [OF card_mono Cons.prems(4)]) (auto simp: ev)
  from Cons.IH [OF l'(2) _ _ this inv] Cons.prems(2) ev obtain bs l'' where
    ih: "rl_run l' evs = Inr (bs, l'')" "length bs = length evs"
      "\<forall>a. count_in (\<lambda>x. a \<le> x \<and> x < a + rl_window l) (?hist @ admitted k evs bs) \<le> 2 * rl_limit l"
      "refusals_justified (rl_limit l) (rl_window l) k ?hist evs bs"
    using l'(3,4) by auto
  have "k' = k \<and> \<not> fst ?step \<longrightarrow> rl_limit l \<le> count_in (\<lambda>x. t - rl_window l < x) hist"
  proof (intro impI, elim conjE)
    assume k: "k' = k" and no: "\<not> fst ?step"
    from no have "?step = (False, snd ?step)" by (metis (full_types) prod.collapse)
    with key_inv_refused [OF Cons.prems(5) _ pos] k
    show "rl_limit l \<le> count_in (\<lambda>x. t - rl_window l < x) hist" by blast
  qed
  then have r: "refusals_justified (rl_limit l) (rl_window l) k hist (ev # evs) (fst ?step # bs)"
    unfolding ev refusals_justified.simps using ih(4) by (rule conjI)
  have adm: "hist @ admitted k (ev # evs) (fst ?step # bs) = ?hist @ admitted k evs bs"
    by (cases "k' = k") (simp_all add: ev)
  have run: "rl_run l (ev # evs) = Inr (fst ?step # bs, l'')"
    using ih(1) l'(1) by (simp add: ev)
  show ?case
  proof (intro exI conjI)
    show "length (fst ?step # bs) = length (ev # evs)" using ih(2) by simp
    show "\<forall>a. count_in (\<lambda>x. a \<le> x \<and> x < a + rl_window l)
        (hist @ admitted k (ev # evs) (fst ?step # bs)) \<le> 2 * rl_limit l"
      unfolding adm by (rule ih(3))
  qed (rule run r)+
qed

section \<open>ExecutionBudget\<close>

record 'k execution_budget =
  eb_max_actions :: int
  eb_max_keys :: nat
  eb_spent :: "('k, int) odict"

definition new_execution_budget :: "int \<Rightarrow> 'k execution_budget" where
  "new_execution_budget n = \<lparr>eb_max_actions = n, eb_max_keys = DEFAULT_MAX_KEYS, eb_spent = []\<rparr>"

definition eb_spent_of :: "'k execution_budget \<Rightarrow> 'k \<Rightarrow> int" where
  "eb_spent_of b k = (case od_get (eb_spent b) k of None \<Rightarrow> 0 | Some n \<Rightarrow> n)"

text \<open>
  \<^verbatim>\<open>move_to_end\<close> follows an assignment to the same key, so it cannot raise here; the model
  keeps the branch.
\<close>

definition eb_consume ::
  "'k execution_budget \<Rightarrow> 'k \<Rightarrow> py_error + (bool \<times> 'k execution_budget)" where
  "eb_consume b k =
     (let spent = eb_spent_of b k in
      case od_move_to_end k (od_set k (min (spent + 1) (eb_max_actions b + 1)) (eb_spent b)) of
        Inl e \<Rightarrow> Inl e
      | Inr d \<Rightarrow> Inr (spent < eb_max_actions b, b\<lparr>eb_spent := od_evict (eb_max_keys b) d\<rparr>))"

definition eb_wf :: "'k execution_budget \<Rightarrow> bool" where
  "eb_wf b \<longleftrightarrow> od_wf (eb_spent b) \<and> length (eb_spent b) \<le> eb_max_keys b
     \<and> (\<forall>k n. od_get (eb_spent b) k = Some n \<longrightarrow> n \<le> eb_max_actions b + 1)"

lemma new_execution_budget_wf: "eb_wf (new_execution_budget n)"
  by (simp add: eb_wf_def new_execution_budget_def)

lemma eb_consume_step:
  assumes wf: "eb_wf b"
  shows "\<exists>b'. eb_consume b k = Inr (eb_spent_of b k < eb_max_actions b, b') \<and> eb_wf b'
    \<and> eb_max_actions b' = eb_max_actions b \<and> eb_max_keys b' = eb_max_keys b
    \<and> (card (insert k (fst ` set (eb_spent b))) \<le> eb_max_keys b \<longrightarrow>
         (\<forall>k'. eb_spent_of b' k' = (if k' = k
             then min (eb_spent_of b k + 1) (eb_max_actions b + 1) else eb_spent_of b k'))
         \<and> fst ` set (eb_spent b') \<subseteq> insert k (fst ` set (eb_spent b)))"
proof -
  let ?v = "min (eb_spent_of b k + 1) (eb_max_actions b + 1)"
  obtain d' where d': "od_move_to_end k (od_set k ?v (eb_spent b)) = Inr d'"
    "\<forall>k'. od_get d' k' = (if k' = k then Some ?v else od_get (eb_spent b) k')"
    "od_wf d'" "fst ` set d' = insert k (fst ` set (eb_spent b))"
    using od_move_set [of k ?v "eb_spent b"] wf by (auto simp: eb_wf_def)
  let ?b' = "b\<lparr>eb_spent := od_evict (eb_max_keys b) d'\<rparr>"
  have "n \<le> eb_max_actions b + 1" if "od_get (od_evict (eb_max_keys b) d') k' = Some n" for k' n
  proof -
    have "od_get d' k' = Some n" using od_get_evict [OF d'(3), of "eb_max_keys b" k'] that by auto
    then show ?thesis using d'(2) wf by (auto simp: eb_wf_def split: if_splits)
  qed
  then have "eb_wf ?b'"
    using d'(3) by (simp add: eb_wf_def length_od_evict)
  moreover have "od_evict (eb_max_keys b) d' = d'"
    if "card (insert k (fst ` set (eb_spent b))) \<le> eb_max_keys b"
    using that d'(3,4) by (simp add: od_wf_length od_evict_id)
  ultimately show ?thesis
    using d' by (intro exI [of _ ?b']) (auto simp: eb_consume_def Let_def eb_spent_of_def)
qed

fun eb_run :: "'k execution_budget \<Rightarrow> 'k list \<Rightarrow> py_error + (bool list \<times> 'k execution_budget)" where
  "eb_run b [] = Inr ([], b)"
| "eb_run b (k # ks) =
     (case eb_consume b k of
        Inl e \<Rightarrow> Inl e
      | Inr (ok, b') \<Rightarrow>
          (case eb_run b' ks of Inl e \<Rightarrow> Inl e | Inr (oks, b'') \<Rightarrow> Inr (ok # oks, b'')))"

text \<open>What the budget promises: each trace is granted its first \<^verbatim>\<open>max_actions\<close> actions.\<close>

fun budget_spec :: "int \<Rightarrow> ('k \<Rightarrow> int) \<Rightarrow> 'k list \<Rightarrow> bool list" where
  "budget_spec n used [] = []"
| "budget_spec n used (k # ks) = (used k < n) # budget_spec n (used(k := used k + 1)) ks"

lemma eb_run_spec:
  assumes "eb_wf b" and "0 \<le> eb_max_actions b"
    and "card (fst ` set (eb_spent b) \<union> set ks) \<le> eb_max_keys b"
    and "\<forall>k. eb_spent_of b k = min (used k) (eb_max_actions b + 1)"
  shows "\<exists>b'. eb_run b ks = Inr (budget_spec (eb_max_actions b) used ks, b')"
  using assms
proof (induction ks arbitrary: b used)
  case Nil
  then show ?case by simp
next
  case (Cons k ks)
  have room: "card (insert k (fst ` set (eb_spent b))) \<le> eb_max_keys b"
    by (rule le_trans [OF card_mono Cons.prems(3)]) auto
  obtain b' where b': "eb_consume b k = Inr (eb_spent_of b k < eb_max_actions b, b')" "eb_wf b'"
      "eb_max_actions b' = eb_max_actions b" "eb_max_keys b' = eb_max_keys b"
      "\<forall>k'. eb_spent_of b' k' = (if k' = k
         then min (eb_spent_of b k + 1) (eb_max_actions b + 1) else eb_spent_of b k')"
      "fst ` set (eb_spent b') \<subseteq> insert k (fst ` set (eb_spent b))"
    using eb_consume_step [OF Cons.prems(1), of k] room by blast
  have "card (fst ` set (eb_spent b') \<union> set ks) \<le> eb_max_keys b'"
    unfolding b'(4) using b'(6) by (intro le_trans [OF card_mono Cons.prems(3)]) auto
  moreover have "\<forall>k'. eb_spent_of b' k' = min ((used(k := used k + 1)) k') (eb_max_actions b' + 1)"
    using Cons.prems(4) b'(3,5) by simp
  ultimately obtain b'' where
    "eb_run b' ks = Inr (budget_spec (eb_max_actions b) (used(k := used k + 1)) ks, b'')"
    using Cons.IH [OF b'(2), of "used(k := used k + 1)"] Cons.prems(2) b'(3) by metis
  moreover have "(eb_spent_of b k < eb_max_actions b) = (used k < eb_max_actions b)"
    using Cons.prems(4) by auto
  ultimately show ?case using b'(1) by simp
qed

section \<open>ViolationHistory\<close>

record 'k violation_history =
  vh_threshold :: int
  vh_window :: real
  vh_max_keys :: nat
  vh_events :: "('k, real \<times> int) odict"

definition new_violation_history :: "int \<Rightarrow> real \<Rightarrow> 'k violation_history" where
  "new_violation_history threshold window =
     \<lparr>vh_threshold = threshold, vh_window = window, vh_max_keys = DEFAULT_MAX_KEYS, vh_events = []\<rparr>"

definition vh_entry :: "'k violation_history \<Rightarrow> real \<Rightarrow> 'k \<Rightarrow> real \<times> int" where
  "vh_entry h now k = (case od_get (vh_events h) k of None \<Rightarrow> (now, 0) | Some e \<Rightarrow> e)"

definition vh_record ::
  "'k violation_history \<Rightarrow> real \<Rightarrow> 'k \<Rightarrow> py_error + 'k violation_history" where
  "vh_record h now k =
     (if vh_threshold h \<le> 0 then Inr h
      else
        let (started, count) = vh_entry h now k;
            (started, count) = (if now - started \<ge> vh_window h then (now, 0) else (started, count))
        in case od_move_to_end k
              (od_set k (started, min (count + 1) (vh_threshold h)) (vh_events h)) of
             Inl e \<Rightarrow> Inl e
           | Inr d \<Rightarrow> Inr (h\<lparr>vh_events := od_evict (vh_max_keys h) d\<rparr>))"

definition vh_locked :: "'k violation_history \<Rightarrow> real \<Rightarrow> 'k \<Rightarrow> bool" where
  "vh_locked h now k =
     (if vh_threshold h \<le> 0 then False
      else let (started, count) = vh_entry h now k
        in now - started < vh_window h \<and> count \<ge> vh_threshold h)"

definition vh_wf :: "'k violation_history \<Rightarrow> bool" where
  "vh_wf h \<longleftrightarrow> 0 < vh_window h \<and> od_wf (vh_events h)
     \<and> (0 < vh_threshold h \<longrightarrow> 0 < vh_max_keys h \<and> length (vh_events h) \<le> vh_max_keys h)"

lemma new_violation_history_wf: "0 < window \<Longrightarrow> vh_wf (new_violation_history threshold window)"
  by (simp add: vh_wf_def new_violation_history_def DEFAULT_MAX_KEYS_def)

text \<open>Recording never raises; the key just recorded is the last to be evicted.\<close>

lemma od_evict_last: "0 < n \<Longrightarrow> od_evict n (xs @ [x]) = drop (Suc (length xs) - n) xs @ [x]"
  by (simp add: od_evict_drop)

lemma vh_record_step:
  assumes wf: "vh_wf h" and on: "0 < vh_threshold h"
  shows "\<exists>h'. vh_record h now k = Inr h' \<and> vh_wf h' \<and> vh_threshold h' = vh_threshold h
    \<and> vh_window h' = vh_window h \<and> vh_max_keys h' = vh_max_keys h
    \<and> od_get (vh_events h') k = Some
        (if now - fst (vh_entry h now k) \<ge> vh_window h then (now, 1)
         else (fst (vh_entry h now k), min (snd (vh_entry h now k) + 1) (vh_threshold h)))"
proof -
  obtain s c where entry: "vh_entry h now k = (s, c)" by fastforce
  define v where "v = (if now - s \<ge> vh_window h then (now, 1)
    else (s, min (c + 1) (vh_threshold h)))"
  let ?d = "od_set k v (vh_events h)"
  have wfd: "od_wf ?d" using wf by (simp add: vh_wf_def)
  have g: "od_get ?d k = Some v" by (simp add: od_simps)
  then have mv: "od_move_to_end k ?d = Inr (od_del k ?d @ [(k, v)])"
    by (simp add: od_move_to_end_def)
  let ?d' = "od_del k ?d @ [(k, v)]"
  have wf': "od_wf ?d'" using od_move_to_end_Some [OF g] mv wfd by auto
  let ?h' = "h\<lparr>vh_events := od_evict (vh_max_keys h) ?d'\<rparr>"
  have keys: "0 < vh_max_keys h" using wf on by (simp add: vh_wf_def)
  have "od_wf (od_evict (vh_max_keys h) ?d')" using wf' by blast
  moreover have "(k, v) \<in> set (od_evict (vh_max_keys h) ?d')"
    using keys by (simp add: od_evict_last)
  ultimately have "od_get (od_evict (vh_max_keys h) ?d') k = Some v"
    by (simp only: od_wf_def map_of_eq_Some_iff)
  then have "od_get (vh_events ?h') k = Some v" by simp
  moreover have "vh_record h now k = Inr ?h'"
    using on entry mv by (auto simp: vh_record_def v_def Let_def split: if_splits)
  moreover have "vh_wf ?h'"
    using wf wf' by (auto simp: vh_wf_def length_od_evict)
  ultimately show ?thesis using entry on by (intro exI [of _ ?h']) (simp add: v_def)
qed

lemma vh_record_total: "vh_wf h \<Longrightarrow> \<exists>h'. vh_record h now k = Inr h' \<and> vh_wf h'"
  using vh_record_step [of h now k] by (cases "0 < vh_threshold h") (auto simp: vh_record_def)

fun vh_run :: "'k violation_history \<Rightarrow> 'k \<Rightarrow> real list \<Rightarrow> py_error + 'k violation_history" where
  "vh_run h k [] = Inr h"
| "vh_run h k (t # ts) = (case vh_record h t k of Inl e \<Rightarrow> Inl e | Inr h' \<Rightarrow> vh_run h' k ts)"

lemma vh_run_count:
  assumes "vh_wf h" and "0 < vh_threshold h" and "od_get (vh_events h) k = Some (s, c)"
    and "\<forall>t \<in> set ts. t < s + vh_window h" and "c \<le> vh_threshold h"
  shows "\<exists>h'. vh_run h k ts = Inr h' \<and> vh_threshold h' = vh_threshold h
    \<and> vh_window h' = vh_window h
    \<and> od_get (vh_events h') k = Some (s, min (c + int (length ts)) (vh_threshold h))"
  using assms
proof (induction ts arbitrary: h c)
  case Nil
  then show ?case by simp
next
  case (Cons t ts)
  have entry: "vh_entry h t k = (s, c)" using Cons.prems(3) by (simp add: vh_entry_def)
  obtain h' where h': "vh_record h t k = Inr h'" "vh_wf h'" "vh_threshold h' = vh_threshold h"
      "vh_window h' = vh_window h" "od_get (vh_events h') k = Some (s, min (c + 1) (vh_threshold h))"
    using vh_record_step [OF Cons.prems(1,2), of t k] Cons.prems(4) entry by fastforce
  have m: "min (min (c + 1) (vh_threshold h) + int (length ts)) (vh_threshold h)
      = min (c + int (length (t # ts))) (vh_threshold h)"
    by (simp add: min_def)
  obtain h'' where "vh_run h' k ts = Inr h''" "vh_threshold h'' = vh_threshold h"
      "vh_window h'' = vh_window h"
      "od_get (vh_events h'') k = Some (s, min (min (c + 1) (vh_threshold h) + int (length ts)) (vh_threshold h))"
    using Cons.IH [OF h'(2) _ h'(5)] Cons.prems h' by auto
  then show ?case unfolding m using h'(1) by simp
qed

lemma budget_spec_nth:
  "length (budget_spec n used ks) = length ks \<and>
   (\<forall>i < length ks. budget_spec n used ks ! i
      = (used (ks ! i) + int (count_list (take i ks) (ks ! i)) < n))"
proof (induction ks arbitrary: used)
  case Nil
  then show ?case by simp
next
  case (Cons k ks)
  show ?case by (auto simp: Cons nth_Cons' take_Cons' add.assoc)
qed

section \<open>Properties\<close>

text \<open>
  C15: A fresh rate limiter never raises; whatever the calls, in any interval as long as the
  window a key is admitted at most twice its limit (the fixed-window worst case), and a key
  is refused only when the limit was already admitted within the last window. The number of
  distinct keys stays within the bound of the table, since an evicted key starts afresh.
\<close>

theorem rate_limiter_window_bound:
  assumes "1 \<le> limit" and "0 < window" and "sorted (map fst evs)"
    and "card (snd ` set evs) \<le> DEFAULT_MAX_KEYS"
  shows "\<exists>bs l'. rl_run (new_rate_limiter limit window) evs = Inr (bs, l')
    \<and> length bs = length evs
    \<and> (\<forall>k a. count_in (\<lambda>x. a \<le> x \<and> x < a + window) (admitted k evs bs) \<le> 2 * limit)
    \<and> (\<forall>k. refusals_justified limit window k [] evs bs)"
proof -
  let ?l = "new_rate_limiter limit window :: 'a rate_limiter"
  have f: "rl_limit ?l = limit" "rl_window ?l = window" "rl_windows ?l = []"
    "rl_max_keys ?l = DEFAULT_MAX_KEYS" by (simp_all add: new_rate_limiter_def)
  let ?T = "if evs = [] then 0 else fst (hd evs)"
  have "\<forall>x \<in> set evs. ?T \<le> fst x" using assms(3) by (cases evs) auto
  from rl_run_bound [OF new_rate_limiter_wf [OF assms(1,2)] assms(3) this, of "[]"]
  have all: "\<exists>bs l'. rl_run ?l evs = Inr (bs, l') \<and> length bs = length evs
    \<and> (\<forall>a. count_in (\<lambda>x. a \<le> x \<and> x < a + window) (admitted k evs bs) \<le> 2 * limit)
    \<and> refusals_justified limit window k [] evs bs" for k
    using assms(1,4) by (simp add: f key_inv_Nil)
  from all [of undefined] obtain bs l' where run: "rl_run ?l evs = Inr (bs, l')"
    "length bs = length evs" by blast
  with all show ?thesis by (intro exI [of _ bs] exI [of _ l']) force
qed

theorem rate_limiter_window_bound_witness:
  "\<exists>bs l'. rl_run (new_rate_limiter 1 60) [(0, ''a''), (30, ''a''), (61, ''a'')] = Inr (bs, l')
    \<and> length bs = length [(0::real, ''a''), (30, ''a''), (61, ''a'')]
    \<and> (\<forall>k a. count_in (\<lambda>x. a \<le> x \<and> x < a + 60)
          (admitted k [(0, ''a''), (30, ''a''), (61, ''a'')] bs) \<le> 2 * 1)
    \<and> (\<forall>k. refusals_justified 1 60 k [] [(0, ''a''), (30, ''a''), (61, ''a'')] bs)"
  by (rule rate_limiter_window_bound) (simp_all add: DEFAULT_MAX_KEYS_def)

text \<open>
  A fresh execution budget grants exactly the first \<^verbatim>\<open>max_actions\<close> proposals of each
  trace: a call is granted if and only if fewer than that many calls of its trace came
  before it, refused ones included, and no call raises.
\<close>

theorem execution_budget_exact:
  assumes "0 \<le> n" and "card (set ks) \<le> DEFAULT_MAX_KEYS"
  shows "\<exists>oks b'. eb_run (new_execution_budget n) ks = Inr (oks, b') \<and> length oks = length ks
    \<and> (\<forall>i < length ks. oks ! i = (int (count_list (take i ks) (ks ! i)) < n))"
proof -
  let ?b = "new_execution_budget n :: 'a execution_budget"
  have f: "eb_max_actions ?b = n" "eb_spent ?b = []" "eb_max_keys ?b = DEFAULT_MAX_KEYS"
    by (simp_all add: new_execution_budget_def)
  have "\<exists>b'. eb_run ?b ks = Inr (budget_spec n (\<lambda>_. 0) ks, b')"
    using eb_run_spec [OF new_execution_budget_wf, of n ks "\<lambda>_. 0"] assms
    by (simp add: f eb_spent_of_def)
  then show ?thesis using budget_spec_nth [of n "\<lambda>_. 0" ks] by auto
qed

theorem execution_budget_exact_witness:
  "\<exists>oks b'. eb_run (new_execution_budget 1) [7, 7, 8::nat] = Inr (oks, b')
    \<and> length oks = length [7, 7, 8::nat] \<and> oks ! 0 \<and> \<not> oks ! 1 \<and> oks ! 2"
proof -
  have c: "card (set [7, 7, 8::nat]) \<le> DEFAULT_MAX_KEYS" by (simp add: DEFAULT_MAX_KEYS_def)
  obtain oks b' where "eb_run (new_execution_budget 1) [7, 7, 8::nat] = Inr (oks, b')"
    "length oks = length [7, 7, 8::nat]"
    "\<forall>i < length [7, 7, 8::nat]. oks ! i = (int (count_list (take i [7, 7, 8]) ([7, 7, 8::nat] ! i)) < 1)"
    using execution_budget_exact [OF zero_le_one c] by (elim exE conjE) (rule that)
  note run = this
  from run(3) have "oks ! i = (int (count_list (take i [7, 7, 8]) ([7, 7, 8::nat] ! i)) < 1)"
    if "i < 3" for i using that by simp
  from this [of 0] this [of 1] this [of 2] run(1,2) show ?thesis by simp
qed

text \<open>
  The violation lockout is exact: once violations of one identity are recorded within a
  window of the first, the identity is locked if and only if the threshold was reached and
  the window that the first violation opened has not passed.
\<close>

theorem violation_lockout_exact:
  assumes "vh_wf h" and "0 < vh_threshold h" and "od_get (vh_events h) k = None"
    and "\<forall>x \<in> set ts. x < t + vh_window h"
  shows "\<exists>h'. vh_run h k (t # ts) = Inr h'
    \<and> vh_locked h' now k
        = (vh_threshold h \<le> int (length (t # ts)) \<and> now < t + vh_window h)"
proof -
  have entry: "vh_entry h t k = (t, 0)" and w: "0 < vh_window h"
    using assms(1,3) by (simp_all add: vh_entry_def vh_wf_def)
  obtain h1 where h1: "vh_record h t k = Inr h1" "vh_wf h1" "vh_threshold h1 = vh_threshold h"
      "vh_window h1 = vh_window h" "od_get (vh_events h1) k = Some (t, 1)"
    using vh_record_step [OF assms(1,2), of t k] entry w assms(2) by fastforce
  obtain h' where "vh_run h1 k ts = Inr h'" "vh_threshold h' = vh_threshold h"
    "vh_window h' = vh_window h"
    "od_get (vh_events h') k = Some (t, min (1 + int (length ts)) (vh_threshold h))"
    using vh_run_count [OF h1(2) _ h1(5)] h1 assms(2,4) by auto
  then show ?thesis
    using h1(1) assms(2) by (auto simp: vh_locked_def vh_entry_def)
qed

theorem violation_lockout_exact_witness:
  "\<exists>h'. vh_run (new_violation_history 2 600) ''eve'' [5, 9] = Inr h' \<and> vh_locked h' 10 ''eve''"
  using violation_lockout_exact [OF new_violation_history_wf, of 600 2 "''eve''" "[9]" 5 10]
  by (simp add: new_violation_history_def)

end
