(* ===== verification/Vault.thy ===== *)
theory Vault
  imports Sensitive
begin

text \<open>
  The pseudonym vault of \<^verbatim>\<open>sensitive.py\<close> and the round trip through it. The contract the
  rewriting of content relies on is the locale \<open>pseudonym_vault\<close>; the in-memory adapter
  interprets it.
\<close>

section \<open>Pseudonyms\<close>

definition upper_letter :: "nat \<Rightarrow> bool" where
  "upper_letter c \<longleftrightarrow> 65 \<le> c \<and> c \<le> 90"

definition label_char :: "nat \<Rightarrow> bool" where
  "label_char c \<longleftrightarrow> upper_letter c \<or> ascii_digit c \<or> c = 95"

text \<open>\<^verbatim>\<open>_PSEUDONYM\<close>.\<close>

definition pseudonym_pattern :: "unicode_db \<Rightarrow> regex" where
  "pseudonym_pattern u =
     Cat (Cls (\<lambda>c. c = 91)) (Cat (Cls upper_letter) (Cat (Rep True 0 (Some 40) (Cls label_char))
       (Cat (Cls (\<lambda>c. c = 95)) (Cat (Rep True 1 (Some 5) (Cls (u_digit u))) (Cls (\<lambda>c. c = 93))))))"

definition pseudonym :: "unicode_db \<Rightarrow> str \<Rightarrow> nat \<Rightarrow> str" where
  "pseudonym u category ordinal = [91] @ label u category @ [95] @ dec ordinal @ [93]"

definition label_ok :: "unicode_db \<Rightarrow> str \<Rightarrow> bool" where
  "label_ok u category \<longleftrightarrow>
     (case label u category of [] \<Rightarrow> False
      | c # cs \<Rightarrow> upper_letter c \<and> list_all label_char cs \<and> length cs \<le> 40)"

subsection \<open>Where the pattern matches\<close>

definition run_of :: "(nat \<Rightarrow> bool) \<Rightarrow> str \<Rightarrow> nat \<Rightarrow> nat \<Rightarrow> bool" where
  "run_of p s i j \<longleftrightarrow> i \<le> j \<and> (\<forall>k. i \<le> k \<and> k < j \<longrightarrow> k < length s \<and> p (s ! k))"

lemma run_of_Suc:
  assumes "run_of p s (Suc i) j \<and> i < length s \<and> p (s ! i)"
  shows "run_of p s i j"
  unfolding run_of_def
proof (intro conjI allI impI)
  show "i \<le> j" using assms by (simp add: run_of_def)
  fix k assume "i \<le> k \<and> k < j"
  then show "k < length s" and "p (s ! k)"
    using assms by (cases "k = i"; simp add: run_of_def)+
qed

lemma run_of_step:
  assumes "run_of p s i j" and "i < j"
  shows "i < length s \<and> p (s ! i) \<and> run_of p s (Suc i) j"
  using assms by (simp add: run_of_def)

lemma run_of_iff: "run_of p s i j \<longleftrightarrow>
    j = i \<or> i < j \<and> i < length s \<and> p (s ! i) \<and> run_of p s (Suc i) j"
proof (cases "i < j")
  case True
  then show ?thesis using run_of_Suc [of p s i j] run_of_step [of p s i j] by blast
next
  case False
  then show ?thesis by (auto simp: run_of_def)
qed

lemma run_of_le: "run_of p s i j \<Longrightarrow> i \<le> j"
  by (simp add: run_of_def)

lemma set_reps_Cls:
  "j \<in> set (reps g (ends (Cls p) s) lo ex i) \<longleftrightarrow> run_of p s i j \<and> i + lo \<le> j \<and> j \<le> i + lo + ex"
proof (induction g "ends (Cls p) s" lo ex i rule: reps.induct)
  case (1 g lo ex i)
  show ?case
  proof (cases "i < length s \<and> p (s ! i)")
    case True
    have "j \<in> set (reps g (ends (Cls p) s) (Suc lo) ex i) \<longleftrightarrow> j \<in> set (reps g (ends (Cls p) s) lo ex (Suc i))"
      using True by simp
    also have "\<dots> \<longleftrightarrow> run_of p s (Suc i) j \<and> Suc i + lo \<le> j \<and> j \<le> Suc i + lo + ex"
      using 1 [of "Suc i"] True by simp
    also have "\<dots> \<longleftrightarrow> run_of p s i j \<and> i + Suc lo \<le> j \<and> j \<le> i + Suc lo + ex"
      using True run_of_iff [of p s i j] by auto
    finally show ?thesis .
  next
    case False
    then show ?thesis using run_of_iff [of p s i j] by auto
  qed
next
  case (2 g i)
  then show ?case by (auto simp: run_of_def)
next
  case (3 g ex i)
  show ?case
  proof (cases "i < length s \<and> p (s ! i)")
    case True
    have "j \<in> set (reps g (ends (Cls p) s) 0 (Suc ex) i) \<longleftrightarrow>
        j = i \<or> j \<in> set (reps g (ends (Cls p) s) 0 ex (Suc i))"
      using True by (auto simp: Let_def)
    also have "\<dots> \<longleftrightarrow> j = i \<or> run_of p s (Suc i) j \<and> Suc i \<le> j \<and> j \<le> Suc i + ex"
      using 3 [of "Suc i"] True by simp
    also have "\<dots> \<longleftrightarrow> run_of p s i j \<and> i + 0 \<le> j \<and> j \<le> i + 0 + Suc ex"
      using True run_of_iff [of p s i j] by auto
    finally show ?thesis .
  next
    case False
    then have "j \<in> set (reps g (ends (Cls p) s) 0 (Suc ex) i) \<longleftrightarrow> j = i" by (auto simp: Let_def)
    then show ?thesis using False run_of_iff [of p s i j] by auto
  qed
qed

lemma set_ends_Rep_Cls:
  "j \<in> set (ends (Rep g lo (Some n) (Cls p)) s i) \<longleftrightarrow> run_of p s i j \<and> i + lo \<le> j \<and> j \<le> i + lo + n"
  by (simp only: ends.simps(5) option.case set_reps_Cls)

lemma set_ends_Cls: "j \<in> set (ends (Cls p) s i) \<longleftrightarrow> i < length s \<and> p (s ! i) \<and> j = Suc i"
  by auto

lemma set_ends_Cat: "j \<in> set (ends (Cat a b) s i) \<longleftrightarrow> (\<exists>k. k \<in> set (ends a s i) \<and> j \<in> set (ends b s k))"
  by auto

lemma pseudonym_match:
  "j \<in> set (ends (pseudonym_pattern u) s i) \<longleftrightarrow>
     (\<exists>m d. i < length s \<and> s ! i = 91 \<and> Suc i < length s \<and> upper_letter (s ! Suc i)
        \<and> run_of label_char s (i + 2) m \<and> m \<le> i + 42 \<and> m < length s \<and> s ! m = 95
        \<and> run_of (u_digit u) s (Suc m) d \<and> Suc (Suc m) \<le> d \<and> d \<le> m + 7
        \<and> d < length s \<and> s ! d = 93 \<and> j = Suc d)" (is "?l \<longleftrightarrow> ?r")
proof
  assume ?l
  then obtain m d where
    "i < length s \<and> s ! i = 91" "Suc i < length s \<and> upper_letter (s ! Suc i)"
    "run_of label_char s (Suc (Suc i)) m \<and> m \<le> Suc (Suc i) + 0 + 40"
    "m < length s \<and> s ! m = 95"
    "run_of (u_digit u) s (Suc m) d \<and> Suc m + 1 \<le> d \<and> d \<le> Suc m + 1 + 5"
    "d < length s \<and> s ! d = 93 \<and> j = Suc d"
    unfolding pseudonym_pattern_def set_ends_Cat set_ends_Cls set_ends_Rep_Cls by blast
  then show ?r by (intro exI [of _ m] exI [of _ d]) simp
next
  assume ?r
  then obtain m d where
    "i < length s \<and> s ! i = 91 \<and> Suc i < length s \<and> upper_letter (s ! Suc i)
        \<and> run_of label_char s (i + 2) m \<and> m \<le> i + 42 \<and> m < length s \<and> s ! m = 95
        \<and> run_of (u_digit u) s (Suc m) d \<and> Suc (Suc m) \<le> d \<and> d \<le> m + 7
        \<and> d < length s \<and> s ! d = 93 \<and> j = Suc d" by (elim exE) (rule that)
  then have facts: "i < length s \<and> s ! i = 91 \<and> Suc i = Suc i"
    "Suc i < length s \<and> upper_letter (s ! Suc i) \<and> Suc (Suc i) = Suc (Suc i)"
    "run_of label_char s (Suc (Suc i)) m \<and> Suc (Suc i) + 0 \<le> m \<and> m \<le> Suc (Suc i) + 0 + 40"
    "m < length s \<and> s ! m = 95 \<and> Suc m = Suc m"
    "run_of (u_digit u) s (Suc m) d \<and> Suc m + 1 \<le> d \<and> d \<le> Suc m + 1 + 5"
    "d < length s \<and> s ! d = 93 \<and> j = Suc d"
    using run_of_le [of label_char s "i + 2" m] by simp_all
  show ?l
    unfolding pseudonym_pattern_def set_ends_Cat set_ends_Cls set_ends_Rep_Cls
    using facts by blast
qed

lemma pseudonym_match_closes:
  assumes "ascii_digits_ok u" and "j \<in> set (ends (pseudonym_pattern u) s i)"
  obtains d where "j = Suc d" "i \<le> d" "s ! d = 93" "\<And>k. i \<le> k \<Longrightarrow> k < d \<Longrightarrow> s ! k \<noteq> 93"
proof -
  from assms(2) obtain m d where md: "s ! i = 91" "upper_letter (s ! Suc i)"
    "run_of label_char s (i + 2) m" "s ! m = 95" "run_of (u_digit u) s (Suc m) d"
    "s ! d = 93" "j = Suc d"
    unfolding pseudonym_match by (elim exE conjE) (rule that)
  have le: "i + 2 \<le> m" "Suc m \<le> d" using md(3,5) run_of_le by blast+
  have "s ! k \<noteq> 93" if k: "i \<le> k" "k < d" for k
  proof -
    consider "k = i" | "k = Suc i" | "i + 2 \<le> k \<and> k < m" | "k = m" | "Suc m \<le> k \<and> k < d"
      using k by linarith
    then show ?thesis
    proof cases
      case 3
      then have "label_char (s ! k)" using md(3) by (simp add: run_of_def)
      then show ?thesis by (auto simp: label_char_def upper_letter_def ascii_digit_def)
    next
      case 5
      then have "u_digit u (s ! k)" using md(5) by (simp add: run_of_def)
      then show ?thesis using assms(1) by (auto simp: ascii_digits_ok_def)
    qed (use md in \<open>auto simp: upper_letter_def\<close>)
  qed
  moreover have "i \<le> d" using le by simp
  ultimately show thesis using that md(6,7) by blast
qed

lemma pseudonym_match_unique:
  assumes "ascii_digits_ok u" and "j \<in> set (ends (pseudonym_pattern u) s i)"
    and "j' \<in> set (ends (pseudonym_pattern u) s i)"
  shows "j = j'"
proof -
  obtain d where d: "j = Suc d" "i \<le> d" "s ! d = 93" "\<And>k. i \<le> k \<Longrightarrow> k < d \<Longrightarrow> s ! k \<noteq> 93"
    using pseudonym_match_closes [OF assms(1,2)] by metis
  obtain e where e: "j' = Suc e" "i \<le> e" "s ! e = 93" "\<And>k. i \<le> k \<Longrightarrow> k < e \<Longrightarrow> s ! k \<noteq> 93"
    using pseudonym_match_closes [OF assms(1,3)] by metis
  show ?thesis using d(4) [of e] e(4) [of d] d(1-3) e(1-3) by (cases d e rule: linorder_cases) auto
qed

lemma pseudonym_matches:
  assumes u: "ascii_digits_ok u" and l: "label_ok u c" and n: "n < 10 ^ 6"
  shows "match_at (pseudonym_pattern u) (pre @ pseudonym u c n @ rest) (length pre)
    = Some (length pre + length (pseudonym u c n))" (is "match_at ?r ?s ?i = Some ?j")
proof -
  obtain h t where ht: "label u c = h # t" "upper_letter h" "list_all label_char t" "length t \<le> 40"
    using l by (auto simp: label_ok_def split: list.splits)
  let ?m = "?i + 2 + length t" and ?d = "?i + 3 + length t + length (dec n)"
  have digits: "list_all (u_digit u) (dec n)"
    using u dec_digits [of n] by (auto simp: ascii_digits_ok_def list_all_iff)
  have len: "0 < length (dec n)" "length (dec n) \<le> 6"
    using dec_length [OF n] by auto
  have s: "?s = pre @ (91 # h # t) @ (95 # dec n) @ 93 # rest"
    by (simp add: pseudonym_def ht)
  have at: "?s ! (?i + k) = ((91 # h # t) @ (95 # dec n) @ 93 # rest) ! k" for k
    unfolding s by (simp only: nth_append_length_plus)
  have run1: "run_of label_char ?s (?i + 2) ?m"
    unfolding run_of_def
  proof (intro conjI allI impI)
    fix k assume k: "?i + 2 \<le> k \<and> k < ?m"
    then obtain x where x: "k = ?i + (2 + x)" "x < length t"
      using k by (intro that [of "k - (?i + 2)"]) auto
    show "k < length ?s" using x by (simp add: s)
    show "label_char (?s ! k)" using x ht(3) unfolding x(1) at by (simp add: nth_append list_all_length)
  qed simp
  have run2: "run_of (u_digit u) ?s (Suc ?m) ?d"
    unfolding run_of_def
  proof (intro conjI allI impI)
    fix k assume k: "Suc ?m \<le> k \<and> k < ?d"
    then obtain x where x: "k = ?i + (3 + length t + x)" "x < length (dec n)"
      using k by (intro that [of "k - Suc ?m"]) auto
    show "k < length ?s" using x by (simp add: s)
    show "u_digit u (?s ! k)" using x digits unfolding x(1) at by (simp add: nth_append list_all_length)
  qed simp
  have mem: "?j \<in> set (ends ?r ?s ?i)"
    unfolding pseudonym_match
  proof (intro exI conjI)
    show "run_of label_char ?s (?i + 2) ?m" by (rule run1)
    show "run_of (u_digit u) ?s (Suc ?m) ?d" by (rule run2)
    show "?s ! ?i = 91" using at [of 0] by simp
    show "upper_letter (?s ! Suc ?i)" using at [of 1] ht(2) by simp
    show "?s ! ?m = 95" using at [of "2 + length t"] by (simp add: nth_append add.assoc)
    show "?s ! ?d = 93" using at [of "3 + length t + length (dec n)"] by (simp add: nth_append add.assoc)
  qed (use ht(4) len in \<open>simp_all add: s pseudonym_def ht(1) Suc_le_eq\<close>)
  then obtain x xs where xs: "ends ?r ?s ?i = x # xs" by (cases "ends ?r ?s ?i") auto
  then have "x = ?j" using pseudonym_match_unique [OF u _ mem, of x] by simp
  then show ?thesis by (simp add: match_at_def xs)
qed

lemma pseudonym_no_match:
  assumes "i < length s \<longrightarrow> s ! i \<noteq> 91"
  shows "match_at (pseudonym_pattern u) s i = None"
proof -
  have "set (ends (pseudonym_pattern u) s i) = {}"
    using assms unfolding set_eq_iff pseudonym_match by simp
  then show ?thesis by (simp add: match_at_def)
qed

subsection \<open>Replacing in a text built piece by piece\<close>

text \<open>
  \<open>sub_from r f s p\<close> is what \<^verbatim>\<open>pattern.sub\<close> still has to write when it has read up to
  \<open>p\<close>.
\<close>

definition sub_from :: "regex \<Rightarrow> (str \<Rightarrow> str) \<Rightarrow> str \<Rightarrow> nat \<Rightarrow> str" where
  "sub_from r f s p = splice f s p (find_from r s p)"

lemma re_sub_sub_from: "re_sub r f s = sub_from r f s 0"
  by (simp add: re_sub_def finditer_def sub_from_def)

lemma find_from_ge: "(a, b) \<in> set (find_from r s p) \<Longrightarrow> p \<le> a"
proof (induction r s p rule: find_from.induct)
  case (1 r s p)
  show ?case
  proof (cases "length s < p")
    case True
    then show ?thesis using 1(3) by (subst (asm) find_from.simps) simp
  next
    case False
    show ?thesis
    proof (cases "match_at r s p")
      case None
      then have "find_from r s p = find_from r s (Suc p)"
        using False by (subst find_from.simps) simp
      then show ?thesis using 1(1) [OF False None] 1(3) by simp
    next
      case (Some e)
      then have "find_from r s p = (p, e) # find_from r s (if p < e then e else Suc p)"
        using False by (subst find_from.simps) simp
      then show ?thesis using 1(2) [OF False Some] 1(3) by (auto split: if_splits)
    qed
  qed
qed

lemma splice_gap:
  assumes "p \<le> q" and "q \<le> length s" and "\<forall>(a, b) \<in> set ms. q \<le> a"
  shows "splice f s p ms = py_slice s p q @ splice f s q ms"
proof (cases ms)
  case Nil
  have "drop p s = py_slice s p q @ drop q s"
    using assms(1) by (simp add: py_slice_def) (metis append_take_drop_id drop_drop le_add_diff_inverse2)
  then show ?thesis using Nil by simp
next
  case (Cons m ms')
  then obtain a b where "m = (a, b)" "q \<le> a" using assms(3) by (cases m) auto
  then show ?thesis using Cons assms(1) py_slice_append [of p q a s] by simp
qed

lemma sub_from_gap:
  assumes "p \<le> q" and "q \<le> length s" and "\<And>k. p \<le> k \<Longrightarrow> k < q \<Longrightarrow> match_at r s k = None"
  shows "sub_from r f s p = py_slice s p q @ sub_from r f s q"
proof -
  have "find_from r s p = find_from r s q"
    using assms
  proof (induction p rule: inc_induct)
    case (step n)
    then have "find_from r s n = find_from r s (Suc n)" by (subst find_from.simps) simp
    then show ?case using step by simp
  qed simp
  moreover have "\<forall>(a, b) \<in> set (find_from r s q). q \<le> a" using find_from_ge by auto
  ultimately show ?thesis using splice_gap [OF assms(1,2)] by (simp add: sub_from_def)
qed

lemma sub_from_match:
  assumes "match_at r s p = Some e" and "p < e" and "p \<le> length s"
  shows "sub_from r f s p = f (py_slice s p e) @ sub_from r f s e"
proof -
  have "find_from r s p = (p, e) # find_from r s e"
    using assms by (subst find_from.simps) simp
  then show ?thesis by (simp add: sub_from_def py_slice_def)
qed

lemma sub_from_end: "match_at r s (length s) = None \<Longrightarrow> sub_from r f s (length s) = []"
proof -
  assume "match_at r s (length s) = None"
  then have "find_from r s (length s) = find_from r s (Suc (length s))"
    by (subst find_from.simps) simp
  also have "\<dots> = []" by (subst find_from.simps) simp
  finally show ?thesis by (simp add: sub_from_def)
qed

lemma py_slice_inner: "py_slice (pre @ mid @ rest) (length pre) (length pre + length mid) = mid"
  by (simp add: py_slice_def)

text \<open>Reading a stretch without an opening bracket, and reading a pseudonym.\<close>

lemma sub_from_plain:
  assumes "91 \<notin> set mid"
  shows "sub_from (pseudonym_pattern u) f (pre @ mid @ rest) (length pre)
    = mid @ sub_from (pseudonym_pattern u) f (pre @ mid @ rest) (length pre + length mid)"
proof -
  let ?s = "pre @ mid @ rest"
  have "match_at (pseudonym_pattern u) ?s k = None" if "length pre \<le> k" "k < length pre + length mid" for k
  proof (rule pseudonym_no_match, rule impI)
    have inside: "k - length pre < length mid" using that by arith
    then have "?s ! k = mid ! (k - length pre)" using that by (simp add: nth_append)
    moreover have "mid ! (k - length pre) \<in> set mid" using inside by simp
    ultimately show "?s ! k \<noteq> 91" using assms by metis
  qed
  then have "sub_from (pseudonym_pattern u) f ?s (length pre) =
      py_slice ?s (length pre) (length pre + length mid)
      @ sub_from (pseudonym_pattern u) f ?s (length pre + length mid)"
    by (intro sub_from_gap) simp_all
  then show ?thesis by (simp add: py_slice_inner)
qed

lemma sub_from_pseudonym:
  assumes "ascii_digits_ok u" and "label_ok u c" and "n < 10 ^ 6"
  shows "sub_from (pseudonym_pattern u) f (pre @ pseudonym u c n @ rest) (length pre)
    = f (pseudonym u c n) @ sub_from (pseudonym_pattern u) f (pre @ pseudonym u c n @ rest)
        (length pre + length (pseudonym u c n))"
proof -
  have "0 < length (pseudonym u c n)" by (simp add: pseudonym_def)
  with sub_from_match [OF pseudonym_matches [OF assms, of pre rest], of f] show ?thesis
    by (simp add: py_slice_inner)
qed

section \<open>What the rewriting relies on\<close>

definition tok_lookup :: "(str \<Rightarrow> str option) \<Rightarrow> str \<Rightarrow> str" where
  "tok_lookup m t = (case m t of None \<Rightarrow> t | Some x \<Rightarrow> x)"

text \<open>
  \<open>meaning v\<close> is what the tokens stand for in the scope at hand, \<open>ready k v\<close> that the
  vault can issue \<open>k\<close> more tokens there for the categories \<open>cats\<close>.
\<close>

locale pseudonym_vault =
  fixes u :: unicode_db and tok :: "'v \<Rightarrow> str \<Rightarrow> str \<Rightarrow> py_error + str \<times> 'v"
    and meaning :: "'v \<Rightarrow> str \<Rightarrow> str option" and ready :: "nat \<Rightarrow> 'v \<Rightarrow> bool" and cats :: "str set"
  assumes tok_step: "ready (Suc k) v \<Longrightarrow> c \<in> cats \<Longrightarrow>
      \<exists>n v'. n < 10 ^ 6 \<and> tok v c x = Inr (pseudonym u c n, v') \<and> ready k v'
        \<and> meaning v' (pseudonym u c n) = Some x \<and> meaning v \<subseteq>\<^sub>m meaning v'"
    and ready_labels: "ready k v \<Longrightarrow> ascii_digits_ok u \<and> (\<forall>c \<in> cats. label_ok u c)"
begin

lemma replace_restores:
  assumes "91 \<notin> set content" and "ready (length sps) v" and "apart n sps" and "n \<le> length content"
    and "\<forall>(a, b, c, act) \<in> set sps. b \<le> length content \<and> c \<in> cats \<and> act = EA_PSEUDONYMIZE"
  shows "\<exists>out v'. replace_spans u tok content v n sps = Inr (out, v') \<and> ready 0 v'
    \<and> meaning v \<subseteq>\<^sub>m meaning v'
    \<and> (\<forall>m pre. meaning v' \<subseteq>\<^sub>m m \<longrightarrow>
        sub_from (pseudonym_pattern u) (tok_lookup m) (pre @ out) (length pre) = drop n content)"
  using assms(2-5)
proof (induction sps arbitrary: n v)
  case Nil
  have plain: "91 \<notin> set (drop n content)" using assms(1) by (meson in_set_dropD)
  have "sub_from (pseudonym_pattern u) (tok_lookup m) (pre @ drop n content) (length pre) = drop n content" for m pre
  proof -
    have "match_at (pseudonym_pattern u) (pre @ drop n content) (length (pre @ drop n content)) = None"
      by (rule pseudonym_no_match) simp
    from sub_from_end [OF this] show ?thesis
      using sub_from_plain [OF plain, of u "tok_lookup m" pre "[]"] by simp
  qed
  then show ?case using Nil by simp
next
  case (Cons sp sps)
  obtain a b c act where sp: "sp = (a, b, c, act)" by (cases sp) auto
  have ap: "n \<le> a" "a \<le> b" "apart b sps" "b \<le> length content" "c \<in> cats" "act = EA_PSEUDONYMIZE"
    using Cons.prems(2,4) sp by auto
  let ?x = "py_slice content a b" and ?gap = "py_slice content n a"
  obtain i v1 where tok: "i < 10 ^ 6" "tok v c ?x = Inr (pseudonym u c i, v1)" "ready (length sps) v1"
    "meaning v1 (pseudonym u c i) = Some ?x" "meaning v \<subseteq>\<^sub>m meaning v1"
    using tok_step [of "length sps" v c ?x] Cons.prems(1) ap(5) by auto
  obtain out v2 where rest: "replace_spans u tok content v1 b sps = Inr (out, v2)" "ready 0 v2"
    "meaning v1 \<subseteq>\<^sub>m meaning v2"
    and inner: "\<And>m pre. meaning v2 \<subseteq>\<^sub>m m \<Longrightarrow>
        sub_from (pseudonym_pattern u) (tok_lookup m) (pre @ out) (length pre) = drop b content"
    using Cons.IH [OF tok(3) ap(3,4)] Cons.prems(4) by auto
  have labels: "ascii_digits_ok u" "label_ok u c" using ready_labels [OF tok(3)] ap(5) by auto
  have plain: "91 \<notin> set ?gap" using assms(1) set_py_slice by fastforce
  have undo: "sub_from (pseudonym_pattern u) (tok_lookup m) (pre @ ?gap @ pseudonym u c i @ out) (length pre)
      = drop n content" if "meaning v2 \<subseteq>\<^sub>m m" for m pre
  proof -
    let ?s = "sub_from (pseudonym_pattern u) (tok_lookup m) (pre @ ?gap @ pseudonym u c i @ out)"
    have "m (pseudonym u c i) = Some ?x"
      using that rest(3) tok(4) by (metis (no_types, lifting) domI map_le_def)
    then have look: "tok_lookup m (pseudonym u c i) = ?x" by (simp add: tok_lookup_def)
    have "?s (length pre) = ?gap @ ?s (length pre + length ?gap)"
      by (rule sub_from_plain [OF plain])
    also have "?s (length pre + length ?gap) = ?x @ ?s (length pre + length ?gap + length (pseudonym u c i))"
      using sub_from_pseudonym [OF labels tok(1), of "tok_lookup m" "pre @ ?gap" out] look by simp
    also have "?s (length pre + length ?gap + length (pseudonym u c i)) = drop b content"
      using inner [OF that, of "pre @ ?gap @ pseudonym u c i"] by (simp add: add.assoc)
    also have "?gap @ ?x @ drop b content = drop n content"
      using ap(1,2) py_slice_append [of n a b content]
      by (simp add: py_slice_def) (metis append_assoc append_take_drop_id drop_drop le_add_diff_inverse2 le_trans)
    finally show ?thesis .
  qed
  have "meaning v \<subseteq>\<^sub>m meaning v2" using tok(5) rest(3) map_le_trans by blast
  then show ?case
    using rest tok(2) ap(6) undo sp
    by (intro exI [of _ "?gap @ pseudonym u c i @ out"] exI [of _ v2]) simp
qed

end

section \<open>InMemoryPseudonymVault\<close>

record pseudonym_scope =
  ps_started :: real
  ps_by_value :: "(str \<times> str, str) odict"
  ps_by_token :: "(str, str) odict"

record 'k vault =
  va_ttl :: real
  va_max_scopes :: nat
  va_scopes :: "('k, pseudonym_scope) odict"

definition DEFAULT_MAX_SCOPES :: nat where "DEFAULT_MAX_SCOPES = 10000"

definition new_vault :: "real \<Rightarrow> 'k vault" where
  "new_vault ttl = \<lparr>va_ttl = ttl, va_max_scopes = DEFAULT_MAX_SCOPES, va_scopes = []\<rparr>"

text \<open>\<^verbatim>\<open>_live\<close>: the scope's entry, which an expiry removes.\<close>

definition va_live :: "'k vault \<Rightarrow> real \<Rightarrow> 'k \<Rightarrow> pseudonym_scope option \<times> 'k vault" where
  "va_live v now scope =
     (case od_get (va_scopes v) scope of
        None \<Rightarrow> (None, v)
      | Some entry \<Rightarrow>
          if now - ps_started entry \<ge> va_ttl v
          then (None, v\<lparr>va_scopes := od_del scope (va_scopes v)\<rparr>)
          else (Some entry, v))"

definition issued :: "pseudonym_scope \<Rightarrow> str \<Rightarrow> nat" where
  "issued entry category = length (filter (\<lambda>held. fst (fst held) = category) (ps_by_value entry))"

text \<open>The entry after a token for the value was asked for, and the token.\<close>

definition scope_tokenize ::
  "unicode_db \<Rightarrow> pseudonym_scope \<Rightarrow> str \<Rightarrow> str \<Rightarrow> str \<times> pseudonym_scope" where
  "scope_tokenize u entry category val =
     (case od_get (ps_by_value entry) (category, val) of
        Some known \<Rightarrow> (known, entry)
      | None \<Rightarrow>
          let token = pseudonym u category (1 + issued entry category)
          in (token, entry\<lparr>ps_by_value := od_set (category, val) token (ps_by_value entry),
                ps_by_token := od_set token val (ps_by_token entry)\<rparr>))"

text \<open>
  \<open>now\<close> is the clock during the call, which reads it once or twice. The entry the code
  mutates is the one the dictionary holds: it is written back under its scope.
\<close>

definition va_tokenize ::
  "unicode_db \<Rightarrow> real \<Rightarrow> 'k \<Rightarrow> 'k vault \<Rightarrow> str \<Rightarrow> str \<Rightarrow> py_error + str \<times> 'k vault" where
  "va_tokenize u now scope v category val =
     (let (found, v1) = va_live v now scope;
          entry = (case found of Some e \<Rightarrow> e
                   | None \<Rightarrow> \<lparr>ps_started = now, ps_by_value = [], ps_by_token = []\<rparr>);
          scopes = (case found of Some e \<Rightarrow> va_scopes v1
                   | None \<Rightarrow> od_evict (va_max_scopes v1) (od_set scope entry (va_scopes v1)))
      in case od_move_to_end scope scopes of
           Inl e \<Rightarrow> Inl e
         | Inr d \<Rightarrow> let (token, entry') = scope_tokenize u entry category val
                    in Inr (token, v1\<lparr>va_scopes := od_set scope entry' d\<rparr>))"

text \<open>
  The number of replacements is that of the matches whose text is a token of the scope.
\<close>

definition va_restore :: "unicode_db \<Rightarrow> real \<Rightarrow> 'k \<Rightarrow> 'k vault \<Rightarrow> str \<Rightarrow> (str \<times> nat) \<times> 'k vault" where
  "va_restore u now scope v content =
     (case va_live v now scope of
        (None, v1) \<Rightarrow> ((content, 0), v1)
      | (Some entry, v1) \<Rightarrow>
          let tokens = od_get (ps_by_token entry)
          in ((re_sub (pseudonym_pattern u) (tok_lookup tokens) content,
               length (filter (\<lambda>(a, b). tokens (py_slice content a b) \<noteq> None)
                 (finditer (pseudonym_pattern u) content))), v1))"

subsection \<open>It never raises\<close>

definition va_wf :: "'k vault \<Rightarrow> bool" where
  "va_wf v \<longleftrightarrow> 1 \<le> va_max_scopes v \<and> od_wf (va_scopes v)"

lemma new_vault_wf: "va_wf (new_vault ttl)"
  by (simp add: va_wf_def new_vault_def DEFAULT_MAX_SCOPES_def)

lemma va_live_wf:
  assumes "va_wf v" and "va_live v now scope = (found, v1)"
  shows "va_wf v1" and "od_get (va_scopes v1) scope = found"
  using assms by (auto simp: va_live_def va_wf_def od_simps split: option.splits if_splits)

lemma va_tokenize_total:
  assumes "va_wf v"
  shows "returns (va_tokenize u now scope v category val) (\<lambda>(token, v'). va_wf v')"
proof -
  obtain found v1 where live: "va_live v now scope = (found, v1)" by fastforce
  let ?entry = "case found of Some e \<Rightarrow> e | None \<Rightarrow> \<lparr>ps_started = now, ps_by_value = [], ps_by_token = []\<rparr>"
  let ?scopes = "case found of Some e \<Rightarrow> va_scopes v1
    | None \<Rightarrow> od_evict (va_max_scopes v1) (od_set scope ?entry (va_scopes v1))"
  have v1: "va_wf v1" "od_get (va_scopes v1) scope = found" using va_live_wf [OF assms live] by blast+
  have "od_get ?scopes scope = Some ?entry"
    using v1 od_get_evict_last [of "va_scopes v1" scope "va_max_scopes v1" ?entry]
    by (cases found) (auto simp: va_wf_def)
  from od_move_to_end_Some [OF this]
  obtain d where d: "od_move_to_end scope ?scopes = Inr d" "od_wf ?scopes \<longrightarrow> od_wf d"
    by (elim exE conjE) (rule that)
  have "od_wf ?scopes" using v1(1) by (cases found) (simp_all add: va_wf_def)
  then have "va_wf (v1\<lparr>va_scopes := od_set scope entry d\<rparr>)" for entry
    using v1(1) d(2) by (simp add: va_wf_def)
  then show ?thesis
    unfolding va_tokenize_def live Let_def split_conv d(1) by (simp add: case_prod_unfold)
qed

lemma va_restore_wf: "va_wf v \<Longrightarrow> va_wf (snd (va_restore u now scope v content))"
  using va_live_wf(1) [of v now scope]
  by (cases "va_live v now scope") (auto simp: va_restore_def Let_def split: option.splits)

subsection \<open>One scope\<close>

definition scope_inv :: "unicode_db \<Rightarrow> str set \<Rightarrow> pseudonym_scope \<Rightarrow> bool" where
  "scope_inv u cats e \<longleftrightarrow>
     (\<forall>c x t. ((c, x), t) \<in> set (ps_by_value e) \<longrightarrow> c \<in> cats \<and> od_get (ps_by_token e) t = Some x
        \<and> (\<exists>n. 1 \<le> n \<and> n \<le> issued e c \<and> t = pseudonym u c n))
     \<and> (\<forall>t x. od_get (ps_by_token e) t = Some x \<longrightarrow> (\<exists>c. ((c, x), t) \<in> set (ps_by_value e)))"

lemma scope_inv_token:
  assumes "scope_inv u cats e" and "((c, x), t) \<in> set (ps_by_value e)"
  obtains n where "c \<in> cats" "od_get (ps_by_token e) t = Some x" "1 \<le> n" "n \<le> issued e c"
    "t = pseudonym u c n"
proof -
  have "c \<in> cats \<and> od_get (ps_by_token e) t = Some x
      \<and> (\<exists>n. 1 \<le> n \<and> n \<le> issued e c \<and> t = pseudonym u c n)"
    using assms by (simp add: scope_inv_def)
  then show thesis using that by blast
qed

lemma issued_le: "issued e c \<le> length (ps_by_value e)"
  by (simp add: issued_def)

text \<open>A token determines its label and its ordinal: the digits follow the last underscore.\<close>

lemma pseudonym_inj:
  assumes "inj_on (label u) cats" and "c \<in> cats" and "d \<in> cats"
  shows "pseudonym u c m = pseudonym u d n \<longleftrightarrow> c = d \<and> m = n"
proof
  assume "pseudonym u c m = pseudonym u d n"
  then have eq: "label u c @ [95] @ dec m = label u d @ [95] @ dec n"
    by (simp add: pseudonym_def)
  have no: "95 \<notin> set (dec k)" for k using dec_digits [of k] by (auto simp: ascii_digit_def)
  have tail: "rev (takeWhile (\<lambda>c. c \<noteq> 95) (rev (x @ [95] @ dec k))) = dec k" for x k
  proof -
    have "takeWhile (\<lambda>c. c \<noteq> 95) (rev (dec k) @ 95 # rev x) = rev (dec k)"
      using no [of k] by (subst takeWhile_append2) auto
    then show ?thesis by simp
  qed
  have "dec m = dec n"
    using tail [of "label u c" m, unfolded eq] tail [of "label u d" n] by (rule trans [OF sym])
  then have "m = n" "label u c = label u d" using eq by simp_all
  then show "c = d \<and> m = n" using assms by (simp add: inj_on_def)
qed simp

lemma scope_tokenize_step:
  assumes inv: "scope_inv u cats e" and inj: "inj_on (label u) cats" and c: "c \<in> cats"
  shows "\<exists>n e'. 1 \<le> n \<and> n \<le> Suc (length (ps_by_value e)) \<and> scope_tokenize u e c x = (pseudonym u c n, e')
    \<and> scope_inv u cats e' \<and> od_get (ps_by_token e') (pseudonym u c n) = Some x
    \<and> od_get (ps_by_token e) \<subseteq>\<^sub>m od_get (ps_by_token e') \<and> ps_started e' = ps_started e
    \<and> length (ps_by_value e') \<le> Suc (length (ps_by_value e))"
proof (cases "od_get (ps_by_value e) (c, x)")
  case (Some t)
  then have "((c, x), t) \<in> set (ps_by_value e)" by (rule map_of_SomeD)
  then obtain n where n: "1 \<le> n" "n \<le> issued e c" "t = pseudonym u c n" "od_get (ps_by_token e) t = Some x"
    by (rule scope_inv_token [OF inv])
  have "n \<le> Suc (length (ps_by_value e))" using n(2) issued_le [of e c] by simp
  then show ?thesis using n inv Some by (intro exI [of _ n] exI [of _ e]) (simp add: scope_tokenize_def)
next
  case None
  let ?n = "1 + issued e c"
  let ?t = "pseudonym u c ?n"
  let ?e = "e\<lparr>ps_by_value := ps_by_value e @ [((c, x), ?t)], ps_by_token := od_set ?t x (ps_by_token e)\<rparr>"
  have fresh: "t \<noteq> ?t" if held: "((d, y), t) \<in> set (ps_by_value e)" for d y t
  proof -
    obtain n where "n \<le> issued e d" "t = pseudonym u d n" "d \<in> cats"
      by (rule scope_inv_token [OF inv held])
    then show ?thesis using pseudonym_inj [OF inj _ c, of d] by auto
  qed
  have new: "od_get (ps_by_token e) ?t = None"
    using inv fresh unfolding scope_inv_def by (metis option.exhaust)
  have mono: "issued e d \<le> issued ?e d" for d by (simp add: issued_def)
  have cnt: "issued ?e c = Suc (issued e c)" by (simp add: issued_def)
  have inv': "scope_inv u cats ?e"
    unfolding scope_inv_def
  proof (intro conjI allI impI)
    fix d y t assume "((d, y), t) \<in> set (ps_by_value ?e)"
    then consider "((d, y), t) \<in> set (ps_by_value e)" | "d = c" "y = x" "t = ?t" by auto
    then have "d \<in> cats \<and> od_get (ps_by_token ?e) t = Some y
        \<and> (\<exists>n. 1 \<le> n \<and> n \<le> issued ?e d \<and> t = pseudonym u d n)"
    proof cases
      case 1
      then obtain n where "d \<in> cats" "od_get (ps_by_token e) t = Some y" "1 \<le> n" "n \<le> issued e d"
        "t = pseudonym u d n" by (rule scope_inv_token [OF inv])
      moreover from this have "n \<le> issued ?e d" using mono [of d] by linarith
      ultimately show ?thesis using fresh [OF 1] by (simp add: od_simps) (intro exI [of _ n], simp)
    next
      case 2
      then show ?thesis using c cnt by (simp add: od_simps) (intro exI [of _ ?n], simp)
    qed
    then show "d \<in> cats" "od_get (ps_by_token ?e) t = Some y"
      "\<exists>n. 1 \<le> n \<and> n \<le> issued ?e d \<and> t = pseudonym u d n" by blast+
  next
    fix t y assume "od_get (ps_by_token ?e) t = Some y"
    then show "\<exists>c. ((c, y), t) \<in> set (ps_by_value ?e)"
      using inv by (cases "t = ?t") (auto simp: od_simps scope_inv_def)
  qed
  have "od_get (ps_by_token e) \<subseteq>\<^sub>m od_get (ps_by_token ?e)"
    using new by (auto simp: map_le_def od_simps)
  then show ?thesis
    using None inv' issued_le [of e c]
    by (intro exI [of _ ?n] exI [of _ ?e]) (simp add: scope_tokenize_def Let_def od_set_absent od_simps)
qed

subsection \<open>The scope in the vault\<close>

definition vault_meaning :: "'k \<Rightarrow> real \<Rightarrow> 'k vault \<Rightarrow> str \<Rightarrow> str option" where
  "vault_meaning scope now v t =
     (case fst (va_live v now scope) of None \<Rightarrow> None | Some e \<Rightarrow> od_get (ps_by_token e) t)"

definition vault_ready :: "unicode_db \<Rightarrow> str set \<Rightarrow> 'k \<Rightarrow> real \<Rightarrow> nat \<Rightarrow> 'k vault \<Rightarrow> bool" where
  "vault_ready u cats scope now k v \<longleftrightarrow>
     ascii_digits_ok u \<and> (\<forall>c \<in> cats. label_ok u c) \<and> inj_on (label u) cats
     \<and> od_wf (va_scopes v) \<and> 1 \<le> va_max_scopes v \<and> 0 < va_ttl v
     \<and> (case fst (va_live v now scope) of None \<Rightarrow> k < 10 ^ 6
        | Some e \<Rightarrow> scope_inv u cats e \<and> length (ps_by_value e) + k < 10 ^ 6)"

text \<open>The entry a call works on, and the dictionary around it.\<close>

definition entry_at :: "'k vault \<Rightarrow> real \<Rightarrow> 'k \<Rightarrow> pseudonym_scope" where
  "entry_at v now scope =
     (case fst (va_live v now scope) of Some e \<Rightarrow> e
      | None \<Rightarrow> \<lparr>ps_started = now, ps_by_value = [], ps_by_token = []\<rparr>)"

lemma va_tokenize_entry:
  assumes wf: "od_wf (va_scopes v)" and size: "1 \<le> va_max_scopes v"
  shows "\<exists>d. (\<forall>u c x. va_tokenize u now scope v c x =
        (let (t, e) = scope_tokenize u (entry_at v now scope) c x
         in Inr (t, v\<lparr>va_scopes := od_set scope e d\<rparr>)))
    \<and> od_wf d \<and> (\<forall>k. k \<noteq> scope \<longrightarrow> od_get d k = od_get (va_scopes v) k \<or> od_get d k = None)"
proof (cases "fst (va_live v now scope)")
  case (Some e)
  then have e: "od_get (va_scopes v) scope = Some e" "va_live v now scope = (Some e, v)"
    by (auto simp: va_live_def split: option.splits if_splits)
  obtain d where d: "od_move_to_end scope (va_scopes v) = Inr d"
    "\<And>k. od_get d k = od_get (va_scopes v) k" "od_wf d"
    using od_move_to_end_Some [OF e(1)] wf by blast
  show ?thesis
    by (intro exI [of _ d]) (simp add: Some entry_at_def va_tokenize_def e(2) d case_prod_unfold Let_def)
next
  case None
  obtain s where live: "va_live v now scope = (None, v\<lparr>va_scopes := s\<rparr>)" and
    s: "od_get s scope = None" "od_wf s" "\<And>k. k \<noteq> scope \<Longrightarrow> od_get s k = od_get (va_scopes v) k"
    using None wf
    by (cases "od_get (va_scopes v) scope")
      (auto simp: va_live_def od_simps split: if_splits intro: that [of "va_scopes v"]
        that [of "od_del scope (va_scopes v)"])
  let ?e = "\<lparr>ps_started = now, ps_by_value = [], ps_by_token = []\<rparr>"
  let ?s = "od_evict (va_max_scopes v) (od_set scope ?e s)"
  have get: "od_get ?s scope = Some ?e" using od_get_evict_last [OF s(1) size] .
  have wf': "od_wf ?s" using s(2) by simp
  have others: "od_get ?s k = od_get (va_scopes v) k \<or> od_get ?s k = None" if "k \<noteq> scope" for k
    using od_get_evict [of "od_set scope ?e s" "va_max_scopes v" k] s(2,3) that by (auto simp: od_simps)
  obtain d where d: "od_move_to_end scope ?s = Inr d" "\<And>k. od_get d k = od_get ?s k" "od_wf d"
    using od_move_to_end_Some [OF get] wf' by blast
  show ?thesis
    using others
    by (intro exI [of _ d]) (simp add: None entry_at_def va_tokenize_def live d case_prod_unfold Let_def)
qed

lemma vault_step:
  assumes ready: "vault_ready u cats scope now (Suc k) v" and c: "c \<in> cats"
  shows "\<exists>n v'. n < 10 ^ 6 \<and> va_tokenize u now scope v c x = Inr (pseudonym u c n, v')
    \<and> vault_ready u cats scope now k v' \<and> vault_meaning scope now v' (pseudonym u c n) = Some x
    \<and> vault_meaning scope now v \<subseteq>\<^sub>m vault_meaning scope now v'"
proof -
  have wf: "od_wf (va_scopes v)" "1 \<le> va_max_scopes v" "0 < va_ttl v" and inj: "inj_on (label u) cats"
    using ready by (simp_all add: vault_ready_def)
  define e where "e = entry_at v now scope"
  obtain d where tok: "\<forall>u c x. va_tokenize u now scope v c x =
        (let (t, e) = scope_tokenize u (entry_at v now scope) c x
         in Inr (t, v\<lparr>va_scopes := od_set scope e d\<rparr>))" and d: "od_wf d"
    using va_tokenize_entry [OF wf(1,2), of now scope] by blast
  have inv: "scope_inv u cats e" and room: "Suc (length (ps_by_value e)) + k < 10 ^ 6"
    and alive: "now - ps_started e < va_ttl v"
    using ready wf(3) unfolding e_def entry_at_def
    by (auto simp: vault_ready_def scope_inv_def va_live_def split: option.splits if_splits)
  obtain n e' where n: "n \<le> Suc (length (ps_by_value e))" "scope_tokenize u e c x = (pseudonym u c n, e')"
    and e': "scope_inv u cats e'" "od_get (ps_by_token e') (pseudonym u c n) = Some x"
      "od_get (ps_by_token e) \<subseteq>\<^sub>m od_get (ps_by_token e')" "ps_started e' = ps_started e"
      "length (ps_by_value e') \<le> Suc (length (ps_by_value e))"
    using scope_tokenize_step [OF inv inj c, of x] by blast
  let ?v = "v\<lparr>va_scopes := od_set scope e' d\<rparr>"
  have live: "va_live ?v now scope = (Some e', ?v)"
    using alive e'(4) by (simp add: va_live_def od_simps)
  have "vault_meaning scope now v \<subseteq>\<^sub>m od_get (ps_by_token e)"
    by (auto simp: e_def entry_at_def vault_meaning_def map_le_def split: option.splits)
  then have le: "vault_meaning scope now v \<subseteq>\<^sub>m od_get (ps_by_token e')"
    using e'(3) by (rule map_le_trans)
  have now: "vault_meaning scope now ?v = od_get (ps_by_token e')"
    by (rule ext) (simp add: vault_meaning_def live)
  have "vault_ready u cats scope now k ?v"
    using ready d e'(1,5) room live by (simp add: vault_ready_def)
  moreover have "n < 10 ^ 6" using n(1) room by simp
  ultimately show ?thesis
    using tok n(2) [unfolded e_def] e'(2) le
    by (intro exI [of _ n] exI [of _ ?v]) (simp add: now)
qed

interpretation mem_vault: pseudonym_vault u "va_tokenize u now scope" "vault_meaning scope now"
    "vault_ready u cats scope now" cats
  for u now scope cats
  by unfold_locales (rule vault_step, assumption+, simp add: vault_ready_def)

section \<open>Claims\<close>

lemma vault_ready_mono: "vault_ready u cats scope now n v \<Longrightarrow> k \<le> n \<Longrightarrow> vault_ready u cats scope now k v"
  by (auto simp: vault_ready_def split: option.splits)

lemma length_merged_from: "length (merged_from h sps) \<le> Suc (length sps)"
  by (induction h sps rule: merged_from.induct) (simp_all add: le_SucI)

lemma length_merged: "length (merged sps) \<le> length sps"
proof (cases "sort_key span_order sps")
  case (Cons h t)
  have "length (merged_from h t) \<le> length (sort_key span_order sps)"
    using length_merged_from [of h t] by (simp add: Cons del: length_sort)
  then show ?thesis by (simp add: merged_def Cons del: length_sort) (metis Cons length_Cons length_sort)
qed (simp add: merged_def)

lemma length_spans_of: "length (spans_of r fs) \<le> length fs"
proof (induction fs)
  case (Cons f fs)
  have "length (span_of r f) \<le> 1" by (simp add: span_of_def Let_def split: option.splits)
  then show ?case using Cons by (simp add: spans_of_def)
qed (simp add: spans_of_def)

lemma covers_bounded: "spans_ok n sps \<Longrightarrow> covers sps i \<Longrightarrow> i < n"
  by (fastforce simp: covers_def spans_ok_def)

lemma merged_from_ends:
  "(\<forall>(a, b, c, act) \<in> set (h # sps). b \<le> n) \<Longrightarrow> \<forall>(a, b, c, act) \<in> set (merged_from h sps). b \<le> n"
  by (induction h sps rule: merged_from.induct) auto

lemma merged_ends:
  assumes "spans_ok n sps"
  shows "\<forall>(a, b, c, act) \<in> set (merged sps). b \<le> n"
proof (cases "sort_key span_order sps")
  case (Cons h t)
  then have "set (h # t) = set sps" by (metis set_sort)
  then have "\<forall>(a, b, c, act) \<in> set (h # t). b \<le> n" using assms by (auto simp: spans_ok_def)
  from merged_from_ends [OF this] show ?thesis by (simp add: merged_def Cons)
qed (simp add: merged_def)

lemma merged_from_all:
  "(\<forall>(a, b, c, act) \<in> set (h # sps). c \<in> cats \<and> act = EA_PSEUDONYMIZE) \<Longrightarrow>
   \<forall>(a, b, c, act) \<in> set (merged_from h sps). c \<in> cats \<and> act = EA_PSEUDONYMIZE"
  by (induction h sps rule: merged_from.induct) auto

lemma merged_all:
  assumes "\<forall>(a, b, c, act) \<in> set sps. c \<in> cats \<and> act = EA_PSEUDONYMIZE"
  shows "\<forall>(a, b, c, act) \<in> set (merged sps). c \<in> cats \<and> act = EA_PSEUDONYMIZE"
proof (cases "sort_key span_order sps")
  case (Cons h t)
  then have "set (h # t) = set sps" by (metis set_sort)
  then have "\<forall>(a, b, c, act) \<in> set (h # t). c \<in> cats \<and> act = EA_PSEUDONYMIZE" using assms by simp
  from merged_from_all [OF this] show ?thesis by (simp add: merged_def Cons)
qed (simp add: merged_def)

lemma splice_id:
  "(\<And>p e. match_at r s p = Some e \<Longrightarrow> p < e) \<Longrightarrow> splice (\<lambda>t. t) s p (find_from r s p) = drop p s"
proof (induction r s p rule: find_from.induct)
  case (1 r s p)
  have slice: "py_slice s p e @ drop e s = drop p s" if "p \<le> e" for e
    using that by (simp add: py_slice_def) (metis append_take_drop_id drop_drop le_add_diff_inverse2)
  show ?case
  proof (cases "length s < p")
    case True
    then show ?thesis by (subst find_from.simps) simp
  next
    case False
    note IH = 1
    show ?thesis
    proof (cases "match_at r s p")
      case None
      then have step: "find_from r s p = find_from r s (Suc p)"
        using False by (subst find_from.simps) simp
      show ?thesis
      proof (cases "p = length s")
        case True
        then show ?thesis unfolding step by (subst find_from.simps) simp
      next
        case False
        then have "Suc p \<le> length s" using \<open>\<not> length s < p\<close> by simp
        moreover have "\<forall>(a, b) \<in> set (find_from r s (Suc p)). Suc p \<le> a" using find_from_ge by auto
        ultimately have "splice (\<lambda>t. t) s p (find_from r s (Suc p))
            = py_slice s p (Suc p) @ splice (\<lambda>t. t) s (Suc p) (find_from r s (Suc p))"
          by (intro splice_gap) simp_all
        then show ?thesis using IH(1) [OF \<open>\<not> length s < p\<close> None IH(3)] slice [of "Suc p"] step by simp
      qed
    next
      case (Some e)
      then have "p < e" by (rule 1(3))
      then have "find_from r s p = (p, e) # find_from r s e"
        using False Some by (subst find_from.simps) simp
      then show ?thesis using IH(2) [OF False Some IH(3)] slice [of e] \<open>p < e\<close> by (simp add: py_slice_def)
    qed
  qed
qed

lemma pseudonym_nonempty: "match_at (pseudonym_pattern u) s p = Some e \<Longrightarrow> p < e"
proof -
  assume "match_at (pseudonym_pattern u) s p = Some e"
  then have "e \<in> set (ends (pseudonym_pattern u) s p)"
    by (auto simp: match_at_def split: list.splits)
  then show "p < e" unfolding pseudonym_match by (auto simp: run_of_def)
qed

text \<open>
  C5: Pseudonymisation is reversible. If every located sensitive value has the rule
  pseudonymize, the content has no opening bracket of its own, the labels of the categories are
  distinct and of the pattern's form, and the scope has room for the findings, then the
  rewriting succeeds, and restoring what it returned gives back exactly the original content,
  at any later time at which the scope has not expired.
\<close>

theorem pseudonym_round_trip:
  assumes "vault_ready u cats scope now (length findings) v" and "91 \<notin> set content"
    and "located_in content findings"
    and "\<forall>(a, b, c, act) \<in> set (spans_of r findings). c \<in> cats \<and> act = EA_PSEUDONYMIZE"
  shows "\<exists>out v'. transform_content u content findings r (va_tokenize u now scope) v = Inr (out, v')
    \<and> (\<forall>later. now \<le> later \<and> (\<forall>e. od_get (va_scopes v') scope = Some e \<longrightarrow> later - ps_started e < va_ttl v')
        \<longrightarrow> fst (fst (va_restore u later scope v' out)) = content)"
proof -
  let ?sps = "merged (spans_of r findings)"
  have ok: "spans_ok (length content) (spans_of r findings)" by (rule located_spans_ok [OF assms(3)])
  have "vault_ready u cats scope now (length ?sps) v"
    using assms(1) by (rule vault_ready_mono) (rule le_trans [OF length_merged length_spans_of])
  moreover have "\<forall>(a, b, c, act) \<in> set ?sps. b \<le> length content \<and> c \<in> cats \<and> act = EA_PSEUDONYMIZE"
    using merged_ends [OF ok] merged_all [OF assms(4)] by fast
  ultimately obtain out v' where out: "replace_spans u (va_tokenize u now scope) content v 0 ?sps = Inr (out, v')"
    and all: "\<forall>m pre. vault_meaning scope now v' \<subseteq>\<^sub>m m \<longrightarrow>
        sub_from (pseudonym_pattern u) (tok_lookup m) (pre @ out) (length pre) = drop 0 content"
    using mem_vault.replace_restores [OF assms(2) _ merged_ok(1) [OF ok], of u cats scope now v] by blast
  have undo: "re_sub (pseudonym_pattern u) (tok_lookup m) out = content"
    if "vault_meaning scope now v' \<subseteq>\<^sub>m m" for m
    using all that by (metis append_Nil drop0 list.size(3) re_sub_sub_from)
  have "fst (fst (va_restore u later scope v' out)) = content"
    if "now \<le> later" "\<forall>e. od_get (va_scopes v') scope = Some e \<longrightarrow> later - ps_started e < va_ttl v'" for later
  proof (cases "od_get (va_scopes v') scope")
    case None
    have "out = splice (\<lambda>t. t) out 0 (find_from (pseudonym_pattern u) out 0)"
      using splice_id [of "pseudonym_pattern u" out 0] pseudonym_nonempty by simp
    moreover have "tok_lookup Map.empty = (\<lambda>t. t)" by (rule ext) (simp add: tok_lookup_def)
    moreover have "vault_meaning scope now v' = Map.empty"
      using None by (auto simp: vault_meaning_def va_live_def)
    ultimately have "out = content"
      using undo [of Map.empty] by (simp add: re_sub_def finditer_def)
    then show ?thesis using None by (simp add: va_restore_def va_live_def)
  next
    case (Some e)
    then have "later - ps_started e < va_ttl v'" using that(2) by simp
    moreover from this have "now - ps_started e < va_ttl v'" using that(1) by simp
    ultimately have live: "va_live v' later scope = (Some e, v')" "va_live v' now scope = (Some e, v')"
      using Some by (simp_all add: va_live_def)
    then have "vault_meaning scope now v' = od_get (ps_by_token e)"
      by (auto simp: vault_meaning_def)
    then show ?thesis using undo live by (simp add: va_restore_def)
  qed
  then show ?thesis using out by (auto simp: transform_content_def)
qed

lemma ascii_db_digits: "ascii_digits_ok ascii_db"
  by (simp add: ascii_digits_ok_def ascii_db_def ascii_digit_def)

definition example_vault :: "nat vault" where
  "example_vault = new_vault 60"

definition example_content :: str where
  "example_content = lit ''hi ann, bob''"

definition example_names :: "finding list" where
  "example_names = [example_finding ''pii_name'' 3 6, example_finding ''pii_name'' 8 11]"

lemma label_name: "label ascii_db (lit ''pii_name'') = lit ''NAME''"
  by (simp add: label_def removeprefix_def) (simp add: lit_def ascii_db_def ascii_upper_def)

theorem pseudonym_round_trip_witness:
  "\<exists>out v'. transform_content ascii_db example_content example_names (\<lambda>_. EA_PSEUDONYMIZE)
      (va_tokenize ascii_db 0 7) example_vault = Inr (out, v')
    \<and> (\<forall>later. 0 \<le> later \<and> (\<forall>e. od_get (va_scopes v') 7 = Some e \<longrightarrow> later - ps_started e < va_ttl v')
        \<longrightarrow> fst (fst (va_restore ascii_db later 7 v' out)) = example_content)"
proof (rule pseudonym_round_trip)
  show "vault_ready ascii_db {lit ''pii_name''} 7 0 (length example_names) example_vault"
    by (simp add: vault_ready_def ascii_db_digits label_ok_def label_name example_vault_def new_vault_def
        DEFAULT_MAX_SCOPES_def va_live_def example_names_def)
      (simp add: lit_def upper_letter_def label_char_def)
  show "91 \<notin> set example_content" by (simp add: example_content_def lit_def)
  show "located_in example_content example_names"
    by (simp add: located_in_def example_names_def example_content_def example_finding_def)
  show "\<forall>(a, b, c, act) \<in> set (spans_of (\<lambda>_. EA_PSEUDONYMIZE) example_names).
      c \<in> {lit ''pii_name''} \<and> act = EA_PSEUDONYMIZE"
    by (simp add: spans_of_def span_of_def example_names_def example_finding_def example_evidence_def
        is_sensitive_def Let_def)
qed

text \<open>A history of requests to the vault, each at its own time and in its own scope.\<close>

fun va_run ::
  "unicode_db \<Rightarrow> 'k vault \<Rightarrow> (real \<times> 'k \<times> str \<times> str) list \<Rightarrow> py_error + 'k vault" where
  "va_run u v [] = Inr v"
| "va_run u v ((now, scope, category, val) # calls) =
     (case va_tokenize u now scope v category val of
        Inl e \<Rightarrow> Inl e
      | Inr (_, v') \<Rightarrow> va_run u v' calls)"

definition holds_only :: "'k vault \<Rightarrow> ('k \<times> str) set \<Rightarrow> bool" where
  "holds_only v given \<longleftrightarrow> od_wf (va_scopes v) \<and> 1 \<le> va_max_scopes v
     \<and> (\<forall>k e t x. od_get (va_scopes v) k = Some e \<longrightarrow> od_get (ps_by_token e) t = Some x \<longrightarrow> (k, x) \<in> given)"

lemma scope_tokenize_holds:
  assumes "od_get (ps_by_token (snd (scope_tokenize u e c y))) t = Some x"
  shows "x = y \<or> od_get (ps_by_token e) t = Some x"
  using assms by (auto simp: scope_tokenize_def Let_def od_simps split: option.splits if_splits)

lemma va_tokenize_holds:
  assumes "holds_only v given"
  shows "\<exists>t v'. va_tokenize u now k v c x = Inr (t, v') \<and> holds_only v' (insert (k, x) given)"
proof -
  let ?r = "scope_tokenize u (entry_at v now k) c x"
  have wf: "od_wf (va_scopes v)" "1 \<le> va_max_scopes v" using assms by (simp_all add: holds_only_def)
  obtain d where tok: "\<forall>u c x. va_tokenize u now k v c x =
        (let (t, e) = scope_tokenize u (entry_at v now k) c x
         in Inr (t, v\<lparr>va_scopes := od_set k e d\<rparr>))" and d: "od_wf d"
    and others: "\<forall>k'. k' \<noteq> k \<longrightarrow> od_get d k' = od_get (va_scopes v) k' \<or> od_get d k' = None"
    using va_tokenize_entry [OF wf, of now k] by blast
  let ?v = "v\<lparr>va_scopes := od_set k (snd ?r) d\<rparr>"
  have old: "(k, y) \<in> given" if "od_get (ps_by_token (entry_at v now k)) t = Some y" for t y
    using assms that by (auto simp: entry_at_def va_live_def holds_only_def split: option.splits if_splits)
  have "holds_only ?v (insert (k, x) given)"
    unfolding holds_only_def
  proof (intro conjI allI impI)
    fix k' e t y
    assume e: "od_get (va_scopes ?v) k' = Some e" "od_get (ps_by_token e) t = Some y"
    show "(k', y) \<in> insert (k, x) given"
    proof (cases "k' = k")
      case True
      then have "od_get (ps_by_token (snd ?r)) t = Some y" using e by (simp add: od_simps)
      from scope_tokenize_holds [OF this] show ?thesis using old True by auto
    next
      case False
      then have "od_get (va_scopes v) k' = Some e" using e(1) others by (force simp: od_simps)
      then show ?thesis using assms e(2) by (simp add: holds_only_def)
    qed
  qed (use wf d in simp_all)
  then show ?thesis using tok by (simp add: case_prod_unfold Let_def)
qed

lemma va_run_holds:
  "holds_only v given \<Longrightarrow> \<exists>v'. va_run u v calls = Inr v'
     \<and> holds_only v' (given \<union> (\<lambda>(now, k, c, x). (k, x)) ` set calls)"
proof (induction calls arbitrary: v given)
  case (Cons call calls)
  obtain now k c x where call: "call = (now, k, c, x)" by (cases call) auto
  obtain t v1 where v1: "va_tokenize u now k v c x = Inr (t, v1)" "holds_only v1 (insert (k, x) given)"
    using va_tokenize_holds [OF Cons.prems] by blast
  from Cons.IH [OF v1(2)] show ?case using v1(1) call by (auto simp: insert_commute)
qed simp

text \<open>
  C7: A scope never gives back another scope's value. After any history of tokenize calls on a
  new vault, which always succeeds, whatever the times, expiries and evictions, every value that
  a token stands for in a scope was handed in for that same scope: a pseudonym cannot be turned
  into the value of another tenant or another trace.
\<close>

theorem vault_values_stay_in_scope:
  "\<exists>v. va_run u (new_vault ttl) calls = Inr v
     \<and> (\<forall>scope now token val. vault_meaning scope now v token = Some val
          \<longrightarrow> (\<exists>when category. (when, scope, category, val) \<in> set calls))"
proof -
  have "holds_only (new_vault ttl) {}" by (simp add: holds_only_def new_vault_def DEFAULT_MAX_SCOPES_def)
  from va_run_holds [OF this] obtain v where v: "va_run u (new_vault ttl) calls = Inr v"
    "holds_only v ((\<lambda>(now, k, c, x). (k, x)) ` set calls)" by auto
  have "\<exists>when category. (when, scope, category, val) \<in> set calls"
    if "vault_meaning scope now v token = Some val" for scope now token val
  proof -
    have "(scope, val) \<in> (\<lambda>(now, k, c, x). (k, x)) ` set calls"
      using v(2) that
      by (auto simp: vault_meaning_def va_live_def holds_only_def split: option.splits if_splits)
    then show ?thesis by auto
  qed
  then show ?thesis using v(1) by blast
qed

definition example_calls :: "(real \<times> nat \<times> str \<times> str) list" where
  "example_calls = [(0, 1, lit ''pii_name'', lit ''ann''), (1, 2, lit ''pii_name'', lit ''bob'')]"

lemma example_scope:
  "vault_meaning 2 10 (case va_run ascii_db (new_vault 60) example_calls of Inr v \<Rightarrow> v)
     (pseudonym ascii_db (lit ''pii_name'') 1) = Some (lit ''bob'')"
  by (simp add: example_calls_def va_tokenize_def va_live_def new_vault_def DEFAULT_MAX_SCOPES_def
      od_evict_id od_move_to_end_def scope_tokenize_def issued_def vault_meaning_def Let_def)

theorem vault_values_stay_in_scope_witness:
  "\<exists>when category. (when, 2, category, lit ''bob'') \<in> set example_calls"
proof -
  obtain v where v: "va_run ascii_db (new_vault 60) example_calls = Inr v"
    "\<forall>scope now token val. vault_meaning scope now v token = Some val
        \<longrightarrow> (\<exists>when category. (when, scope, category, val) \<in> set example_calls)"
    using vault_values_stay_in_scope [of ascii_db 60 example_calls] by blast
  then show ?thesis using example_scope by auto
qed

lemma sub_from_one:
  assumes "ascii_digits_ok u" and "label_ok u c" and "n < 10 ^ 6"
  shows "re_sub (pseudonym_pattern u) f (pseudonym u c n) = f (pseudonym u c n)"
proof -
  have "match_at (pseudonym_pattern u) (pseudonym u c n) (length (pseudonym u c n)) = None"
    by (rule pseudonym_no_match) simp
  from sub_from_end [OF this] show ?thesis
    using sub_from_pseudonym [OF assms, of f "[]" "[]"] by (simp add: re_sub_sub_from)
qed

text \<open>
  A pseudonym is not stable across an expiry of its scope. Ordinals count the values the
  scope holds, so a scope that expired starts again at one: a value tokenized first gets a
  pseudonym, and a different value of the same category tokenized after the expiry gets the
  same one, and restoring a text that still carries the first value's pseudonym then puts the
  second value in its place instead of leaving it alone.
\<close>

theorem expired_pseudonym_reissued:
  assumes "0 < ttl" and "ttl \<le> t2 - t1" and "ascii_digits_ok u" and "label_ok u c"
  shows "\<exists>token v1 v2. va_tokenize u t1 scope (new_vault ttl) c x = Inr (token, v1)
    \<and> fst (fst (va_restore u t1 scope v1 token)) = x
    \<and> va_tokenize u t2 scope v1 c y = Inr (token, v2)
    \<and> fst (fst (va_restore u t2 scope v2 token)) = y"
proof -
  let ?t = "pseudonym u c 1"
  let ?e = "\<lambda>t z. \<lparr>ps_started = t, ps_by_value = [((c, z), ?t)], ps_by_token = [(?t, z)]\<rparr>"
  let ?v = "\<lambda>t z. (new_vault ttl)\<lparr>va_scopes := [(scope, ?e t z)]\<rparr>"
  have one: "va_tokenize u t1 scope (new_vault ttl) c x = Inr (?t, ?v t1 x)"
    by (simp add: va_tokenize_def va_live_def new_vault_def DEFAULT_MAX_SCOPES_def od_evict_id
        od_move_to_end_def scope_tokenize_def issued_def Let_def)
  have two: "va_tokenize u t2 scope (?v t1 x) c y = Inr (?t, ?v t2 y)"
    using assms(2) by (simp add: va_tokenize_def va_live_def new_vault_def DEFAULT_MAX_SCOPES_def od_evict_id
        od_move_to_end_def scope_tokenize_def issued_def Let_def)
  have undo: "fst (fst (va_restore u t scope (?v t z) ?t)) = z" for t z
    using assms(1,3,4) sub_from_one [OF assms(3,4), of 1 "tok_lookup [?t \<mapsto> z]"]
    by (simp add: va_restore_def va_live_def new_vault_def tok_lookup_def)
  show ?thesis using one two undo by blast
qed

theorem expired_pseudonym_reissued_witness:
  "\<exists>token v1 v2. va_tokenize ascii_db 0 (1::nat) (new_vault 60) (lit ''pii_name'') (lit ''ann'') = Inr (token, v1)
    \<and> fst (fst (va_restore ascii_db 0 1 v1 token)) = lit ''ann''
    \<and> va_tokenize ascii_db 90 1 v1 (lit ''pii_name'') (lit ''bob'') = Inr (token, v2)
    \<and> fst (fst (va_restore ascii_db 90 1 v2 token)) = lit ''bob''"
proof (rule expired_pseudonym_reissued)
  show "label_ok ascii_db (lit ''pii_name'')"
    by (simp add: label_ok_def label_name) (simp add: lit_def upper_letter_def label_char_def)
qed (simp_all add: ascii_db_digits)

end
