(* ===== verification/Auditing.thy ===== *)
theory Auditing
  imports Models
begin

text \<open>
  The bounded audit sink of \<^verbatim>\<open>audit.py\<close>: events are handed to a transport in order,
  buffered while it refuses them, and dropped once the buffer is full. A transport is a state
  and a \<open>send\<close> that says whether it took the event; the refusal is the source's
  \<^verbatim>\<open>TransportUnavailableError\<close>. What the sink relies on is the locale \<open>audit_transport\<close>,
  interpreted by the in-memory transport and by any transport seen through a recorder of what
  it took.
\<close>

section \<open>Events\<close>

definition EVENT_SCHEMA_VERSION :: nat where "EVENT_SCHEMA_VERSION = 1"

datatype event_body =
    DecisionEvent uuid uuid uuid enforcement_point str str verdict str "str list" real
  | RejectionEvent str str
  | OperationEvent str str uuid nat

record audit_event =
  ae_event_id :: uuid
  ae_schema_version :: nat
  ae_occurred_at :: int
  ae_body :: event_body

text \<open>The fields of a decision that an event keeps: no content, excerpt, digest or explanation.\<close>

definition decision_event :: "security_decision \<Rightarrow> event_body" where
  "decision_event d =
     DecisionEvent (sd_decision_id d) (sd_request_id d) (sd_trace_id d) (sd_point d) (sd_tenant_id d)
       (sd_policy_version d) (sd_verdict d) (sd_reason_code d) (map ev_category (sd_evidence d))
       (sd_latency_ms d)"

section \<open>Transports\<close>

type_synonym 't send = "audit_event \<Rightarrow> 't \<Rightarrow> bool \<times> 't"

text \<open>\<^verbatim>\<open>InMemoryTransport\<close>: a \<^verbatim>\<open>deque(maxlen)\<close>, which drops its oldest item when full.\<close>

record memory_transport =
  mt_maxlen :: nat
  mt_events :: "audit_event list"

definition mt_send :: "memory_transport send" where
  "mt_send event t =
     (True, t\<lparr>mt_events :=
        (let all = mt_events t @ [event] in drop (length all - mt_maxlen t) all)\<rparr>)"

definition mt_snapshot :: "memory_transport \<Rightarrow> audit_event list" where
  "mt_snapshot t = mt_events t"

locale audit_transport =
  fixes send :: "'t send" and taken :: "'t \<Rightarrow> audit_event list"
  assumes taken_sent: "send e t = (True, t') \<Longrightarrow> taken t' = taken t @ [e]"
    and taken_refused: "send e t = (False, t') \<Longrightarrow> taken t' = taken t"

text \<open>Any transport, with a record of the events it took.\<close>

definition recorded :: "'t send \<Rightarrow> ('t \<times> audit_event list) send" where
  "recorded send event st =
     (let (ok, t') = send event (fst st) in (ok, t', if ok then snd st @ [event] else snd st))"

interpretation recorded: audit_transport "recorded send" snd for send
  by unfold_locales (auto simp: recorded_def split: prod.splits)

section \<open>AuditSink\<close>

record 't audit_sink =
  sk_maxlen :: nat
  sk_transport :: 't
  sk_mandatory :: bool
  sk_pending :: "audit_event list"
  sk_dropped :: nat

definition new_audit_sink :: "nat \<Rightarrow> 't \<Rightarrow> bool \<Rightarrow> 't audit_sink" where
  "new_audit_sink maxlen transport mandatory =
     \<lparr>sk_maxlen = maxlen, sk_transport = transport, sk_mandatory = mandatory, sk_pending = [],
      sk_dropped = 0\<rparr>"

text \<open>\<^verbatim>\<open>_flush\<close>: hand over the buffered events from the oldest until one is refused.\<close>

fun flush_pending :: "'t send \<Rightarrow> audit_event list \<Rightarrow> 't \<Rightarrow> audit_event list \<times> 't" where
  "flush_pending send [] t = ([], t)"
| "flush_pending send (e # es) t =
     (let (ok, t') = send e t in if ok then flush_pending send es t' else (e # es, t'))"

definition sk_flush :: "'t send \<Rightarrow> 't audit_sink \<Rightarrow> 't audit_sink" where
  "sk_flush send s =
     (let (pending, t) = flush_pending send (sk_pending s) (sk_transport s)
      in s\<lparr>sk_pending := pending, sk_transport := t\<rparr>)"

definition sk_accepting :: "'t send \<Rightarrow> 't audit_sink \<Rightarrow> bool \<times> 't audit_sink" where
  "sk_accepting send s =
     (let s' = sk_flush send s in (\<not> sk_mandatory s' \<or> length (sk_pending s') < sk_maxlen s', s'))"

datatype sink_state = Durable | Buffering | Blocked

definition sk_state :: "'t send \<Rightarrow> 't audit_sink \<Rightarrow> sink_state \<times> 't audit_sink" where
  "sk_state send s =
     (let s' = sk_flush send s in
      (if sk_pending s' = [] then Durable
       else if length (sk_pending s') < sk_maxlen s' \<or> \<not> sk_mandatory s' then Buffering
       else Blocked, s'))"

definition sk_buffer :: "audit_event \<Rightarrow> 't audit_sink \<Rightarrow> 't audit_sink" where
  "sk_buffer event s =
     (if length (sk_pending s) < sk_maxlen s then s\<lparr>sk_pending := sk_pending s @ [event]\<rparr>
      else s\<lparr>sk_dropped := sk_dropped s + 1\<rparr>)"

text \<open>
  \<^verbatim>\<open>_deliver\<close>. The event's identifier and moment are drawn from outside, so the stamped event
  is the argument.
\<close>

definition sk_deliver :: "'t send \<Rightarrow> 't audit_sink \<Rightarrow> audit_event \<Rightarrow> 't audit_sink" where
  "sk_deliver send s event =
     (let s' = sk_flush send s in
      if sk_pending s' = []
      then (let (ok, t) = send event (sk_transport s'); s'' = s'\<lparr>sk_transport := t\<rparr>
            in if ok then s'' else sk_buffer event s'')
      else sk_buffer event s')"

definition stamp :: "uuid \<Rightarrow> int \<Rightarrow> event_body \<Rightarrow> audit_event" where
  "stamp i now body = \<lparr>ae_event_id = i, ae_schema_version = EVENT_SCHEMA_VERSION, ae_occurred_at = now,
     ae_body = body\<rparr>"

definition sk_publish :: "'t send \<Rightarrow> uuid \<Rightarrow> int \<Rightarrow> 't audit_sink \<Rightarrow> security_decision \<Rightarrow> 't audit_sink" where
  "sk_publish send i now s d = sk_deliver send s (stamp i now (decision_event d))"

definition sk_publish_rejection :: "'t send \<Rightarrow> uuid \<Rightarrow> int \<Rightarrow> 't audit_sink \<Rightarrow> str \<Rightarrow> str \<Rightarrow> 't audit_sink" where
  "sk_publish_rejection send i now s reason path = sk_deliver send s (stamp i now (RejectionEvent reason path))"

definition sk_publish_operation ::
  "'t send \<Rightarrow> uuid \<Rightarrow> int \<Rightarrow> 't audit_sink \<Rightarrow> str \<Rightarrow> str \<Rightarrow> uuid \<Rightarrow> nat \<Rightarrow> 't audit_sink" where
  "sk_publish_operation send i now s reason tenant trace count =
     sk_deliver send s (stamp i now (OperationEvent reason tenant trace count))"

subsection \<open>The calls on a sink\<close>

datatype sink_call = Deliver audit_event | AskAccepting | AskState

fun sink_step :: "'t send \<Rightarrow> 't audit_sink \<Rightarrow> sink_call \<Rightarrow> 't audit_sink" where
  "sink_step send s (Deliver e) = sk_deliver send s e"
| "sink_step send s AskAccepting = snd (sk_accepting send s)"
| "sink_step send s AskState = snd (sk_state send s)"

definition sink_run :: "'t send \<Rightarrow> 't audit_sink \<Rightarrow> sink_call list \<Rightarrow> 't audit_sink" where
  "sink_run send s calls = foldl (sink_step send) s calls"

fun delivered_by :: "sink_call \<Rightarrow> audit_event list" where
  "delivered_by (Deliver e) = [e]"
| "delivered_by _ = []"

lemma sk_flush_fields [frame_simps, simp]:
  "sk_maxlen (sk_flush send s) = sk_maxlen s" "sk_mandatory (sk_flush send s) = sk_mandatory s"
  "sk_dropped (sk_flush send s) = sk_dropped s"
  by (simp_all add: sk_flush_def case_prod_unfold Let_def)

lemma length_flush_pending: "length (fst (flush_pending send es t)) \<le> length es"
proof (induction es arbitrary: t)
  case (Cons e es)
  have "length (fst (flush_pending send es (snd (send e t)))) \<le> Suc (length es)"
    using Cons [of "snd (send e t)"] by simp
  then show ?case by (simp add: Let_def case_prod_unfold)
qed simp

lemma length_sk_flush: "length (sk_pending (sk_flush send s)) \<le> length (sk_pending s)"
  using length_flush_pending by (simp add: sk_flush_def case_prod_unfold Let_def)

lemma sk_accepting_state [simp]: "snd (sk_accepting send s) = sk_flush send s"
  by (simp add: sk_accepting_def Let_def)

lemma sk_state_state [simp]: "snd (sk_state send s) = sk_flush send s"
  by (simp add: sk_state_def Let_def)

lemma sk_deliver_fields [frame_simps, simp]:
  "sk_maxlen (sk_deliver send s e) = sk_maxlen s" "sk_mandatory (sk_deliver send s e) = sk_mandatory s"
  by (simp_all add: sk_deliver_def sk_buffer_def Let_def case_prod_unfold)

text \<open>An event is dropped only when the buffer was full before it.\<close>

lemma sk_deliver_keeps:
  assumes "length (sk_pending s) < sk_maxlen s"
  shows "sk_dropped (sk_deliver send s e) = sk_dropped s"
  using assms length_sk_flush [of send s]
  by (simp add: sk_deliver_def sk_buffer_def Let_def case_prod_unfold)

lemma sk_deliver_pending_Suc: "length (sk_pending (sk_deliver send s e)) \<le> Suc (length (sk_pending s))"
  using length_sk_flush [of send s]
  by (simp add: sk_deliver_def sk_buffer_def Let_def case_prod_unfold)

lemma sk_pending_bounded:
  assumes "length (sk_pending s) \<le> sk_maxlen s"
  shows "length (sk_pending (sink_step send s c)) \<le> sk_maxlen s"
proof -
  have "length (sk_pending (sk_flush send s)) \<le> sk_maxlen s"
    using length_sk_flush [of send s] assms by simp
  then show ?thesis by (cases c) (simp_all add: sk_deliver_def sk_buffer_def Let_def case_prod_unfold)
qed

text \<open>What every hand-over keeps of the transport, every call on the sink keeps.\<close>

lemma flush_pending_keeps:
  assumes "\<And>e t. keep t \<Longrightarrow> keep (snd (send e t))"
  shows "keep t \<Longrightarrow> keep (snd (flush_pending send es t))"
  using assms by (induction es arbitrary: t) (simp_all add: case_prod_unfold Let_def)

lemma sink_step_keeps:
  assumes "\<And>e t. keep t \<Longrightarrow> keep (snd (send e t))" and "keep (sk_transport s)"
  shows "keep (sk_transport (sink_step send s c))"
proof -
  have "keep (sk_transport (sk_flush send s))"
    using flush_pending_keeps [of keep send] assms by (simp add: sk_flush_def case_prod_unfold Let_def)
  then show ?thesis
    using assms(1) by (cases c) (simp_all add: sk_deliver_def sk_buffer_def Let_def case_prod_unfold)
qed

lemma sink_run_keeps:
  assumes "\<And>e t. keep t \<Longrightarrow> keep (snd (send e t))"
  shows "keep (sk_transport s) \<Longrightarrow> keep (sk_transport (sink_run send s calls))"
  unfolding sink_run_def
proof (induction calls arbitrary: s)
  case (Cons c calls)
  then show ?case using sink_step_keeps [of keep, OF assms] by simp
qed simp

context audit_transport
begin

text \<open>What is on record or still buffered, in order.\<close>

definition trail :: "'t audit_sink \<Rightarrow> audit_event list" where
  "trail s = taken (sk_transport s) @ sk_pending s"

lemma flush_pending_trail:
  "flush_pending send es t = (es', t') \<Longrightarrow> taken t' @ es' = taken t @ es"
proof (induction es arbitrary: t)
  case (Cons e es)
  obtain ok t1 where t1: "send e t = (ok, t1)" by fastforce
  then show ?case
    using Cons taken_sent [of e t t1] taken_refused [of e t t1] by (cases ok) auto
qed simp

lemma trail_flush [simp]: "trail (sk_flush send s) = trail s"
  using flush_pending_trail [of "sk_pending s" "sk_transport s"]
  by (cases "flush_pending send (sk_pending s) (sk_transport s)") (simp add: trail_def sk_flush_def)

lemma trail_deliver:
  "trail (sk_deliver send s e) = trail s @ [e] \<and> sk_dropped (sk_deliver send s e) = sk_dropped s
    \<or> trail (sk_deliver send s e) = trail s \<and> sk_dropped (sk_deliver send s e) = Suc (sk_dropped s)"
proof -
  let ?s = "sk_flush send s"
  have base: "taken (sk_transport ?s) @ sk_pending ?s = trail s"
    using trail_flush [of s] by (simp add: trail_def)
  obtain ok t where t: "send e (sk_transport ?s) = (ok, t)" by fastforce
  show ?thesis
  proof (cases "sk_pending ?s = [] \<and> ok")
    case True
    then have "taken t = trail s @ [e]" using taken_sent [of e] t base by simp
    then show ?thesis using True t by (simp add: sk_deliver_def trail_def)
  next
    case False
    then show ?thesis
      using t base taken_refused [of e "sk_transport ?s" t]
      by (auto simp: sk_deliver_def sk_buffer_def trail_def Let_def)
  qed
qed

lemma trail_run:
  "\<exists>kept. trail (sink_run send s calls) = trail s @ kept
     \<and> subseq kept (concat (map delivered_by calls))
     \<and> length kept + sk_dropped (sink_run send s calls)
         = length (concat (map delivered_by calls)) + sk_dropped s"
proof (induction calls rule: rev_induct)
  case Nil
  then show ?case by (simp add: sink_run_def)
next
  case (snoc c calls)
  then obtain kept where k: "trail (sink_run send s calls) = trail s @ kept"
    "subseq kept (concat (map delivered_by calls))"
    "length kept + sk_dropped (sink_run send s calls) = length (concat (map delivered_by calls)) + sk_dropped s"
    by blast
  have run: "sink_run send s (calls @ [c]) = sink_step send (sink_run send s calls) c"
    by (simp add: sink_run_def)
  show ?case
  proof (cases c)
    case (Deliver e)
    from trail_deliver [of "sink_run send s calls" e] show ?thesis
    proof
      assume *: "trail (sk_deliver send (sink_run send s calls) e) = trail (sink_run send s calls) @ [e]
        \<and> sk_dropped (sk_deliver send (sink_run send s calls) e) = sk_dropped (sink_run send s calls)"
      have "subseq (kept @ [e]) (concat (map delivered_by calls) @ [e])"
        using k(2) by (rule list_emb_append_mono) simp
      then show ?thesis using * k Deliver run by (intro exI [of _ "kept @ [e]"]) simp
    next
      assume *: "trail (sk_deliver send (sink_run send s calls) e) = trail (sink_run send s calls)
        \<and> sk_dropped (sk_deliver send (sink_run send s calls) e) = Suc (sk_dropped (sink_run send s calls))"
      have "subseq kept (concat (map delivered_by calls) @ [e])"
        using list_emb_append_mono [OF k(2) list_emb_Nil, of "[e]"] by simp
      then show ?thesis using * k Deliver run by (intro exI [of _ kept]) simp
    qed
  next
    case AskAccepting
    then show ?thesis using k run by (intro exI [of _ kept]) simp
  next
    case AskState
    then show ?thesis using k run by (intro exI [of _ kept]) simp
  qed
qed

end

section \<open>Claims\<close>

text \<open>
  C12: The audit trail is complete and in order, whatever the transport does. From a new sink, and
  for any calls on it while the transport comes and goes, the events the transport took,
  followed by those still buffered, are the published events in their order with some left
  out; the number left out is exactly what \<^verbatim>\<open>dropped\<close> reports; and the buffer never holds more
  than its bound.
\<close>

theorem audit_trail_complete:
  "let s = sink_run (recorded send) (new_audit_sink maxlen (t, []) mandatory) calls
   in subseq (snd (sk_transport s) @ sk_pending s) (concat (map delivered_by calls))
    \<and> length (snd (sk_transport s) @ sk_pending s) + sk_dropped s = length (concat (map delivered_by calls))
    \<and> length (sk_pending s) \<le> maxlen"
proof -
  let ?start = "new_audit_sink maxlen (t, [] :: audit_event list) mandatory"
  let ?s = "sink_run (recorded send) ?start calls"
  have "recorded.trail ?start = []" "sk_dropped ?start = 0"
    by (simp_all add: recorded.trail_def new_audit_sink_def)
  moreover obtain kept where "recorded.trail ?s = recorded.trail ?start @ kept"
    "subseq kept (concat (map delivered_by calls))"
    "length kept + sk_dropped ?s = length (concat (map delivered_by calls)) + sk_dropped ?start"
    using recorded.trail_run [of send ?start calls] by blast
  ultimately have kept: "recorded.trail ?s = kept" "subseq kept (concat (map delivered_by calls))"
    "length kept + sk_dropped ?s = length (concat (map delivered_by calls))" by (simp_all only:) simp_all
  have "length (sk_pending (foldl (sink_step (recorded send)) s calls)) \<le> maxlen
      \<and> sk_maxlen (foldl (sink_step (recorded send)) s calls) = maxlen"
    if "length (sk_pending s) \<le> maxlen" "sk_maxlen s = maxlen" for s
    using that
  proof (induction calls arbitrary: s)
    case (Cons c calls)
    have "length (sk_pending (sink_step (recorded send) s c)) \<le> maxlen"
      using sk_pending_bounded [of s "recorded send" c] Cons.prems by simp
    moreover have "sk_maxlen (sink_step (recorded send) s c) = maxlen"
      using Cons.prems by (cases c) simp_all
    ultimately show ?case using Cons.IH by simp
  qed simp
  from this [of ?start] have "length (sk_pending ?s) \<le> maxlen"
    by (simp add: new_audit_sink_def sink_run_def)
  then show ?thesis using kept by (simp add: recorded.trail_def Let_def del: length_append)
qed

text \<open>
  C13: A sink that says it is accepting keeps its word: if audit is mandatory and
  \<^verbatim>\<open>accepting\<close> answered yes, the next event published is on record at the transport or in the
  buffer, and nothing is dropped, whatever the transport does in between. Where it answered no,
  the buffer is full and the transport refused its oldest event.
\<close>

theorem accepting_means_durable:
  assumes "sk_mandatory s" and "sk_accepting (recorded send) s = (answer, s')"
  shows "if answer
    then sk_dropped (sk_deliver (recorded send) s' e) = sk_dropped s
      \<and> snd (sk_transport (sk_deliver (recorded send) s' e)) @ sk_pending (sk_deliver (recorded send) s' e)
        = snd (sk_transport s) @ sk_pending s @ [e]
    else sk_maxlen s \<le> length (sk_pending s') \<and> snd (sk_transport s') @ sk_pending s' = snd (sk_transport s) @ sk_pending s"
proof -
  have s': "s' = sk_flush (recorded send) s" "answer = (length (sk_pending s') < sk_maxlen s)"
    using assms by (auto simp: sk_accepting_def Let_def)
  have tr: "recorded.trail s' = recorded.trail s" using s' by simp
  show ?thesis
  proof (cases answer)
    case True
    then have "sk_dropped (sk_deliver (recorded send) s' e) = sk_dropped s'"
      using s' by (intro sk_deliver_keeps) simp
    then show ?thesis
      using recorded.trail_deliver [of send s' e] tr True s'(1) by (simp add: recorded.trail_def)
  next
    case False
    then show ?thesis using s' tr by (simp add: recorded.trail_def not_less)
  qed
qed

definition example_event :: "nat \<Rightarrow> audit_event" where
  "example_event i = stamp i 0 (RejectionEvent (lit ''missing_credential'') (lit ''/v1''))"

definition refusing :: "unit send" where
  "refusing e t = (False, ())"

theorem accepting_means_durable_witness:
  "sk_dropped (sk_deliver (recorded refusing) (new_audit_sink 2 ((), []) True) (example_event 1)) = 0"
  using accepting_means_durable [of "new_audit_sink 2 ((), []) True" refusing True
      "new_audit_sink 2 ((), []) True" "example_event 1"]
  by (simp add: new_audit_sink_def sk_accepting_def sk_flush_def)

end
