(* ===== verification/Approvals.thy ===== *)
theory Approvals
  imports Models
begin

text \<open>
  Exact-action approvals, \<^verbatim>\<open>approvals.py\<close>. First the contract of the
  \<^verbatim>\<open>ApprovalRepository\<close> protocol as the locale \<open>approval_repository\<close>, with what every
  client can rely on proved once inside it: an approval is consumed at most once, only after
  a reviewer approved that digest for that tenant, and never once closed. Then the in-memory
  \<^verbatim>\<open>ApprovalStore\<close>, which interprets the locale; the SQL store does so in its own theory.
  Each repository call takes one reading of the clock, in microseconds, as its argument.
\<close>

section \<open>The repository protocol\<close>

datatype store_error = StoreUnavailableError

record 's approval_repo =
  repo_create :: "'s \<Rightarrow> int \<Rightarrow> uuid \<Rightarrow> str \<Rightarrow> str \<Rightarrow> str \<Rightarrow> (store_error + approval) \<times> 's"
  repo_get :: "'s \<Rightarrow> int \<Rightarrow> uuid \<Rightarrow> (store_error + approval option) \<times> 's"
  repo_approve :: "'s \<Rightarrow> int \<Rightarrow> uuid \<Rightarrow> str \<Rightarrow> str \<Rightarrow> (store_error + approval option) \<times> 's"
  repo_reject :: "'s \<Rightarrow> int \<Rightarrow> uuid \<Rightarrow> str \<Rightarrow> str \<Rightarrow> (store_error + approval option) \<times> 's"
  repo_consume :: "'s \<Rightarrow> int \<Rightarrow> uuid \<Rightarrow> str \<Rightarrow> str \<Rightarrow> (store_error + bool) \<times> 's"

definition approval_open :: "approval_status \<Rightarrow> bool" where
  "approval_open st \<longleftrightarrow> st \<in> {PENDING, APPROVED}"

definition expire :: "int \<Rightarrow> approval \<Rightarrow> approval" where
  "expire now r =
     (if approval_open (ap_status r) \<and> now \<ge> ap_expires_at r then r\<lparr>ap_status := EXPIRED\<rparr> else r)"

lemma expire_idem [simp]: "t \<le> t' \<Longrightarrow> expire t' (expire t r) = expire t' r"
  by (auto simp: expire_def approval_open_def)

lemma expire_fields [frame_simps, simp]:
  "ap_approval_id (expire t r) = ap_approval_id r" "ap_action_digest (expire t r) = ap_action_digest r"
  "ap_tenant_id (expire t r) = ap_tenant_id r" "ap_requested_by (expire t r) = ap_requested_by r"
  "ap_reviewer (expire t r) = ap_reviewer r" "ap_rationale (expire t r) = ap_rationale r"
  "ap_issued_at (expire t r) = ap_issued_at r" "ap_expires_at (expire t r) = ap_expires_at r"
  by (simp_all add: expire_def)

lemma expire_closed [simp]: "\<not> approval_open (ap_status r) \<Longrightarrow> expire t r = r"
  by (simp add: expire_def)

lemma expire_status:
  "ap_status (expire t r) = (if approval_open (ap_status r) \<and> ap_expires_at r \<le> t then EXPIRED
     else ap_status r)"
  by (simp add: expire_def)

text \<open>What an adjudication and a consumption do to the record they find.\<close>

definition adjudicate_record :: "str \<Rightarrow> str \<Rightarrow> approval_status \<Rightarrow> approval \<Rightarrow> approval" where
  "adjudicate_record reviewer rationale outcome r =
     (if ap_status r = PENDING
      then r\<lparr>ap_reviewer := Some reviewer, ap_rationale := Some rationale, ap_status := outcome\<rparr>
      else r)"

definition consumable :: "str \<Rightarrow> str \<Rightarrow> approval \<Rightarrow> bool" where
  "consumable digest tenant r \<longleftrightarrow>
     ap_status r = APPROVED \<and> ap_action_digest r = digest \<and> ap_tenant_id r = tenant"

text \<open>
  \<open>seen s t i\<close> is the record a read of \<open>i\<close> at time \<open>t\<close> would return. A new record may be
  evicted or purged, so creating one may forget others; nothing else changes a record but the
  operation on it and the passing of time. A failed call may have been applied or not.
\<close>

locale approval_repository =
  fixes repo :: "'s approval_repo"
    and seen :: "'s \<Rightarrow> int \<Rightarrow> uuid \<Rightarrow> approval option"
    and inv :: "'s \<Rightarrow> bool"
  assumes seen_later: "inv s \<Longrightarrow> t \<le> t' \<Longrightarrow> seen s t' i = map_option (expire t') (seen s t i)"
    and create_self: "inv s \<Longrightarrow> seen s t i = None \<Longrightarrow> t \<le> t' \<Longrightarrow>
      seen (snd (repo_create repo s t i d tn rq)) t' i = Some r \<Longrightarrow>
      ap_status r \<in> {PENDING, EXPIRED} \<and> ap_action_digest r = d \<and> ap_tenant_id r = tn
        \<and> ap_requested_by r = rq"
    and create_other: "inv s \<Longrightarrow> seen s t i = None \<Longrightarrow> t \<le> t' \<Longrightarrow> i' \<noteq> i \<Longrightarrow>
      seen (snd (repo_create repo s t i d tn rq)) t' i' = Some r \<Longrightarrow> seen s t' i' = Some r"
    and create_inv: "inv s \<Longrightarrow> seen s t i = None \<Longrightarrow> inv (snd (repo_create repo s t i d tn rq))"
    and get_result: "inv s \<Longrightarrow> repo_get repo s t i = (Inr x, s') \<Longrightarrow> x = seen s t i"
    and get_state: "inv s \<Longrightarrow> t \<le> t' \<Longrightarrow> seen (snd (repo_get repo s t i)) t' i' = seen s t' i'"
    and get_inv: "inv s \<Longrightarrow> inv (snd (repo_get repo s t i))"
    and approve_self: "inv s \<Longrightarrow> t \<le> t' \<Longrightarrow>
      seen (snd (repo_approve repo s t i rv ra)) t' i
        \<in> {map_option (expire t' \<circ> adjudicate_record rv ra APPROVED) (seen s t i), seen s t' i}"
    and approve_other: "inv s \<Longrightarrow> t \<le> t' \<Longrightarrow> i' \<noteq> i \<Longrightarrow>
      seen (snd (repo_approve repo s t i rv ra)) t' i' = seen s t' i'"
    and approve_inv: "inv s \<Longrightarrow> inv (snd (repo_approve repo s t i rv ra))"
    and approve_answer: "inv s \<Longrightarrow> repo_approve repo s t i rv ra = (Inr x, s') \<Longrightarrow> x = seen s' t i"
    and reject_answer: "inv s \<Longrightarrow> repo_reject repo s t i rv ra = (Inr x, s') \<Longrightarrow> x = seen s' t i"
    and reject_self: "inv s \<Longrightarrow> t \<le> t' \<Longrightarrow>
      seen (snd (repo_reject repo s t i rv ra)) t' i
        \<in> {map_option (expire t' \<circ> adjudicate_record rv ra REJECTED) (seen s t i), seen s t' i}"
    and reject_other: "inv s \<Longrightarrow> t \<le> t' \<Longrightarrow> i' \<noteq> i \<Longrightarrow>
      seen (snd (repo_reject repo s t i rv ra)) t' i' = seen s t' i'"
    and reject_inv: "inv s \<Longrightarrow> inv (snd (repo_reject repo s t i rv ra))"
    and consume_result: "inv s \<Longrightarrow> repo_consume repo s t i d tn = (Inr b, s') \<Longrightarrow>
      b = (\<exists>r. seen s t i = Some r \<and> consumable d tn r)"
    and consume_self: "inv s \<Longrightarrow> t \<le> t' \<Longrightarrow> repo_consume repo s t i d tn = (Inr True, s') \<Longrightarrow>
      seen s' t' i = map_option (\<lambda>r. r\<lparr>ap_status := CONSUMED\<rparr>) (seen s t i)"
    and consume_none: "inv s \<Longrightarrow> t \<le> t' \<Longrightarrow> repo_consume repo s t i d tn = (y, s') \<Longrightarrow>
      y \<noteq> Inr True \<Longrightarrow> seen s' t' i = seen s t' i
        \<or> y \<noteq> Inr False \<and> (\<exists>r. seen s t i = Some r \<and> consumable d tn r
            \<and> seen s' t' i = Some (r\<lparr>ap_status := CONSUMED\<rparr>))"
    and consume_other: "inv s \<Longrightarrow> t \<le> t' \<Longrightarrow> i' \<noteq> i \<Longrightarrow>
      seen (snd (repo_consume repo s t i d tn)) t' i' = seen s t' i'"
    and consume_inv: "inv s \<Longrightarrow> inv (snd (repo_consume repo s t i d tn))"

text \<open>
  A history of calls, from any number of callers: the store serialises them, each at its own
  clock reading.
\<close>

datatype approval_call =
    Create uuid str str str
  | Get uuid
  | Approve uuid str str
  | Reject uuid str str
  | Consume uuid str str

fun call_step :: "'s approval_repo \<Rightarrow> 's \<Rightarrow> int \<Rightarrow> approval_call \<Rightarrow> bool \<times> 's" where
  "call_step R s t (Create i d tn rq) = (False, snd (repo_create R s t i d tn rq))"
| "call_step R s t (Get i) = (False, snd (repo_get R s t i))"
| "call_step R s t (Approve i rv ra) = (False, snd (repo_approve R s t i rv ra))"
| "call_step R s t (Reject i rv ra) = (False, snd (repo_reject R s t i rv ra))"
| "call_step R s t (Consume i d tn) =
     (case repo_consume R s t i d tn of (x, s') \<Rightarrow> (x = Inr True, s'))"

text \<open>The calls of a history whose consumption succeeded, in order.\<close>

fun consumed_in :: "'s approval_repo \<Rightarrow> 's \<Rightarrow> (int \<times> approval_call) list \<Rightarrow> (int \<times> approval_call) list" where
  "consumed_in R s [] = []"
| "consumed_in R s ((t, c) # cs) =
     (if fst (call_step R s t c) then [(t, c)] else [])
       @ consumed_in R (snd (call_step R s t c)) cs"

fun state_after :: "'s approval_repo \<Rightarrow> 's \<Rightarrow> (int \<times> approval_call) list \<Rightarrow> 's" where
  "state_after R s [] = s"
| "state_after R s ((t, c) # cs) = state_after R (snd (call_step R s t c)) cs"

fun created_ids :: "approval_call list \<Rightarrow> uuid list" where
  "created_ids [] = []"
| "created_ids (Create i d tn rq # cs) = i # created_ids cs"
| "created_ids (_ # cs) = created_ids cs"

text \<open>Those that consumed one approval.\<close>

fun consumes_id :: "uuid \<Rightarrow> approval_call \<Rightarrow> bool" where
  "consumes_id i (Consume j d tn) = (j = i)"
| "consumes_id i _ = False"

definition consumptions :: "uuid \<Rightarrow> (int \<times> approval_call) list \<Rightarrow> (int \<times> approval_call) list" where
  "consumptions i cs = filter (\<lambda>(t, c). consumes_id i c) cs"

lemma consumes_id_iff: "consumes_id i c = (\<exists>d tn. c = Consume i d tn)"
  by (cases c) auto

text \<open>Identifiers are drawn fresh, so no history creates one twice, and time does not run back.\<close>

definition fair_history :: "(int \<times> approval_call) list \<Rightarrow> bool" where
  "fair_history cs \<longleftrightarrow> sorted (map fst cs) \<and> distinct (created_ids (map snd cs))"

context approval_repository
begin

lemma seen_now: "inv s \<Longrightarrow> seen s t i = Some r \<Longrightarrow> expire t r = r"
  using seen_later [of s t t i] by simp

lemma call_step_inv:
  assumes "inv s" and "\<forall>i \<in> set (created_ids [c]). seen s t i = None"
  shows "inv (snd (call_step repo s t c))"
proof (cases c)
  case (Consume i d tn)
  then show ?thesis using consume_inv [OF assms(1)] by (simp add: case_prod_beta)
qed (use assms create_inv get_inv approve_inv reject_inv in auto)

lemma seen_adjudicated:
  assumes "inv s" and "seen s' t i = Some r'"
    and "seen s' t i \<in> {map_option (expire t \<circ> adjudicate_record rv ra outcome) (seen s t i), seen s t i}"
  shows "seen s t i = Some r' \<or> (\<exists>r. seen s t i = Some r \<and> ap_status r = PENDING
    \<and> r' = expire t (adjudicate_record rv ra outcome r))"
proof (cases "seen s t i = Some r'")
  case False
  with assms(2,3) have "map_option (expire t \<circ> adjudicate_record rv ra outcome) (seen s t i) = Some r'"
    by auto
  then obtain r where r: "seen s t i = Some r" "r' = expire t (adjudicate_record rv ra outcome r)"
    by (cases "seen s t i") auto
  moreover have "expire t r = r" using assms(1) r(1) by (rule seen_now)
  ultimately show ?thesis using False by (cases "ap_status r = PENDING") (auto simp: adjudicate_record_def)
qed simp

text \<open>Every way a record can come to be seen after a call.\<close>

lemma call_step_seen:
  assumes inv: "inv s" and fresh: "\<forall>i \<in> set (created_ids [c]). seen s t i = None"
    and r': "seen (snd (call_step repo s t c)) t i = Some r'"
  shows "seen s t i = Some r'
    \<or> (\<exists>d tn rq. c = Create i d tn rq \<and> ap_status r' \<in> {PENDING, EXPIRED}
         \<and> ap_action_digest r' = d \<and> ap_tenant_id r' = tn \<and> ap_requested_by r' = rq)
    \<or> (\<exists>r rv ra. c = Approve i rv ra \<and> seen s t i = Some r \<and> ap_status r = PENDING
         \<and> r' = expire t (adjudicate_record rv ra APPROVED r))
    \<or> (\<exists>r rv ra. c = Reject i rv ra \<and> seen s t i = Some r \<and> ap_status r = PENDING
         \<and> r' = expire t (adjudicate_record rv ra REJECTED r))
    \<or> (\<exists>r d tn. c = Consume i d tn \<and> seen s t i = Some r \<and> consumable d tn r
         \<and> r' = r\<lparr>ap_status := CONSUMED\<rparr>)"
proof (cases c)
  case (Create j d tn rq)
  then have none: "seen s t j = None" and r'': "seen (snd (repo_create repo s t j d tn rq)) t i = Some r'"
    using fresh r' by simp_all
  show ?thesis
  proof (cases "i = j")
    case True
    then show ?thesis using create_self [OF inv none order_refl] r'' Create by blast
  next
    case False
    then show ?thesis using create_other [OF inv none order_refl _ r''] by blast
  qed
next
  case (Get j)
  then show ?thesis using get_state [OF inv order_refl] r' by simp
next
  case (Approve j rv ra)
  show ?thesis
  proof (cases "i = j")
    case True
    then show ?thesis
      using seen_adjudicated [OF inv _ approve_self [OF inv order_refl]] r' Approve by fastforce
  next
    case False
    then show ?thesis using approve_other [OF inv order_refl] r' Approve by simp
  qed
next
  case (Reject j rv ra)
  show ?thesis
  proof (cases "i = j")
    case True
    then show ?thesis
      using seen_adjudicated [OF inv _ reject_self [OF inv order_refl]] r' Reject by fastforce
  next
    case False
    then show ?thesis using reject_other [OF inv order_refl] r' Reject by simp
  qed
next
  case (Consume j d tn)
  obtain x s' where x: "repo_consume repo s t j d tn = (x, s')" by fastforce
  have r'': "seen s' t i = Some r'" using r' Consume x by simp
  show ?thesis
  proof (cases "x = Inr True \<and> i = j")
    case True
    then have "\<exists>r. seen s t i = Some r \<and> consumable d tn r"
      using consume_result [OF inv] x by blast
    moreover have "seen s' t i = map_option (\<lambda>r. r\<lparr>ap_status := CONSUMED\<rparr>) (seen s t i)"
      using True consume_self [OF inv order_refl] x by blast
    ultimately show ?thesis using r'' True Consume by auto
  next
    case False
    then have "seen s' t i = seen s t i
        \<or> i = j \<and> (\<exists>r. seen s t i = Some r \<and> consumable d tn r \<and> seen s' t i = Some (r\<lparr>ap_status := CONSUMED\<rparr>))"
      using consume_none [OF inv order_refl x] consume_other [OF inv, of t t i j d tn] x
      by (cases "i = j") auto
    then show ?thesis using r'' Consume by auto
  qed
qed

lemma call_step_consumed:
  assumes "inv s" and "fst (call_step repo s t c)"
  shows "\<exists>i d tn r. c = Consume i d tn \<and> seen s t i = Some r \<and> consumable d tn r
    \<and> seen (snd (call_step repo s t c)) t i = Some (r\<lparr>ap_status := CONSUMED\<rparr>)"
proof -
  obtain i d tn where c: "c = Consume i d tn" using assms(2) by (cases c) auto
  with assms(2) obtain s' where s': "repo_consume repo s t i d tn = (Inr True, s')"
    by (auto split: prod.splits)
  then obtain r where "seen s t i = Some r" "consumable d tn r"
    using consume_result [OF assms(1)] by blast
  moreover have "seen s' t i = map_option (\<lambda>r. r\<lparr>ap_status := CONSUMED\<rparr>) (seen s t i)"
    using consume_self [OF assms(1) order_refl s'] .
  ultimately show ?thesis using c s' by simp
qed

definition ready :: "'s \<Rightarrow> int \<Rightarrow> (int \<times> approval_call) list \<Rightarrow> bool" where
  "ready s t cs \<longleftrightarrow> inv s \<and> fair_history cs \<and> (\<forall>x \<in> set cs. t \<le> fst x)
     \<and> (\<forall>i \<in> set (created_ids (map snd cs)). seen s t i = None)"

lemma created_ids_Cons: "created_ids (c # cs) = created_ids [c] @ created_ids cs"
  by (cases c) auto

lemma seen_mono_None: "inv s \<Longrightarrow> t \<le> t' \<Longrightarrow> seen s t' i = None \<longleftrightarrow> seen s t i = None"
  using seen_later by simp

lemma ready_step:
  assumes "ready s t0 ((t, c) # cs)"
  shows "inv s" "t0 \<le> t" "\<forall>i \<in> set (created_ids [c]). seen s t i = None"
    "ready (snd (call_step repo s t c)) t cs"
proof -
  show inv: "inv s" and t: "t0 \<le> t" using assms by (auto simp: ready_def)
  have none: "\<forall>i \<in> set (created_ids (c # map snd cs)). seen s t i = None"
    using assms seen_mono_None [OF inv t] by (simp add: ready_def)
  then show fresh: "\<forall>i \<in> set (created_ids [c]). seen s t i = None"
    by (subst (asm) created_ids_Cons) auto
  have dist: "distinct (created_ids [c] @ created_ids (map snd cs))"
    using assms by (simp add: ready_def fair_history_def flip: created_ids_Cons)
  have "seen (snd (call_step repo s t c)) t i = None" if "i \<in> set (created_ids (map snd cs))" for i
  proof (rule ccontr)
    assume "seen (snd (call_step repo s t c)) t i \<noteq> None"
    then obtain r' where "seen (snd (call_step repo s t c)) t i = Some r'" by blast
    from call_step_seen [OF inv fresh this] none that dist
    show False by (subst (asm) created_ids_Cons) auto
  qed
  moreover have "fair_history cs" "\<forall>x \<in> set cs. t \<le> fst x"
    using assms dist by (auto simp: ready_def fair_history_def)
  ultimately show "ready (snd (call_step repo s t c)) t cs"
    using call_step_inv [OF inv fresh] by (simp add: ready_def)
qed

text \<open>A record that is closed, or gone, is never consumed again.\<close>

definition closed_at :: "'s \<Rightarrow> int \<Rightarrow> uuid \<Rightarrow> bool" where
  "closed_at s t i \<longleftrightarrow> (\<forall>r. seen s t i = Some r \<longrightarrow> \<not> approval_open (ap_status r))"

lemma closed_later: "inv s \<Longrightarrow> t \<le> t' \<Longrightarrow> closed_at s t i \<Longrightarrow> closed_at s t' i"
  using seen_later [of s t t' i] by (auto simp: closed_at_def)

lemma closed_never_consumed:
  assumes "ready s t0 cs" and "closed_at s t0 i" and "i \<notin> set (created_ids (map snd cs))"
  shows "\<forall>(t, c) \<in> set (consumed_in repo s cs). \<forall>d tn. c \<noteq> Consume i d tn"
  using assms
proof (induction cs arbitrary: s t0)
  case Nil
  then show ?case by simp
next
  case (Cons tc cs)
  obtain t c where tc: "tc = (t, c)" by fastforce
  note step = ready_step [OF Cons.prems(1) [unfolded tc]]
  let ?s' = "snd (call_step repo s t c)"
  have closed: "closed_at s t i" using closed_later [OF step(1,2)] Cons.prems(2) by blast
  have notin: "i \<notin> set (created_ids [c])" "i \<notin> set (created_ids (map snd cs))"
    using Cons.prems(3) created_ids_Cons [of c "map snd cs"] by (auto simp: tc)
  have "closed_at ?s' t i"
    using call_step_seen [OF step(1,3), of i] closed notin(1)
    by (auto simp: closed_at_def consumable_def approval_open_def)
  from Cons.IH [OF step(4) this notin(2)]
  have rest: "\<forall>(t, c) \<in> set (consumed_in repo ?s' cs). \<forall>d tn. c \<noteq> Consume i d tn" .
  have "\<forall>d tn. c \<noteq> Consume i d tn" if "fst (call_step repo s t c)"
    using call_step_consumed [OF step(1) that] closed
    by (auto simp: closed_at_def consumable_def approval_open_def)
  with rest show ?case unfolding tc consumed_in.simps by (auto simp del: call_step.simps)
qed

text \<open>At most one consumption of an approval succeeds, whoever presents it and whenever.\<close>

lemma consumed_once:
  assumes "ready s t0 cs"
  shows "length (consumptions i (consumed_in repo s cs)) \<le> 1"
  using assms
proof (induction cs arbitrary: s t0)
  case Nil
  then show ?case by (simp add: consumptions_def)
next
  case (Cons tc cs)
  obtain t c where tc: "tc = (t, c)" by fastforce
  note step = ready_step [OF Cons.prems [unfolded tc]]
  let ?s' = "snd (call_step repo s t c)"
  note ih = Cons.IH [OF step(4)]
  show ?case
  proof (cases "fst (call_step repo s t c) \<and> (\<exists>d tn. c = Consume i d tn)")
    case True
    then obtain r where r: "seen s t i = Some r" "seen ?s' t i = Some (r\<lparr>ap_status := CONSUMED\<rparr>)"
      using call_step_consumed [OF step(1)] by blast
    have "i \<notin> set (created_ids (map snd cs))"
      using step(4) r(2) by (auto simp: ready_def)
    moreover have "closed_at ?s' t i" using r(2) by (simp add: closed_at_def approval_open_def)
    ultimately have "consumptions i (consumed_in repo ?s' cs) = []"
      using closed_never_consumed [OF step(4)]
      unfolding consumptions_def filter_empty_conv consumes_id_iff by blast
    then show ?thesis unfolding tc by (simp add: consumptions_def del: call_step.simps)
  next
    case False
    then have "consumptions i (consumed_in repo s (tc # cs))
        = consumptions i (consumed_in repo ?s' cs)"
      unfolding tc by (auto simp: consumptions_def consumes_id_iff simp del: call_step.simps)
    with ih show ?thesis by simp
  qed
qed

text \<open>
  What every record in the store rests on, given the calls so far: it was created with that
  digest for that tenant, and once it is approved or consumed, a reviewer approved it.
\<close>

definition explained :: "'s \<Rightarrow> int \<Rightarrow> approval_call set \<Rightarrow> bool" where
  "explained s t hist \<longleftrightarrow> (\<forall>i r. seen s t i = Some r \<longrightarrow>
     Create i (ap_action_digest r) (ap_tenant_id r) (ap_requested_by r) \<in> hist
     \<and> (ap_status r \<in> {APPROVED, CONSUMED} \<longrightarrow>
          (\<exists>rv ra. ap_reviewer r = Some rv \<and> Approve i rv ra \<in> hist)))"

lemma explainedD:
  assumes "explained s t hist" and "seen s t i = Some r"
  shows "Create i (ap_action_digest r) (ap_tenant_id r) (ap_requested_by r) \<in> hist"
    and "ap_status r = APPROVED \<or> ap_status r = CONSUMED \<Longrightarrow>
      \<exists>rv ra. ap_reviewer r = Some rv \<and> Approve i rv ra \<in> hist"
  using assms by (simp_all add: explained_def) blast+

lemma explained_later:
  assumes "inv s" and "t \<le> t'" and "explained s t hist"
  shows "explained s t' hist"
  unfolding explained_def
proof (intro allI impI)
  fix i r assume "seen s t' i = Some r"
  then obtain r0 where r0: "seen s t i = Some r0" "r = expire t' r0"
    using seen_later [OF assms(1,2)] by auto
  have "ap_status r \<in> {APPROVED, CONSUMED} \<longrightarrow> ap_status r0 \<in> {APPROVED, CONSUMED}"
    by (simp add: r0(2) expire_status)
  then show "Create i (ap_action_digest r) (ap_tenant_id r) (ap_requested_by r) \<in> hist
     \<and> (ap_status r \<in> {APPROVED, CONSUMED} \<longrightarrow>
          (\<exists>rv ra. ap_reviewer r = Some rv \<and> Approve i rv ra \<in> hist))"
    using assms(3) r0 by (auto simp: explained_def)
qed

lemma explained_step:
  assumes "ready s t0 ((t, c) # cs)" and "explained s t0 hist"
  shows "explained (snd (call_step repo s t c)) t (insert c hist)"
  unfolding explained_def
proof (intro allI impI)
  note step = ready_step [OF assms(1)]
  have ex: "explained s t hist" using explained_later [OF step(1,2) assms(2)] .
  fix i r' assume "seen (snd (call_step repo s t c)) t i = Some r'"
  from call_step_seen [OF step(1,3) this]
  show "Create i (ap_action_digest r') (ap_tenant_id r') (ap_requested_by r') \<in> insert c hist
     \<and> (ap_status r' \<in> {APPROVED, CONSUMED} \<longrightarrow>
          (\<exists>rv ra. ap_reviewer r' = Some rv \<and> Approve i rv ra \<in> insert c hist))"
  proof (elim disjE exE conjE)
    assume "seen s t i = Some r'"
    then show ?thesis using explainedD [OF ex] by blast
  next
    fix r rv ra assume "c = Approve i rv ra" "seen s t i = Some r" "ap_status r = PENDING"
      "r' = expire t (adjudicate_record rv ra APPROVED r)"
    then show ?thesis using explainedD(1) [OF ex] by (auto simp: adjudicate_record_def)
  next
    fix r rv ra assume "c = Reject i rv ra" "seen s t i = Some r" "ap_status r = PENDING"
      "r' = expire t (adjudicate_record rv ra REJECTED r)"
    then show ?thesis using explainedD(1) [OF ex] by (auto simp: adjudicate_record_def expire_status approval_open_def)
  next
    fix r d tn assume "c = Consume i d tn" "seen s t i = Some r" "consumable d tn r"
      "r' = r\<lparr>ap_status := CONSUMED\<rparr>"
    then show ?thesis using explainedD [OF ex, of i r] by (auto simp: consumable_def)
  qed auto
qed

lemma consumed_authorised:
  assumes "ready s t0 cs" and "explained s t0 hist"
    and "(t, Consume i d tn) \<in> set (consumed_in repo s cs)"
  shows "\<exists>pre post rq rv ra. cs = pre @ (t, Consume i d tn) # post
    \<and> Create i d tn rq \<in> hist \<union> snd ` set pre \<and> Approve i rv ra \<in> hist \<union> snd ` set pre"
  using assms
proof (induction cs arbitrary: s t0 hist)
  case Nil
  then show ?case by simp
next
  case (Cons uc cs)
  obtain u c where uc: "uc = (u, c)" by fastforce
  note step = ready_step [OF Cons.prems(1) [unfolded uc]]
  show ?case
  proof (cases "fst (call_step repo s u c) \<and> (u, c) = (t, Consume i d tn)")
    case True
    then obtain r where r: "seen s u i = Some r" "consumable d tn r"
      using call_step_consumed [OF step(1)] by blast
    have "explained s u hist" using explained_later [OF step(1,2) Cons.prems(2)] .
    then obtain rv ra where "Create i d tn (ap_requested_by r) \<in> hist" "Approve i rv ra \<in> hist"
      using r explainedD [of s u hist i r] by (auto simp: consumable_def)
    then have "uc # cs = [] @ (t, Consume i d tn) # cs
        \<and> Create i d tn (ap_requested_by r) \<in> hist \<union> snd ` set []
        \<and> Approve i rv ra \<in> hist \<union> snd ` set []"
      using True uc by simp
    then show ?thesis by blast
  next
    case False
    then have "(t, Consume i d tn) \<in> set (consumed_in repo (snd (call_step repo s u c)) cs)"
      using Cons.prems(3) unfolding uc by (auto simp del: call_step.simps split: if_splits)
    from Cons.IH [OF step(4) explained_step [OF Cons.prems(1) [unfolded uc] Cons.prems(2)] this]
    obtain pre post rq rv ra where ih: "cs = pre @ (t, Consume i d tn) # post"
      "Create i d tn rq \<in> insert c hist \<union> snd ` set pre"
      "Approve i rv ra \<in> insert c hist \<union> snd ` set pre" by blast
    show ?thesis
      by (rule exI [of _ "uc # pre"], rule exI [of _ post], rule exI [of _ rq], rule exI [of _ rv],
          rule exI [of _ ra]) (use ih uc in auto)
  qed
qed

text \<open>Both, for any history on a store that holds nothing yet.\<close>

lemma empty_store_sound:
  assumes "inv s" and "\<And>u j. seen s u j = None" and "fair_history cs"
  shows "length (consumptions i (consumed_in repo s cs)) \<le> 1
    \<and> ((t, Consume i d tn) \<in> set (consumed_in repo s cs) \<longrightarrow>
        (\<exists>pre post rq rv ra. cs = pre @ (t, Consume i d tn) # post
          \<and> Create i d tn rq \<in> snd ` set pre \<and> Approve i rv ra \<in> snd ` set pre))"
proof -
  let ?start = "if cs = [] then 0 else fst (hd cs)"
  have "\<forall>x \<in> set cs. ?start \<le> fst x"
    using assms(3) by (cases cs) (auto simp: fair_history_def)
  then have ready: "ready s ?start cs"
    using assms by (simp add: ready_def)
  have "explained s ?start {}" using assms(2) by (simp add: explained_def)
  from consumed_once [OF ready] consumed_authorised [OF ready this, of t i d tn]
  show ?thesis by auto
qed

end

section \<open>ApprovalStore, the in-memory adapter\<close>

record approval_store =
  as_ttl_seconds :: int
  as_max_records :: nat
  as_records :: "(uuid, approval) odict"
  as_evicted :: "approval_status \<Rightarrow> nat"

definition DEFAULT_MAX_RECORDS :: nat where "DEFAULT_MAX_RECORDS = 50000"

definition new_approval_store :: "int \<Rightarrow> approval_store" where
  "new_approval_store ttl = \<lparr>as_ttl_seconds = ttl, as_max_records = DEFAULT_MAX_RECORDS,
     as_records = [], as_evicted = (\<lambda>_. 0)\<rparr>"

text \<open>\<^verbatim>\<open>timedelta(seconds=ttl)\<close> in microseconds.\<close>

definition new_approval :: "int \<Rightarrow> int \<Rightarrow> uuid \<Rightarrow> str \<Rightarrow> str \<Rightarrow> str \<Rightarrow> approval" where
  "new_approval ttl now i digest tenant requested_by =
     \<lparr>ap_approval_id = i, ap_action_digest = digest, ap_tenant_id = tenant,
      ap_requested_by = requested_by, ap_reviewer = None, ap_rationale = None,
      ap_status = PENDING, ap_issued_at = now, ap_expires_at = now + ttl * 1000000\<rparr>"

text \<open>
  The eviction loop: an approval evicted while still open counts as expired, which is what
  expiring it first gives as well.
\<close>

function evict_records :: "nat \<Rightarrow> int \<Rightarrow> (uuid, approval) odict \<Rightarrow> (approval_status \<Rightarrow> nat)
    \<Rightarrow> (uuid, approval) odict \<times> (approval_status \<Rightarrow> nat)" where
  "evict_records n now records evicted =
     (if n < length records then
        let oldest = expire now (snd (hd records));
            status = (if approval_open (ap_status oldest) then EXPIRED else ap_status oldest)
        in evict_records n now (tl records) (evicted(status := evicted status + 1))
      else (records, evicted))"
  by pat_completeness auto
termination by (relation "measure (\<lambda>(n, now, records, evicted). length records)") auto

declare evict_records.simps [simp del]

definition as_create ::
  "approval_store \<Rightarrow> int \<Rightarrow> uuid \<Rightarrow> str \<Rightarrow> str \<Rightarrow> str \<Rightarrow> (store_error + approval) \<times> approval_store" where
  "as_create s now i digest tenant requested_by =
     (let record = new_approval (as_ttl_seconds s) now i digest tenant requested_by;
          (records, evicted) =
            evict_records (as_max_records s) now (od_set i record (as_records s)) (as_evicted s)
      in (Inr record, s\<lparr>as_records := records, as_evicted := evicted\<rparr>))"

text \<open>\<^verbatim>\<open>_expire\<close> changes the stored record in place; the caller gets a copy.\<close>

definition as_get ::
  "approval_store \<Rightarrow> int \<Rightarrow> uuid \<Rightarrow> (store_error + approval option) \<times> approval_store" where
  "as_get s now i =
     (case od_get (as_records s) i of
        None \<Rightarrow> (Inr None, s)
      | Some record \<Rightarrow>
          let record = expire now record
          in (Inr (Some record), s\<lparr>as_records := od_set i record (as_records s)\<rparr>))"

definition as_adjudicate ::
  "approval_store \<Rightarrow> int \<Rightarrow> uuid \<Rightarrow> str \<Rightarrow> str \<Rightarrow> approval_status
    \<Rightarrow> (store_error + approval option) \<times> approval_store" where
  "as_adjudicate s now i reviewer rationale outcome =
     (case od_get (as_records s) i of
        None \<Rightarrow> (Inr None, s)
      | Some record \<Rightarrow>
          let record = adjudicate_record reviewer rationale outcome (expire now record)
          in (Inr (Some record), s\<lparr>as_records := od_set i record (as_records s)\<rparr>))"

definition as_approve ::
  "approval_store \<Rightarrow> int \<Rightarrow> uuid \<Rightarrow> str \<Rightarrow> str \<Rightarrow> (store_error + approval option) \<times> approval_store" where
  "as_approve s now i reviewer rationale = as_adjudicate s now i reviewer rationale APPROVED"

definition as_reject ::
  "approval_store \<Rightarrow> int \<Rightarrow> uuid \<Rightarrow> str \<Rightarrow> str \<Rightarrow> (store_error + approval option) \<times> approval_store" where
  "as_reject s now i reviewer rationale = as_adjudicate s now i reviewer rationale REJECTED"

definition as_consume ::
  "approval_store \<Rightarrow> int \<Rightarrow> uuid \<Rightarrow> str \<Rightarrow> str \<Rightarrow> (store_error + bool) \<times> approval_store" where
  "as_consume s now i digest tenant =
     (case od_get (as_records s) i of
        None \<Rightarrow> (Inr False, s)
      | Some record \<Rightarrow>
          let record = expire now record in
          if ap_status record \<noteq> APPROVED \<or> ap_action_digest record \<noteq> digest
             \<or> ap_tenant_id record \<noteq> tenant
          then (Inr False, s\<lparr>as_records := od_set i record (as_records s)\<rparr>)
          else (Inr True,
                s\<lparr>as_records := od_set i (record\<lparr>ap_status := CONSUMED\<rparr>) (as_records s)\<rparr>))"

definition approval_statuses :: "approval_status list" where
  "approval_statuses = [PENDING, APPROVED, REJECTED, CONSUMED, EXPIRED]"

text \<open>
  \<^verbatim>\<open>counts\<close>: the evicted totals plus the records still held, each expired first. The
  result lists every status in the enum's order.
\<close>

definition as_counts :: "approval_store \<Rightarrow> int \<Rightarrow> (approval_status \<times> nat) list \<times> approval_store" where
  "as_counts s now =
     (let records = map (\<lambda>(i, r). (i, expire now r)) (as_records s);
          total = (\<lambda>status. as_evicted s status
            + length (filter (\<lambda>(i, r). ap_status r = status) records))
      in (map (\<lambda>status. (status, total status)) approval_statuses, s\<lparr>as_records := records\<rparr>))"

definition memory_repo :: "approval_store approval_repo" where
  "memory_repo = \<lparr>repo_create = as_create, repo_get = as_get, repo_approve = as_approve,
     repo_reject = as_reject, repo_consume = as_consume\<rparr>"

subsection \<open>It keeps the contract\<close>

definition as_seen :: "approval_store \<Rightarrow> int \<Rightarrow> uuid \<Rightarrow> approval option" where
  "as_seen s t i = map_option (expire t) (od_get (as_records s) i)"

definition as_inv :: "approval_store \<Rightarrow> bool" where
  "as_inv s \<longleftrightarrow> od_wf (as_records s) \<and> length (as_records s) \<le> as_max_records s"

lemma evict_records_fst: "fst (evict_records n now d e) = od_evict n d"
proof (induction n d arbitrary: e rule: od_evict.induct)
  case (1 n d)
  then show ?case
    by (simp add: evict_records.simps [of n now d e] od_evict.simps [of n d] Let_def)
qed

lemma as_create_state:
  "as_records (snd (as_create s now i d tn rq))
     = od_evict (as_max_records s)
         (od_set i (new_approval (as_ttl_seconds s) now i d tn rq) (as_records s))"
  "as_max_records (snd (as_create s now i d tn rq)) = as_max_records s"
  by (simp_all add: as_create_def Let_def evict_records_fst case_prod_beta)

lemma as_seen_update [simp]:
  "as_seen (s\<lparr>as_records := od_set i r (as_records s)\<rparr>) t i'
     = (if i' = i then Some (expire t r) else as_seen s t i')"
  by (simp add: as_seen_def od_simps)

lemma as_inv_update:
  "as_inv s \<Longrightarrow> od_get (as_records s) i = Some r0 \<Longrightarrow>
   as_inv (s\<lparr>as_records := od_set i r (as_records s)\<rparr>)"
  by (simp add: as_inv_def length_od_set)

lemma as_inv_create: "as_inv s \<Longrightarrow> as_inv (snd (as_create s now i d tn rq))"
  by (simp add: as_inv_def as_create_state length_od_evict)

lemma as_seen_create:
  assumes "as_inv s" and "as_seen (snd (as_create s t i d tn rq)) t' i' = Some r"
  shows "r = expire t' (new_approval (as_ttl_seconds s) t i d tn rq) \<and> i' = i
    \<or> i' \<noteq> i \<and> as_seen s t' i' = Some r"
proof -
  let ?d = "od_set i (new_approval (as_ttl_seconds s) t i d tn rq) (as_records s)"
  have "od_wf ?d" using assms(1) by (simp add: as_inv_def)
  then have "od_get (od_evict (as_max_records s) ?d) i' = od_get ?d i'"
    using assms(2) od_get_evict [of ?d "as_max_records s" i']
    by (auto simp: as_seen_def as_create_state)
  then show ?thesis
    using assms(2) by (auto simp: as_seen_def as_create_state od_simps split: if_splits)
qed

lemma expire_consumed [simp]: "expire t (r\<lparr>ap_status := CONSUMED\<rparr>) = r\<lparr>ap_status := CONSUMED\<rparr>"
  by (simp add: approval_open_def)

lemma expire_adjudicated:
  "expire t (adjudicate_record rv ra outcome (expire t r)) = adjudicate_record rv ra outcome (expire t r)"
  by (simp add: adjudicate_record_def expire_def approval_open_def)

lemmas as_op_defs = as_get_def as_approve_def as_reject_def as_adjudicate_def as_consume_def Let_def

interpretation mem: approval_repository memory_repo as_seen as_inv
proof (unfold_locales, unfold memory_repo_def approval_repo.simps)
  fix s :: approval_store and t t' :: int and i i' d tn rq r rv ra s' x y b
  show "as_seen s t' i = map_option (expire t') (as_seen s t i)" if "t \<le> t'"
    using that by (simp add: as_seen_def option.map_comp comp_def)
  assume inv: "as_inv s"
  show "ap_status r \<in> {PENDING, EXPIRED} \<and> ap_action_digest r = d \<and> ap_tenant_id r = tn
      \<and> ap_requested_by r = rq"
    if "as_seen (snd (as_create s t i d tn rq)) t' i = Some r"
    using as_seen_create [OF inv that] by (auto simp: expire_status new_approval_def)
  show "as_seen s t' i' = Some r"
    if "i' \<noteq> i" "as_seen (snd (as_create s t i d tn rq)) t' i' = Some r"
    using as_seen_create [OF inv that(2)] that(1) by blast
  show "as_inv (snd (as_create s t i d tn rq))" using inv by (rule as_inv_create)
  show "x = as_seen s t i" if "as_get s t i = (Inr x, s')"
    using that by (auto simp: as_op_defs as_seen_def split: option.splits)
  show "as_seen (snd (as_get s t i)) t' i' = as_seen s t' i'" if "t \<le> t'"
    using that by (auto simp: as_op_defs split: option.splits) (simp add: as_seen_def)
  show "as_inv (snd (as_get s t i))"
    using inv by (auto simp: as_op_defs as_inv_update split: option.splits)
  show "as_inv (snd (as_approve s t i rv ra))" "as_inv (snd (as_reject s t i rv ra))"
    using inv by (auto simp: as_op_defs as_inv_update split: option.splits)
  show "as_inv (snd (as_consume s t i d tn))"
    using inv by (auto simp: as_op_defs as_inv_update split: option.splits)
  show "as_seen (snd (as_approve s t i rv ra)) t' i' = as_seen s t' i'" if "i' \<noteq> i"
    using that by (auto simp: as_op_defs split: option.splits)
  show "as_seen (snd (as_reject s t i rv ra)) t' i' = as_seen s t' i'" if "i' \<noteq> i"
    using that by (auto simp: as_op_defs split: option.splits)
  show "as_seen (snd (as_consume s t i d tn)) t' i' = as_seen s t' i'" if "i' \<noteq> i"
    using that by (auto simp: as_op_defs split: option.splits)
  show "as_seen (snd (as_approve s t i rv ra)) t' i
      \<in> {map_option (expire t' \<circ> adjudicate_record rv ra APPROVED) (as_seen s t i), as_seen s t' i}"
    by (auto simp: as_op_defs as_seen_def od_simps split: option.splits)
  show "as_seen (snd (as_reject s t i rv ra)) t' i
      \<in> {map_option (expire t' \<circ> adjudicate_record rv ra REJECTED) (as_seen s t i), as_seen s t' i}"
    by (auto simp: as_op_defs as_seen_def od_simps split: option.splits)
  show "b = (\<exists>r. as_seen s t i = Some r \<and> consumable d tn r)" if "as_consume s t i d tn = (Inr b, s')"
    using that by (auto simp: as_op_defs as_seen_def consumable_def split: option.splits if_splits)
  show "as_seen s' t' i = map_option (\<lambda>r. r\<lparr>ap_status := CONSUMED\<rparr>) (as_seen s t i)"
    if "as_consume s t i d tn = (Inr True, s')"
    using that by (auto simp: as_op_defs as_seen_def od_simps split: option.splits if_splits)
  show "as_seen s' t' i = as_seen s t' i \<or> y \<noteq> Inr False \<and> (\<exists>r. as_seen s t i = Some r \<and> consumable d tn r
      \<and> as_seen s' t' i = Some (r\<lparr>ap_status := CONSUMED\<rparr>))"
    if "t \<le> t'" "as_consume s t i d tn = (y, s')" "y \<noteq> Inr True"
    using that by (auto simp: as_op_defs as_seen_def od_simps split: option.splits if_splits)
  show "x = as_seen s' t i" if "as_approve s t i rv ra = (Inr x, s')" for x :: "approval option"
    using that by (auto simp: as_op_defs as_seen_def od_simps expire_adjudicated split: option.splits)
  show "x = as_seen s' t i" if "as_reject s t i rv ra = (Inr x, s')" for x :: "approval option"
    using that by (auto simp: as_op_defs as_seen_def od_simps expire_adjudicated split: option.splits)
qed

text \<open>What \<^verbatim>\<open>counts\<close> adds up to.\<close>

definition evicted_total :: "(approval_status \<Rightarrow> nat) \<Rightarrow> nat" where
  "evicted_total e = sum_list (map e approval_statuses)"

lemma evicted_total_upd: "evicted_total (e(st := e st + 1)) = evicted_total e + 1"
  by (cases st) (simp_all add: evicted_total_def approval_statuses_def)

lemma status_split:
  "sum_list (map (\<lambda>st. length (filter (\<lambda>(i, r). ap_status r = st) rs)) approval_statuses) = length rs"
proof (induction rs)
  case Nil
  then show ?case by (simp add: approval_statuses_def)
next
  case (Cons p rs)
  then show ?case
    by (cases p; cases "ap_status (snd p)") (simp_all add: approval_statuses_def)
qed

lemma as_counts_total:
  "sum_list (map snd (fst (as_counts s now))) = evicted_total (as_evicted s) + length (as_records s)"
  using status_split [of "map (\<lambda>(i, r). (i, expire now r)) (as_records s)"]
  by (simp add: as_counts_def Let_def evicted_total_def sum_list_addf comp_def)

lemma evict_records_total:
  "evicted_total (snd (evict_records n now d e)) + length (fst (evict_records n now d e))
     = evicted_total e + length d"
proof (induction n d arbitrary: e rule: od_evict.induct)
  case (1 n d)
  show ?case
  proof (cases "n < length d")
    case True
    let ?st = "if approval_open (ap_status (expire now (snd (hd d)))) then EXPIRED
      else ap_status (expire now (snd (hd d)))"
    have "evict_records n now d e = evict_records n now (tl d) (e(?st := e ?st + 1))"
      using True by (simp add: evict_records.simps [of n now d e] Let_def)
    then show ?thesis
      using 1 [OF True, of "e(?st := e ?st + 1)"] True by (simp only: evicted_total_upd length_tl)
  qed (simp add: evict_records.simps [of n now d e])
qed

lemma as_create_total:
  "od_get (as_records s) i = None \<Longrightarrow>
   evicted_total (as_evicted (snd (as_create s now i d tn rq)))
     + length (as_records (snd (as_create s now i d tn rq)))
     = Suc (evicted_total (as_evicted s) + length (as_records s))"
  using evict_records_total [of "as_max_records s" now
      "od_set i (new_approval (as_ttl_seconds s) now i d tn rq) (as_records s)" "as_evicted s"]
  by (simp add: as_create_def Let_def case_prod_beta length_od_set)

section \<open>Properties\<close>

text \<open>
  C4: Single use and prior authorisation, for the in-memory store and any interleaving of
  calls by any callers on a fresh store: at most one consumption of an approval succeeds,
  and one that succeeds presented the digest and tenant the approval was created with, after
  a reviewer approved it.
\<close>

theorem memory_approvals_sound:
  assumes "fair_history cs"
  shows "length (consumptions i (consumed_in memory_repo (new_approval_store ttl) cs)) \<le> 1
    \<and> ((t, Consume i d tn) \<in> set (consumed_in memory_repo (new_approval_store ttl) cs) \<longrightarrow>
        (\<exists>pre post rq rv ra. cs = pre @ (t, Consume i d tn) # post
          \<and> Create i d tn rq \<in> snd ` set pre \<and> Approve i rv ra \<in> snd ` set pre))"
proof (rule mem.empty_store_sound [OF _ _ assms])
  show "as_inv (new_approval_store ttl)" by (simp add: as_inv_def new_approval_store_def)
qed (simp add: as_seen_def new_approval_store_def)

text \<open>The history of the witness: propose, approve, and two replicas racing to consume.\<close>

definition race :: "(int \<times> approval_call) list" where
  "race = [(0, Create 7 (lit ''d'') (lit ''acme'') (lit ''bot'')),
           (1, Approve 7 (lit ''rev'') (lit ''fine'')),
           (2, Consume 7 (lit ''d'') (lit ''acme'')), (2, Consume 7 (lit ''d'') (lit ''acme''))]"

lemma race_result:
  "consumed_in memory_repo (new_approval_store 300) race
     = [(2, Consume 7 (lit ''d'') (lit ''acme''))]"
  by (simp add: race_def memory_repo_def as_op_defs as_create_def new_approval_store_def
      new_approval_def evict_records.simps DEFAULT_MAX_RECORDS_def expire_def approval_open_def
      adjudicate_record_def)

theorem memory_approvals_sound_witness:
  "fair_history race
   \<and> length (consumptions 7 (consumed_in memory_repo (new_approval_store 300) race)) \<le> 1
   \<and> (\<exists>pre post rq rv ra. race = pre @ (2, Consume 7 (lit ''d'') (lit ''acme'')) # post
        \<and> Create 7 (lit ''d'') (lit ''acme'') rq \<in> snd ` set pre \<and> Approve 7 rv ra \<in> snd ` set pre)"
proof -
  have f: "fair_history race" by (simp add: fair_history_def race_def)
  from memory_approvals_sound [OF f, of 7 300 2 "lit ''d''" "lit ''acme''"] f
  show ?thesis by (simp add: race_result)
qed

text \<open>
  A refused or closed approval authorises nothing: on a store in any reachable state, a
  record that is rejected, consumed or expired is not consumed by any later history, however
  its identifier is presented.
\<close>

theorem memory_closed_never_consumed:
  assumes "as_inv s" and "fair_history cs" and "\<forall>x \<in> set cs. t0 \<le> fst x"
    and "\<forall>j \<in> set (created_ids (map snd cs)). as_seen s t0 j = None"
    and "as_seen s t0 i = Some r" and "ap_status r \<in> {REJECTED, CONSUMED, EXPIRED}"
  shows "(t, Consume i d tn) \<notin> set (consumed_in memory_repo s cs)"
proof -
  have "mem.ready s t0 cs" using assms by (simp add: mem.ready_def)
  moreover have "mem.closed_at s t0 i"
    using assms(5,6) by (auto simp: mem.closed_at_def approval_open_def)
  moreover have "i \<notin> set (created_ids (map snd cs))" using assms(4,5) by force
  ultimately show ?thesis using mem.closed_never_consumed by fastforce
qed

definition rejected_store :: approval_store where
  "rejected_store = (new_approval_store 300)\<lparr>as_records :=
     [(7, (new_approval 300 0 7 (lit ''d'') (lit ''acme'') (lit ''bot''))\<lparr>ap_status := REJECTED\<rparr>)]\<rparr>"

theorem memory_closed_never_consumed_witness:
  "(9, Consume 7 (lit ''d'') (lit ''acme'')) \<notin>
     set (consumed_in memory_repo rejected_store
       [(5, Approve 7 (lit ''rev'') (lit ''please'')), (9, Consume 7 (lit ''d'') (lit ''acme''))])"
  by (rule memory_closed_never_consumed [where ?t0.0 = 0 and
        r = "(new_approval 300 0 7 (lit ''d'') (lit ''acme'') (lit ''bot''))\<lparr>ap_status := REJECTED\<rparr>"])
    (simp_all add: as_inv_def rejected_store_def new_approval_store_def od_wf_def fair_history_def
      as_seen_def new_approval_def DEFAULT_MAX_RECORDS_def expire_def approval_open_def)

text \<open>
  The totals \<^verbatim>\<open>counts\<close> reports never lose an approval: whatever has been evicted, the
  counts over all statuses sum to the evicted outcomes plus the records held, and creating an
  approval raises that sum by one, so the reported totals never go backwards.
\<close>

theorem approval_counts_conserved:
  assumes "od_get (as_records s) i = None"
  shows "sum_list (map snd (fst (as_counts (snd (as_create s now i d tn rq)) later)))
    = sum_list (map snd (fst (as_counts s later))) + 1"
  using assms by (simp add: as_counts_total as_create_total)

theorem approval_counts_conserved_witness:
  "sum_list (map snd (fst (as_counts (snd (as_create (new_approval_store 300) 0 7 (lit ''d'')
      (lit ''acme'') (lit ''bot''))) 5)))
    = sum_list (map snd (fst (as_counts (new_approval_store 300) 5))) + 1"
  by (rule approval_counts_conserved) (simp add: new_approval_store_def)

end
