(* ===== verification/Incidents.thy ===== *)
theory Incidents
  imports Approvals
begin

text \<open>
  The decision log and the incident cases of \<^verbatim>\<open>incidents.py\<close>. The contract of the incident
  repository that the gateway's canary handling relies on is the locale
  \<open>incident_repository\<close>, interpreted by the in-memory \<^verbatim>\<open>IncidentStore\<close>.
\<close>

section \<open>DecisionLog\<close>

record decision_log =
  dl_max :: nat
  dl_decisions :: "(uuid, security_decision) odict"

definition new_decision_log :: "nat \<Rightarrow> decision_log" where
  "new_decision_log n = \<lparr>dl_max = n, dl_decisions = []\<rparr>"

definition dl_record :: "decision_log \<Rightarrow> security_decision \<Rightarrow> decision_log" where
  "dl_record l d = l\<lparr>dl_decisions := od_evict (dl_max l) (od_set (sd_decision_id d) d (dl_decisions l))\<rparr>"

definition dl_get :: "decision_log \<Rightarrow> uuid \<Rightarrow> str \<Rightarrow> security_decision option" where
  "dl_get l i tenant =
     (case od_get (dl_decisions l) i of
        None \<Rightarrow> None
      | Some d \<Rightarrow> if sd_tenant_id d \<noteq> tenant then None else Some d)"

definition dl_for_trace :: "decision_log \<Rightarrow> uuid \<Rightarrow> str \<Rightarrow> security_decision list" where
  "dl_for_trace l trace tenant =
     filter (\<lambda>d. sd_trace_id d = trace \<and> sd_tenant_id d = tenant) (map snd (dl_decisions l))"

section \<open>Incident cases\<close>

definition incident_open :: "incident_status \<Rightarrow> bool" where
  "incident_open st \<longleftrightarrow> st \<in> {IS_OPEN, IS_INVESTIGATING}"

definition covers_trace :: "uuid \<Rightarrow> str \<Rightarrow> str \<Rightarrow> incident \<Rightarrow> bool" where
  "covers_trace trace tenant title c \<longleftrightarrow>
     in_tenant_id c = tenant \<and> in_title c = title \<and> incident_open (in_status c) \<and> trace \<in> set (in_trace_ids c)"

text \<open>
  A new case. \<^verbatim>\<open>list(dict.fromkeys(xs))\<close> keeps the first of each; \<open>remdups\<close> the last, so
  the list is turned twice.
\<close>

definition new_incident ::
  "uuid \<Rightarrow> int \<Rightarrow> str \<Rightarrow> str \<Rightarrow> severity \<Rightarrow> str \<Rightarrow> security_decision list \<Rightarrow> incident" where
  "new_incident i now tenant title sev opened_by ds =
     \<lparr>in_incident_id = i, in_tenant_id = tenant, in_title = title, in_severity = sev,
      in_status = IS_OPEN, in_disposition = UNDETERMINED, in_decision_ids = map sd_decision_id ds,
      in_trace_ids = rev (remdups (rev (map sd_trace_id ds))), in_remediation = None,
      in_opened_by = opened_by, in_created_at = now, in_updated_at = now\<rparr>"

definition attached :: "int \<Rightarrow> security_decision \<Rightarrow> incident \<Rightarrow> incident" where
  "attached now d c =
     (if sd_decision_id d \<in> set (in_decision_ids c) then c
      else c\<lparr>in_decision_ids := in_decision_ids c @ [sd_decision_id d], in_updated_at := now\<rparr>)"

definition updated :: "int \<Rightarrow> incident_update \<Rightarrow> incident \<Rightarrow> incident" where
  "updated now u c =
     (let c = (case iu_status u of None \<Rightarrow> c | Some st \<Rightarrow> c\<lparr>in_status := st\<rparr>);
          c = (case iu_disposition u of None \<Rightarrow> c | Some di \<Rightarrow> c\<lparr>in_disposition := di\<rparr>);
          c = (case iu_remediation u of None \<Rightarrow> c | Some re \<Rightarrow> c\<lparr>in_remediation := Some re\<rparr>)
      in c\<lparr>in_updated_at := now\<rparr>)"

section \<open>The repository protocol\<close>

record 'i incident_repo =
  irepo_open :: "'i \<Rightarrow> int \<Rightarrow> uuid \<Rightarrow> str \<Rightarrow> str \<Rightarrow> severity \<Rightarrow> str \<Rightarrow> security_decision list
    \<Rightarrow> (store_error + incident) \<times> 'i"
  irepo_open_for_trace :: "'i \<Rightarrow> uuid \<Rightarrow> str \<Rightarrow> str \<Rightarrow> (store_error + incident option) \<times> 'i"
  irepo_attach :: "'i \<Rightarrow> int \<Rightarrow> uuid \<Rightarrow> security_decision \<Rightarrow> (store_error + unit) \<times> 'i"
  irepo_get :: "'i \<Rightarrow> uuid \<Rightarrow> str \<Rightarrow> (store_error + incident option) \<times> 'i"
  irepo_list :: "'i \<Rightarrow> str \<Rightarrow> (store_error + incident list) \<times> 'i"
  irepo_update :: "'i \<Rightarrow> int \<Rightarrow> uuid \<Rightarrow> str \<Rightarrow> incident_update \<Rightarrow> (store_error + incident option) \<times> 'i"

definition CANARY_INCIDENT :: str where "CANARY_INCIDENT = lit ''Canary secret observed''"

definition SYSTEM_ACTOR :: str where "SYSTEM_ACTOR = lit ''guardrail-gateway''"

text \<open>
  \<^verbatim>\<open>_open_canary_incident\<close> of \<^verbatim>\<open>service.py\<close>. A store that raises leaves the error to the
  caller, which suppresses it. \<open>i\<close> is the identifier a new case is given.
\<close>

definition open_canary_incident ::
  "'i incident_repo \<Rightarrow> 'i \<Rightarrow> int \<Rightarrow> uuid \<Rightarrow> security_decision \<Rightarrow> (store_error + unit) \<times> 'i" where
  "open_canary_incident R s now i d =
     (case irepo_open_for_trace R s (sd_trace_id d) (sd_tenant_id d) CANARY_INCIDENT of
        (Inl e, s1) \<Rightarrow> (Inl e, s1)
      | (Inr (Some existing), s1) \<Rightarrow> irepo_attach R s1 now (in_incident_id existing) d
      | (Inr None, s1) \<Rightarrow>
          (case irepo_open R s1 now i (sd_tenant_id d) CANARY_INCIDENT CRITICAL SYSTEM_ACTOR [d] of
             (Inl e, s2) \<Rightarrow> (Inl e, s2)
           | (Inr _, s2) \<Rightarrow> (Inr (), s2)))"

text \<open>What a caller is shown of cases is its own tenant's, whatever the store does.\<close>

locale tenant_cases =
  fixes R :: "'i incident_repo"
  assumes open_tenant: "irepo_open R s now i tn ti sev who ds = (Inr c, s') \<Longrightarrow> in_tenant_id c = tn"
    and get_tenant: "irepo_get R s i tn = (Inr (Some c), s') \<Longrightarrow> in_tenant_id c = tn"
    and list_tenant: "irepo_list R s tn = (Inr cs, s') \<Longrightarrow> c \<in> set cs \<Longrightarrow> in_tenant_id c = tn"
    and update_tenant: "irepo_update R s now i tn u = (Inr (Some c), s') \<Longrightarrow> in_tenant_id c = tn"

text \<open>
  \<open>case_of s i\<close> is the case stored under an identifier. A new case is stored and may push out
  others; a failed call may have been applied or not.
\<close>

locale incident_repository =
  fixes R :: "'i incident_repo" and case_of :: "'i \<Rightarrow> uuid \<Rightarrow> incident option" and inv :: "'i \<Rightarrow> bool"
  assumes open_inv: "inv s \<Longrightarrow> inv (snd (irepo_open R s now i tn ti sev who ds))"
    and open_self: "inv s \<Longrightarrow> case_of s i = None \<Longrightarrow>
      irepo_open R s now i tn ti sev who ds = (Inr c, s') \<Longrightarrow>
      case_of s' i = Some (new_incident i now tn ti sev who ds)"
    and open_any: "inv s \<Longrightarrow> case_of s i = None \<Longrightarrow>
      case_of (snd (irepo_open R s now i tn ti sev who ds)) j = Some c \<Longrightarrow>
      case_of s j = Some c \<or> j = i \<and> c = new_incident i now tn ti sev who ds"
    and find_state: "inv s \<Longrightarrow> inv (snd (irepo_open_for_trace R s tr tn ti))
      \<and> case_of (snd (irepo_open_for_trace R s tr tn ti)) = case_of s"
    and find_some: "inv s \<Longrightarrow> irepo_open_for_trace R s tr tn ti = (Inr (Some c), s') \<Longrightarrow>
      case_of s (in_incident_id c) = Some c \<and> covers_trace tr tn ti c"
    and find_none: "inv s \<Longrightarrow> irepo_open_for_trace R s tr tn ti = (Inr None, s') \<Longrightarrow>
      case_of s i = Some c \<Longrightarrow> \<not> covers_trace tr tn ti c"
    and attach_inv: "inv s \<Longrightarrow> inv (snd (irepo_attach R s now i d))"
    and attach_self: "inv s \<Longrightarrow> irepo_attach R s now i d = (Inr x, s') \<Longrightarrow>
      case_of s' i = map_option (attached now d) (case_of s i)"
    and attach_any: "inv s \<Longrightarrow>
      case_of (snd (irepo_attach R s now i d)) j
        \<in> {case_of s j, map_option (attached now d) (case_of s j)}"
    and get_state: "inv s \<Longrightarrow> inv (snd (irepo_get R s i tn)) \<and> case_of (snd (irepo_get R s i tn)) = case_of s"
    and get_some: "inv s \<Longrightarrow> irepo_get R s i tn = (Inr (Some c), s') \<Longrightarrow> case_of s i = Some c \<and> in_tenant_id c = tn"
    and list_state: "inv s \<Longrightarrow> inv (snd (irepo_list R s tn)) \<and> case_of (snd (irepo_list R s tn)) = case_of s"
    and list_tenant: "inv s \<Longrightarrow> irepo_list R s tn = (Inr cs, s') \<Longrightarrow> c \<in> set cs \<Longrightarrow>
      case_of s (in_incident_id c) = Some c \<and> in_tenant_id c = tn"
    and update_inv: "inv s \<Longrightarrow> inv (snd (irepo_update R s now i tn u))"
    and update_some: "inv s \<Longrightarrow> irepo_update R s now i tn u = (Inr (Some c), s') \<Longrightarrow>
      \<exists>c0. case_of s i = Some c0 \<and> in_tenant_id c0 = tn \<and> c = updated now u c0 \<and> case_of s' i = Some c"
    and update_any: "inv s \<Longrightarrow> case_of (snd (irepo_update R s now i tn u)) j = Some c \<Longrightarrow>
      case_of s j = Some c \<or> j = i \<and> (\<exists>c0. case_of s i = Some c0 \<and> in_tenant_id c0 = tn \<and> c = updated now u c0)"
begin

text \<open>At most one open case covers a trace of a tenant under a title.\<close>

definition single_case :: "uuid \<Rightarrow> str \<Rightarrow> 'i \<Rightarrow> bool" where
  "single_case tr tn s \<longleftrightarrow>
     (\<forall>i j c c'. case_of s i = Some c \<and> covers_trace tr tn CANARY_INCIDENT c
        \<and> case_of s j = Some c' \<and> covers_trace tr tn CANARY_INCIDENT c' \<longrightarrow> i = j)"

lemma covers_attached [simp]: "covers_trace tr tn ti (attached now d c) = covers_trace tr tn ti c"
  by (simp add: covers_trace_def attached_def)

lemma covers_new [simp]:
  "covers_trace tr tn ti (new_incident i now tn' ti' sev who [d]) \<longleftrightarrow> tn' = tn \<and> ti' = ti \<and> sd_trace_id d = tr"
  by (auto simp: covers_trace_def new_incident_def incident_open_def)

text \<open>What a canary sighting can do to the cases, errors included.\<close>

lemma canary_any:
  assumes "inv s" and "case_of s i = None"
    and "case_of (snd (open_canary_incident R s now i d)) j = Some c"
  shows "case_of s j = Some c \<or> (\<exists>c0. case_of s j = Some c0 \<and> c = attached now d c0)
    \<or> j = i \<and> c = new_incident i now (sd_tenant_id d) CANARY_INCIDENT CRITICAL SYSTEM_ACTOR [d]
        \<and> (\<forall>k c'. case_of s k = Some c' \<longrightarrow> \<not> covers_trace (sd_trace_id d) (sd_tenant_id d) CANARY_INCIDENT c')"
proof -
  obtain x s1 where find: "irepo_open_for_trace R s (sd_trace_id d) (sd_tenant_id d) CANARY_INCIDENT = (x, s1)"
    by fastforce
  have s1: "inv s1" "case_of s1 = case_of s"
    using find_state [OF assms(1), of "sd_trace_id d" "sd_tenant_id d" CANARY_INCIDENT] find by simp_all
  consider e where "x = Inl e" | c0 where "x = Inr (Some c0)" | "x = Inr None"
    by (rule lookup_cases)
  then show ?thesis
  proof cases
    case 1
    then show ?thesis using assms(3) find s1 by (simp add: open_canary_incident_def)
  next
    case 2
    have "case_of (snd (irepo_attach R s1 now (in_incident_id c0) d)) j = Some c"
      using assms(3) find 2 by (simp add: open_canary_incident_def)
    then show ?thesis
      using attach_any [OF s1(1), of now "in_incident_id c0" d j] s1(2) by (cases "case_of s j") auto
  next
    case 3
    have new: "case_of (snd (irepo_open R s1 now i (sd_tenant_id d) CANARY_INCIDENT CRITICAL SYSTEM_ACTOR [d])) j
        = Some c"
      using assms(3) find 3
      by (simp add: open_canary_incident_def split: prod.splits sum.splits)
    have "case_of s1 i = None" using s1(2) assms(2) by simp
    from open_any [OF s1(1) this new] find_none [OF assms(1)] find 3 s1(2) show ?thesis by fastforce
  qed
qed

lemma canary_single:
  assumes "inv s" and "case_of s i = None" and "single_case tr tn s"
  shows "single_case tr tn (snd (open_canary_incident R s now i d))"
  unfolding single_case_def
proof (intro allI impI, elim conjE)
  fix j k c c'
  assume c: "case_of (snd (open_canary_incident R s now i d)) j = Some c" "covers_trace tr tn CANARY_INCIDENT c"
    and c': "case_of (snd (open_canary_incident R s now i d)) k = Some c'" "covers_trace tr tn CANARY_INCIDENT c'"
  have old: "(\<exists>c0. case_of s j = Some c0 \<and> covers_trace tr tn CANARY_INCIDENT c0)
      \<or> j = i \<and> (\<forall>k c'. case_of s k = Some c' \<longrightarrow> \<not> covers_trace tr tn CANARY_INCIDENT c')"
    if "case_of (snd (open_canary_incident R s now i d)) j = Some c" "covers_trace tr tn CANARY_INCIDENT c" for j c
    using canary_any [OF assms(1,2) that(1)] that(2) by auto
  show "j = k" using old [OF c] old [OF c'] assms(3) unfolding single_case_def by blast
qed

lemma canary_inv:
  assumes "inv s"
  shows "inv (snd (open_canary_incident R s now i d))"
proof -
  obtain x s1 where find: "irepo_open_for_trace R s (sd_trace_id d) (sd_tenant_id d) CANARY_INCIDENT = (x, s1)"
    by fastforce
  have s1: "inv s1"
    using find_state [OF assms(1), of "sd_trace_id d" "sd_tenant_id d" CANARY_INCIDENT] find by simp
  have "inv (snd (irepo_open R s1 now i (sd_tenant_id d) CANARY_INCIDENT CRITICAL SYSTEM_ACTOR [d]))"
    using open_inv [OF s1] .
  then show ?thesis
    using find s1 attach_inv [OF s1]
    by (auto simp: open_canary_incident_def split: sum.splits option.splits prod.splits)
qed

text \<open>Without an error the sighting is on an open case of its trace.\<close>

lemma canary_recorded:
  assumes "inv s" and "case_of s i = None" and "open_canary_incident R s now i d = (Inr x, s')"
  shows "\<exists>j c. case_of s' j = Some c \<and> covers_trace (sd_trace_id d) (sd_tenant_id d) CANARY_INCIDENT c
    \<and> sd_decision_id d \<in> set (in_decision_ids c)"
proof -
  obtain y s1 where find: "irepo_open_for_trace R s (sd_trace_id d) (sd_tenant_id d) CANARY_INCIDENT = (y, s1)"
    by fastforce
  have s1: "inv s1" "case_of s1 = case_of s"
    using find_state [OF assms(1), of "sd_trace_id d" "sd_tenant_id d" CANARY_INCIDENT] find by simp_all
  consider c0 where "y = Inr (Some c0)" | "y = Inr None"
    using assms(3) find by (cases y rule: lookup_cases) (auto simp: open_canary_incident_def intro: that)
  then show ?thesis
  proof cases
    case 1
    have c0: "case_of s1 (in_incident_id c0) = Some c0"
      "covers_trace (sd_trace_id d) (sd_tenant_id d) CANARY_INCIDENT c0"
      using find_some [OF assms(1)] find 1 s1(2) by auto
    have "irepo_attach R s1 now (in_incident_id c0) d = (Inr x, s')"
      using assms(3) find 1 by (simp add: open_canary_incident_def)
    from attach_self [OF s1(1) this] c0
    have "case_of s' (in_incident_id c0) = Some (attached now d c0)" by simp
    moreover have "sd_decision_id d \<in> set (in_decision_ids (attached now d c0))"
      by (simp add: attached_def)
    ultimately show ?thesis using c0(2) covers_attached by blast
  next
    case 2
    then obtain c where "irepo_open R s1 now i (sd_tenant_id d) CANARY_INCIDENT CRITICAL SYSTEM_ACTOR [d] = (Inr c, s')"
      using assms(3) find by (auto simp: open_canary_incident_def split: prod.splits sum.splits)
    then have "case_of s' i = Some (new_incident i now (sd_tenant_id d) CANARY_INCIDENT CRITICAL SYSTEM_ACTOR [d])"
      using open_self [OF s1(1)] s1(2) assms(2) by simp
    moreover have "sd_decision_id d \<in> set (in_decision_ids
        (new_incident i now (sd_tenant_id d) CANARY_INCIDENT CRITICAL SYSTEM_ACTOR [d]))"
      by (simp add: new_incident_def)
    ultimately show ?thesis using covers_new by blast
  qed
qed

end

section \<open>IncidentStore\<close>

record incident_store =
  is_max :: nat
  is_incidents :: "(uuid, incident) odict"

definition new_incident_store :: "nat \<Rightarrow> incident_store" where
  "new_incident_store n = \<lparr>is_max = n, is_incidents = []\<rparr>"

definition is_open ::
  "incident_store \<Rightarrow> int \<Rightarrow> uuid \<Rightarrow> str \<Rightarrow> str \<Rightarrow> severity \<Rightarrow> str \<Rightarrow> security_decision list
    \<Rightarrow> (store_error + incident) \<times> incident_store" where
  "is_open s now i tenant title sev opened_by ds =
     (let incident = new_incident i now tenant title sev opened_by ds
      in (Inr incident, s\<lparr>is_incidents := od_evict (is_max s) (od_set i incident (is_incidents s))\<rparr>))"

definition is_open_for_trace ::
  "incident_store \<Rightarrow> uuid \<Rightarrow> str \<Rightarrow> str \<Rightarrow> (store_error + incident option) \<times> incident_store" where
  "is_open_for_trace s trace tenant title =
     (Inr (find (covers_trace trace tenant title) (map snd (is_incidents s))), s)"

definition is_attach ::
  "incident_store \<Rightarrow> int \<Rightarrow> uuid \<Rightarrow> security_decision \<Rightarrow> (store_error + unit) \<times> incident_store" where
  "is_attach s now i d =
     (case od_get (is_incidents s) i of
        None \<Rightarrow> (Inr (), s)
      | Some incident \<Rightarrow> (Inr (), s\<lparr>is_incidents := od_set i (attached now d incident) (is_incidents s)\<rparr>))"

definition is_get :: "incident_store \<Rightarrow> uuid \<Rightarrow> str \<Rightarrow> (store_error + incident option) \<times> incident_store" where
  "is_get s i tenant =
     (case od_get (is_incidents s) i of
        None \<Rightarrow> (Inr None, s)
      | Some incident \<Rightarrow> (Inr (if in_tenant_id incident \<noteq> tenant then None else Some incident), s))"

definition is_list :: "incident_store \<Rightarrow> str \<Rightarrow> (store_error + incident list) \<times> incident_store" where
  "is_list s tenant = (Inr (filter (\<lambda>c. in_tenant_id c = tenant) (rev (map snd (is_incidents s)))), s)"

lemma updated_id [simp]:
  "in_incident_id (updated now u c) = in_incident_id c" "in_tenant_id (updated now u c) = in_tenant_id c"
  by (simp_all add: updated_def Let_def split: option.split)

definition is_update ::
  "incident_store \<Rightarrow> int \<Rightarrow> uuid \<Rightarrow> str \<Rightarrow> incident_update
    \<Rightarrow> (store_error + incident option) \<times> incident_store" where
  "is_update s now i tenant u =
     (case od_get (is_incidents s) i of
        None \<Rightarrow> (Inr None, s)
      | Some incident \<Rightarrow>
          if in_tenant_id incident \<noteq> tenant then (Inr None, s)
          else (Inr (Some (updated now u incident)),
                s\<lparr>is_incidents := od_set i (updated now u incident) (is_incidents s)\<rparr>))"

definition is_open_count :: "incident_store \<Rightarrow> nat" where
  "is_open_count s = length (filter (\<lambda>c. incident_open (in_status c)) (map snd (is_incidents s)))"

definition memory_incidents :: "incident_store incident_repo" where
  "memory_incidents = \<lparr>irepo_open = is_open, irepo_open_for_trace = is_open_for_trace, irepo_attach = is_attach,
     irepo_get = is_get, irepo_list = is_list, irepo_update = is_update\<rparr>"

definition is_case :: "incident_store \<Rightarrow> uuid \<Rightarrow> incident option" where
  "is_case s = od_get (is_incidents s)"

definition is_inv :: "incident_store \<Rightarrow> bool" where
  "is_inv s \<longleftrightarrow> 1 \<le> is_max s \<and> od_wf (is_incidents s)
     \<and> (\<forall>(i, c) \<in> set (is_incidents s). in_incident_id c = i)"

lemma in_set_od_evict: "x \<in> set (od_evict n d) \<Longrightarrow> x \<in> set d"
  by (metis in_set_dropD od_evict_drop)

lemma in_set_od_set: "(i, c) \<in> set (od_set k v d) \<Longrightarrow> od_wf d \<Longrightarrow> (i = k \<and> c = v) \<or> (i, c) \<in> set d"
  by (metis map_of_update map_of_SomeD od_wf_def od_wf_update map_of_eq_Some_iff option.inject)

lemma is_inv_set: "is_inv s \<Longrightarrow> in_incident_id c = i \<Longrightarrow> is_inv (s\<lparr>is_incidents := od_set i c (is_incidents s)\<rparr>)"
  by (auto simp: is_inv_def dest: in_set_od_set)

lemma is_open_inv: "is_inv s \<Longrightarrow> is_inv (snd (is_open s now i tn ti sev who ds))"
  by (auto simp: is_open_def is_inv_def Let_def new_incident_def dest!: in_set_od_evict in_set_od_set)

lemma is_case_id: "is_inv s \<Longrightarrow> is_case s i = Some c \<Longrightarrow> in_incident_id c = i"
  by (auto simp: is_inv_def is_case_def dest: map_of_SomeD)

lemma is_find:
  assumes "is_inv s" and "find p (map snd (is_incidents s)) = Some c"
  shows "is_case s (in_incident_id c) = Some c \<and> p c"
proof -
  obtain i where i: "(i, c) \<in> set (is_incidents s)" "p c"
    using assms(2) by (auto simp: find_Some_iff) (metis nth_mem prod.collapse)
  then show ?thesis
    using assms(1) by (auto simp: is_inv_def is_case_def od_wf_def map_of_eq_Some_iff)
qed

interpretation mem_incidents: incident_repository memory_incidents is_case is_inv
proof unfold_locales
  fix s now i tn ti sev who ds c s' j and tr :: uuid and d x
  assume inv: "is_inv s"
  have wf: "od_wf (is_incidents s)" "1 \<le> is_max s" using inv by (simp_all add: is_inv_def)
  show "is_inv (snd (irepo_open memory_incidents s now i tn ti sev who ds))"
    using is_open_inv [OF inv] by (simp add: memory_incidents_def)
  show "is_case s' i = Some (new_incident i now tn ti sev who ds)"
    if "is_case s i = None" "irepo_open memory_incidents s now i tn ti sev who ds = (Inr c, s')"
    using that od_get_evict_last wf(2) by (auto simp: memory_incidents_def is_open_def is_case_def Let_def)
  show "is_case s j = Some c \<or> j = i \<and> c = new_incident i now tn ti sev who ds"
    if "is_case s i = None" "is_case (snd (irepo_open memory_incidents s now i tn ti sev who ds)) j = Some c"
    using that od_get_evict [of "od_set i (new_incident i now tn ti sev who ds) (is_incidents s)" "is_max s" j] wf(1)
    by (auto simp: memory_incidents_def is_open_def is_case_def od_simps Let_def split: if_splits)
  show "is_inv (snd (irepo_open_for_trace memory_incidents s tr tn ti))
      \<and> is_case (snd (irepo_open_for_trace memory_incidents s tr tn ti)) = is_case s"
    using inv by (simp add: memory_incidents_def is_open_for_trace_def)
  show "is_case s (in_incident_id c) = Some c \<and> covers_trace tr tn ti c"
    if "irepo_open_for_trace memory_incidents s tr tn ti = (Inr (Some c), s')"
    using that is_find [OF inv, of "covers_trace tr tn ti" c]
    by (auto simp: memory_incidents_def is_open_for_trace_def)
  show "\<not> covers_trace tr tn ti c"
    if "irepo_open_for_trace memory_incidents s tr tn ti = (Inr None, s')" "is_case s i = Some c"
    using that map_of_SomeD [of "is_incidents s" i c]
    by (auto simp: memory_incidents_def is_open_for_trace_def is_case_def find_None_iff)
  show "is_inv (snd (irepo_attach memory_incidents s now i d))"
    using inv is_inv_set [OF inv, of "attached now d _" i] is_case_id [OF inv, of i]
    by (auto simp: memory_incidents_def is_attach_def is_case_def attached_def split: option.splits)
  show "is_case s' i = map_option (attached now d) (is_case s i)"
    if "irepo_attach memory_incidents s now i d = (Inr x, s')"
    using that by (auto simp: memory_incidents_def is_attach_def is_case_def od_simps split: option.splits)
  show "is_case (snd (irepo_attach memory_incidents s now i d)) j
      \<in> {is_case s j, map_option (attached now d) (is_case s j)}"
    by (auto simp: memory_incidents_def is_attach_def is_case_def od_simps split: option.splits)
next
  fix s i tn c s' cs and j :: uuid and now u
  assume inv: "is_inv s"
  show "is_inv (snd (irepo_get memory_incidents s i tn)) \<and> is_case (snd (irepo_get memory_incidents s i tn)) = is_case s"
    "is_inv (snd (irepo_list memory_incidents s tn)) \<and> is_case (snd (irepo_list memory_incidents s tn)) = is_case s"
    using inv by (simp_all add: memory_incidents_def is_get_def is_list_def split: option.split)
  show "is_case s i = Some c \<and> in_tenant_id c = tn" if "irepo_get memory_incidents s i tn = (Inr (Some c), s')"
    using that by (auto simp: memory_incidents_def is_get_def is_case_def split: option.splits if_splits)
  show "is_case s (in_incident_id c) = Some c \<and> in_tenant_id c = tn"
    if list: "irepo_list memory_incidents s tn = (Inr cs, s')" and mem: "c \<in> set cs"
  proof -
    have cs: "cs = filter (\<lambda>c. in_tenant_id c = tn) (rev (map snd (is_incidents s)))"
      using list by (auto simp: memory_incidents_def is_list_def)
    obtain k where "(k, c) \<in> set (is_incidents s)" "in_tenant_id c = tn"
      using mem unfolding cs by (auto intro: that)
    then show ?thesis using inv by (auto simp: is_inv_def is_case_def od_wf_def)
  qed
  show "is_inv (snd (irepo_update memory_incidents s now i tn u))"
    using inv is_inv_set [OF inv, of "updated now u _" i] is_case_id [OF inv, of i]
    by (auto simp: memory_incidents_def is_update_def is_case_def updated_id split: option.splits)
  show "\<exists>c0. is_case s i = Some c0 \<and> in_tenant_id c0 = tn \<and> c = updated now u c0 \<and> is_case s' i = Some c"
    if "irepo_update memory_incidents s now i tn u = (Inr (Some c), s')"
    using that by (auto simp: memory_incidents_def is_update_def is_case_def od_simps split: option.splits if_splits)
  show "is_case s j = Some c \<or> j = i \<and> (\<exists>c0. is_case s i = Some c0 \<and> in_tenant_id c0 = tn \<and> c = updated now u c0)"
    if "is_case (snd (irepo_update memory_incidents s now i tn u)) j = Some c"
    using that by (auto simp: memory_incidents_def is_update_def is_case_def od_simps split: option.splits if_splits)
qed

interpretation mem_cases: tenant_cases memory_incidents
  by unfold_locales
    (auto simp: memory_incidents_def is_open_def Let_def is_get_def is_list_def is_update_def new_incident_def
      split: option.splits if_splits)

section \<open>Claims\<close>

lemma dl_record_append:
  assumes "sd_decision_id d \<notin> fst ` set ds"
  shows "od_evict n (od_set (sd_decision_id d) d (drop k ds)) = drop (Suc (length ds - k) - n) (drop k ds @ [(sd_decision_id d, d)])"
proof -
  have "od_get (drop k ds) (sd_decision_id d) = None"
    using assms set_drop_subset [of k ds] by (auto simp: map_of_eq_None_iff)
  then show ?thesis by (simp add: od_evict_drop od_set_absent)
qed

lemma dl_run:
  "distinct (map sd_decision_id ds) \<Longrightarrow>
   foldl dl_record (new_decision_log n) ds
     = \<lparr>dl_max = n, dl_decisions = map (\<lambda>d. (sd_decision_id d, d)) (drop (length ds - n) ds)\<rparr>"
proof (induction ds rule: rev_induct)
  case Nil
  then show ?case by (simp add: new_decision_log_def)
next
  case (snoc d ds)
  let ?pairs = "map (\<lambda>d. (sd_decision_id d, d)) ds"
  have new: "sd_decision_id d \<notin> fst ` set ?pairs" using snoc.prems by auto
  have IH: "foldl dl_record (new_decision_log n) ds = \<lparr>dl_max = n, dl_decisions = drop (length ds - n) ?pairs\<rparr>"
    using snoc by (simp add: drop_map)
  have "drop (Suc (length ds - (length ds - n)) - n) (drop (length ds - n) ?pairs @ [(sd_decision_id d, d)])
      = drop (Suc (length ds) - n) (?pairs @ [(sd_decision_id d, d)])"
    by (cases "length ds < n") (simp_all add: Suc_diff_le drop_map [symmetric])
  then have "od_evict n (od_set (sd_decision_id d) d (drop (length ds - n) ?pairs))
      = drop (Suc (length ds) - n) (map (\<lambda>d. (sd_decision_id d, d)) (ds @ [d]))"
    using dl_record_append [OF new, of n "length ds - n"] by simp
  then have rec: "dl_record \<lparr>dl_max = n, dl_decisions = drop (length ds - n) ?pairs\<rparr> d
      = \<lparr>dl_max = n, dl_decisions = drop (Suc (length ds) - n) (map (\<lambda>d. (sd_decision_id d, d)) (ds @ [d]))\<rparr>"
    by (simp add: dl_record_def)
  have "foldl dl_record (new_decision_log n) (ds @ [d])
      = dl_record \<lparr>dl_max = n, dl_decisions = drop (length ds - n) ?pairs\<rparr> d"
    by (simp only: foldl_append foldl.simps IH)
  then show ?case unfolding rec by (simp only: drop_map length_append_singleton)
qed

text \<open>
  The decision log holds exactly the most recent decisions. After any decisions with
  distinct identifiers are recorded in a new log of a given size, a decision is returned under
  its identifier if and only if it is among that many last ones and belongs to the tenant that
  asks, and the decisions of a trace are those of the tenant among the last ones, in order.
\<close>

theorem decision_log_recent:
  assumes "distinct (map sd_decision_id ds)"
  shows "(dl_get (foldl dl_record (new_decision_log n) ds) i tenant = Some d
      \<longleftrightarrow> d \<in> set (drop (length ds - n) ds) \<and> sd_decision_id d = i \<and> sd_tenant_id d = tenant)
    \<and> dl_for_trace (foldl dl_record (new_decision_log n) ds) trace tenant
      = filter (\<lambda>d. sd_trace_id d = trace \<and> sd_tenant_id d = tenant) (drop (length ds - n) ds)"
proof -
  let ?last = "drop (length ds - n) ds"
  have "distinct (map sd_decision_id ?last)" using assms by (simp add: drop_map [symmetric])
  then have m: "map_of (map (\<lambda>d. (sd_decision_id d, d)) ?last) i = Some d \<longleftrightarrow> d \<in> set ?last \<and> sd_decision_id d = i"
    by (subst map_of_eq_Some_iff) (auto simp: comp_def)
  have "dl_get (foldl dl_record (new_decision_log n) ds) i tenant = Some d
      \<longleftrightarrow> map_of (map (\<lambda>d. (sd_decision_id d, d)) ?last) i = Some d \<and> sd_tenant_id d = tenant"
    unfolding dl_run [OF assms] dl_get_def by (simp split: option.split) auto
  then show ?thesis
    using m by (simp add: dl_run [OF assms] dl_for_trace_def comp_def)
qed

definition example_decision :: "uuid \<Rightarrow> security_decision" where
  "example_decision i = \<lparr>sd_decision_id = i, sd_request_id = 0, sd_trace_id = 7, sd_point = INPUT,
     sd_tenant_id = lit ''acme'', sd_policy_version = [], sd_verdict = DENY,
     sd_reason_code = lit ''canary_leak_detected'', sd_evidence = [], sd_transformed_content = None,
     sd_action_digest = None, sd_approval_id = None, sd_route = None, sd_latency_ms = 1\<rparr>"

theorem decision_log_recent_witness:
  "dl_get (foldl dl_record (new_decision_log 2) (map example_decision [1, 2, 3])) 1 (lit ''acme'')
     \<noteq> Some (example_decision 1)
   \<and> dl_get (foldl dl_record (new_decision_log 2) (map example_decision [1, 2, 3])) 3 (lit ''acme'')
     = Some (example_decision 3)"
  using decision_log_recent [of "map example_decision [1, 2, 3]" 2 1 "lit ''acme''" "example_decision 1"]
    decision_log_recent [of "map example_decision [1, 2, 3]" 2 3 "lit ''acme''" "example_decision 3"]
  by (simp add: example_decision_def)

text \<open>Canary sightings one after another, each with the identifier a new case would get.\<close>

definition canary_run :: "incident_store \<Rightarrow> (int \<times> uuid \<times> security_decision) list \<Rightarrow> incident_store" where
  "canary_run s calls = foldl (\<lambda>s (now, i, d). snd (open_canary_incident memory_incidents s now i d)) s calls"

lemma canary_run_inv:
  assumes "1 \<le> n" and "distinct (map (fst \<circ> snd) calls)"
  shows "is_inv (canary_run (new_incident_store n) calls)
    \<and> (\<forall>i. is_case (canary_run (new_incident_store n) calls) i \<noteq> None \<longrightarrow> i \<in> set (map (fst \<circ> snd) calls))
    \<and> mem_incidents.single_case tr tn (canary_run (new_incident_store n) calls)"
  using assms(2)
proof (induction calls rule: rev_induct)
  case Nil
  have none: "is_case (new_incident_store n) i = None" for i by (simp add: is_case_def new_incident_store_def)
  have "is_inv (new_incident_store n)" using assms(1) by (simp add: is_inv_def new_incident_store_def)
  then show ?case by (simp add: canary_run_def none mem_incidents.single_case_def)
next
  case (snoc call calls)
  obtain now i d where call: "call = (now, i, d)" by (cases call) auto
  let ?s = "canary_run (new_incident_store n) calls"
  let ?t = "snd (open_canary_incident memory_incidents ?s now i d)"
  have run: "canary_run (new_incident_store n) (calls @ [call]) = ?t"
    by (simp add: canary_run_def call)
  have inv: "is_inv ?s" and used: "\<forall>i. is_case ?s i \<noteq> None \<longrightarrow> i \<in> set (map (fst \<circ> snd) calls)"
    and single: "mem_incidents.single_case tr tn ?s"
    using snoc by simp_all
  have fresh: "is_case ?s i = None" using used snoc.prems call by auto
  have "j \<in> set (map (fst \<circ> snd) (calls @ [call]))" if held: "is_case ?t j \<noteq> None" for j
  proof -
    obtain c where "is_case ?t j = Some c" using held by blast
    from mem_incidents.canary_any [OF inv fresh this] used call show ?thesis by auto
  qed
  then show ?case
    using mem_incidents.canary_inv [OF inv] mem_incidents.canary_single [OF inv fresh single] run by simp
qed

text \<open>
  C14: A leaked canary is one case, not many. After any number of canary sightings on a new
  incident store, no trace of a tenant is covered by two open cases; and the sighting that came
  last is among the decisions of an open case of its trace.
\<close>

theorem canary_incident_once:
  assumes "1 \<le> n" and "distinct (map (fst \<circ> snd) (calls @ [(now, i, d)]))"
  shows "(\<forall>tr tn j k. (\<exists>c. is_case (canary_run (new_incident_store n) calls) j = Some c
            \<and> covers_trace tr tn CANARY_INCIDENT c)
        \<and> (\<exists>c. is_case (canary_run (new_incident_store n) calls) k = Some c
            \<and> covers_trace tr tn CANARY_INCIDENT c) \<longrightarrow> j = k)
    \<and> (\<exists>j c. is_case (canary_run (new_incident_store n) (calls @ [(now, i, d)])) j = Some c
        \<and> covers_trace (sd_trace_id d) (sd_tenant_id d) CANARY_INCIDENT c
        \<and> sd_decision_id d \<in> set (in_decision_ids c))"
proof -
  let ?s = "canary_run (new_incident_store n) calls"
  have dist: "distinct (map (fst \<circ> snd) calls)" using assms(2) by simp
  note run = canary_run_inv [OF assms(1) dist]
  have single: "mem_incidents.single_case tr tn ?s" for tr tn using run by blast
  have inv: "is_inv ?s" and used: "\<forall>i. is_case ?s i \<noteq> None \<longrightarrow> i \<in> set (map (fst \<circ> snd) calls)"
    using run by blast+
  have fresh: "is_case ?s i = None" using used assms(2) by auto
  obtain x s' where x: "open_canary_incident memory_incidents ?s now i d = (x, s')" by fastforce
  then have "x = Inr ()"
    by (auto simp: open_canary_incident_def memory_incidents_def is_open_for_trace_def is_attach_def is_open_def
        Let_def split: option.splits prod.splits)
  with x mem_incidents.canary_recorded [OF inv fresh, of now d "()" s']
  have "\<exists>j c. is_case s' j = Some c \<and> covers_trace (sd_trace_id d) (sd_tenant_id d) CANARY_INCIDENT c
      \<and> sd_decision_id d \<in> set (in_decision_ids c)" by simp
  moreover have "canary_run (new_incident_store n) (calls @ [(now, i, d)]) = s'"
    using x by (simp add: canary_run_def)
  ultimately show ?thesis using single unfolding mem_incidents.single_case_def by blast
qed

theorem canary_incident_once_witness:
  "\<exists>j c. is_case (canary_run (new_incident_store 10) [(0, 1, example_decision 1), (5, 2, example_decision 2)]) j
      = Some c \<and> 2 \<in> set (in_decision_ids c)"
  using canary_incident_once [of 10 "[(0, 1, example_decision 1)]" 5 2 "example_decision 2"]
  by (simp add: example_decision_def) blast

end
