(* ===== verification/Service.thy ===== *)
theory Service
  imports Policy Limiters Vault Auditing Incidents Output Evidence
begin

text \<open>
  The application service of \<^verbatim>\<open>service.py\<close>: it composes detectors, policy, approvals, limits,
  vault and audit. A handler takes the ports it is configured with, what the environment answers
  during the call, and the state, and returns its result with the new state; an exception of the
  language is \<open>Inl\<close>. Metrics and tracing spans only observe and are left out.
\<close>

section \<open>Ports, environment and state\<close>

datatype detector_error = DetectorUnavailableError

datatype sandbox_error = SandboxUnavailableError

type_synonym inspector = "str \<Rightarrow> detector_error + finding list"

record sandbox =
  sb_available :: bool
  sb_run :: "str \<Rightarrow> bool \<Rightarrow> sandbox_error + sandbox_result"

text \<open>What does not change while the gateway runs.\<close>

record ('a, 't, 'i) ports =
  po_settings :: settings
  po_parsers :: parsers
  po_schema :: schema_checks
  po_sha256 :: "str \<Rightarrow> str"
  po_float_repr :: "real \<Rightarrow> str"
  po_str :: "py_value \<Rightarrow> str" \<comment> \<open>\<^verbatim>\<open>str()\<close> of a value that is not a string\<close>
  po_approvals :: "'a approval_repo"
  po_send :: "'t send"
  po_incidents :: "'i incident_repo"

text \<open>
  What the environment answers during one call: the clocks, the policy decision point, the
  inspectors and the sandbox, each of which may be down.
\<close>

record call_env =
  ce_now :: real
  ce_wall :: int
  ce_latency :: real
  ce_policy :: policy_engine
  ce_inspectors :: "inspector list"
  ce_sandbox :: "sandbox option"

text \<open>\<^verbatim>\<open>uuid4()\<close> is the next number never drawn before.\<close>

record ('a, 't, 'i) gateway =
  gw_approvals :: 'a
  gw_audit :: "'t audit_sink"
  gw_vault :: "(str \<times> uuid) vault"
  gw_identity_quota :: "(str \<times> str) rate_limiter"
  gw_tenant_quota :: "str rate_limiter"
  gw_budget :: "(str \<times> uuid) execution_budget"
  gw_violations :: "(str \<times> str) violation_history"
  gw_decisions :: decision_log
  gw_incidents :: 'i
  gw_next :: uuid

definition new_gateway ::
  "('a, 't, 'i) ports \<Rightarrow> 'a \<Rightarrow> 't \<Rightarrow> 'i \<Rightarrow> ('a, 't, 'i) gateway" where
  "new_gateway P approvals transport incidents =
     (let s = po_settings P in
      \<lparr>gw_approvals = approvals,
       gw_audit = new_audit_sink (audit_buffer_size s) transport (audit_mandatory s),
       gw_vault = new_vault (pseudonym_ttl_seconds s),
       gw_identity_quota = new_rate_limiter (identity_requests_per_minute s) 60,
       gw_tenant_quota = new_rate_limiter (tenant_requests_per_minute s) 60,
       gw_budget = new_execution_budget (max_actions_per_trace s),
       gw_violations = new_violation_history (violation_lockout_threshold s) (violation_window_seconds s),
       gw_decisions = new_decision_log (decision_log_size s),
       gw_incidents = incidents, gw_next = 0\<rparr>)"

definition READ_ONLY_EFFECTS :: "side_effect set" where "READ_ONLY_EFFECTS = {SE_NONE, SE_READ}"

definition VIOLATION_REASONS :: "str set" where
  "VIOLATION_REASONS =
     {lit ''prompt_injection_detected'', lit ''obfuscated_content_detected'', lit ''embedded_action_detected''}"

abbreviation unicode_of :: "('a, 't, 'i) ports \<Rightarrow> unicode_db" where
  "unicode_of P \<equiv> pa_unicode (po_parsers P)"

section \<open>Publishing\<close>

text \<open>\<^verbatim>\<open>_publish\<close>: to the audit sink, to the decision log, and a canary to the incidents.\<close>

definition publish ::
  "('a, 't, 'i) ports \<Rightarrow> call_env \<Rightarrow> ('a, 't, 'i) gateway \<Rightarrow> security_decision \<Rightarrow> ('a, 't, 'i) gateway" where
  "publish P E s d =
     (let s = s\<lparr>gw_audit := sk_publish (po_send P) (gw_next s) (ce_wall E) (gw_audit s) d,
               gw_next := gw_next s + 1\<rparr>;
          s = s\<lparr>gw_decisions := dl_record (gw_decisions s) d\<rparr>
      in if sd_reason_code d = lit ''canary_leak_detected''
         then s\<lparr>gw_incidents := snd (open_canary_incident (po_incidents P) (gw_incidents s) (ce_wall E) (gw_next s) d),
                gw_next := gw_next s + 1\<rparr>
         else s)"

definition fresh_id :: "('a, 't, 'i) gateway \<Rightarrow> uuid \<times> ('a, 't, 'i) gateway" where
  "fresh_id s = (gw_next s, s\<lparr>gw_next := gw_next s + 1\<rparr>)"

section \<open>Guards\<close>

definition asserts_another_identity :: "str \<Rightarrow> str \<Rightarrow> principal \<Rightarrow> bool" where
  "asserts_another_identity identity tenant p \<longleftrightarrow> identity \<noteq> pr_identity p \<or> tenant \<noteq> pr_tenant_id p"

definition accepting :: "('a, 't, 'i) ports \<Rightarrow> ('a, 't, 'i) gateway \<Rightarrow> bool \<times> ('a, 't, 'i) gateway" where
  "accepting P s = (let (ok, sink) = sk_accepting (po_send P) (gw_audit s) in (ok, s\<lparr>gw_audit := sink\<rparr>))"

definition model_eligible :: "settings \<Rightarrow> str option \<Rightarrow> bool" where
  "model_eligible s model =
     (let permitted = eligible_models s @ local_only_models s
      in model = None \<or> permitted = [] \<or> model \<in> Some ` set permitted)"

text \<open>The identity's quota first: a caller over its own limit does not spend its tenant's.\<close>

definition within_quota ::
  "call_env \<Rightarrow> ('a, 't, 'i) gateway \<Rightarrow> principal \<Rightarrow> py_error + bool \<times> ('a, 't, 'i) gateway" where
  "within_quota E s p =
     (case rl_allow (gw_identity_quota s) (ce_now E) (pr_tenant_id p, pr_identity p) of
        Inl e \<Rightarrow> Inl e
      | Inr (ok, q) \<Rightarrow>
          let s = s\<lparr>gw_identity_quota := q\<rparr> in
          if \<not> ok then Inr (False, s)
          else (case rl_allow (gw_tenant_quota s) (ce_now E) (pr_tenant_id p) of
                  Inl e \<Rightarrow> Inl e
                | Inr (ok, q) \<Rightarrow> Inr (ok, s\<lparr>gw_tenant_quota := q\<rparr>)))"

definition record_violation ::
  "call_env \<Rightarrow> ('a, 't, 'i) gateway \<Rightarrow> principal \<Rightarrow> str \<Rightarrow> py_error + ('a, 't, 'i) gateway" where
  "record_violation E s p reason =
     (if reason \<in> VIOLATION_REASONS
      then (case vh_record (gw_violations s) (ce_now E) (pr_tenant_id p, pr_identity p) of
              Inl e \<Rightarrow> Inl e
            | Inr h \<Rightarrow> Inr (s\<lparr>gw_violations := h\<rparr>))
      else Inr s)"

definition locked :: "call_env \<Rightarrow> ('a, 't, 'i) gateway \<Rightarrow> principal \<Rightarrow> bool" where
  "locked E s p = vh_locked (gw_violations s) (ce_now E) (pr_tenant_id p, pr_identity p)"

section \<open>Inspection and judgement\<close>

text \<open>\<^verbatim>\<open>_findings\<close>: the union of all inspectors, or the first failure.\<close>

fun findings_of :: "inspector list \<Rightarrow> str \<Rightarrow> detector_error + finding list" where
  "findings_of [] content = Inr []"
| "findings_of (i # is) content =
     (case i content of
        Inl e \<Rightarrow> Inl e
      | Inr fs \<Rightarrow> (case findings_of is content of Inl e \<Rightarrow> Inl e | Inr gs \<Rightarrow> Inr (fs @ gs)))"

definition judge ::
  "('a, 't, 'i) ports \<Rightarrow> call_env \<Rightarrow> enforcement_point \<Rightarrow> trust_level \<Rightarrow> str option \<Rightarrow> str \<Rightarrow> str
    \<Rightarrow> verdict \<times> str \<times> finding list" where
  "judge P E point trust source_tenant tenant content =
     (case findings_of (ce_inspectors E) content of
        Inl _ \<Rightarrow> (DENY, lit ''content_inspection_unavailable'', [])
      | Inr findings \<Rightarrow>
          let evidence = map fi_evidence findings in
          (case pe_content (ce_policy E) point trust source_tenant tenant evidence of
             Inr (v, reason) \<Rightarrow> (v, reason, findings)
           | Inl _ \<Rightarrow>
               if \<not> restricted_read_only_mode (po_settings P)
               then (DENY, lit ''policy_engine_unavailable'', findings)
               else let (v, reason) = local_content_verdict (po_settings P) point trust source_tenant tenant evidence
                    in (v, if v = ALLOW then lit ''restricted_read_only_mode'' else reason, findings)))"

text \<open>\<^verbatim>\<open>_transformed\<close>: the vault's scope is the tenant and the trace.\<close>

definition transformed ::
  "('a, 't, 'i) ports \<Rightarrow> call_env \<Rightarrow> ('a, 't, 'i) gateway \<Rightarrow> str \<Rightarrow> finding list \<Rightarrow> str \<Rightarrow> uuid
    \<Rightarrow> py_error + str \<times> ('a, 't, 'i) gateway" where
  "transformed P E s content findings tenant trace =
     (case transform_content (unicode_of P) content findings (action_resolver (po_settings P) tenant)
             (va_tokenize (unicode_of P) (ce_now E) (tenant, trace)) (gw_vault s) of
        Inl e \<Rightarrow> Inl e
      | Inr (out, v) \<Rightarrow> Inr (out, s\<lparr>gw_vault := v\<rparr>))"

section \<open>Content\<close>

text \<open>A request of \<^verbatim>\<open>inspect_content\<close>, and the subclass the output checks ask for.\<close>

datatype content_call = ContentCall content_request | OutputCall output_request

fun base_request :: "content_call \<Rightarrow> content_request" where
  "base_request (ContentCall r) = r"
| "base_request (OutputCall r) = content_request.truncate r"

definition decide_content ::
  "('a, 't, 'i) ports \<Rightarrow> call_env \<Rightarrow> content_request \<Rightarrow> enforcement_point \<Rightarrow> principal \<Rightarrow> ('a, 't, 'i) gateway
    \<Rightarrow> verdict \<Rightarrow> str \<Rightarrow> evidence list \<Rightarrow> str option \<Rightarrow> str option
    \<Rightarrow> py_error + security_decision \<times> ('a, 't, 'i) gateway" where
  "decide_content P E r point p s v reason evidence out route =
     (case record_violation E s p reason of
        Inl e \<Rightarrow> Inl e
      | Inr s \<Rightarrow>
          let (i, s) = fresh_id s;
              d = \<lparr>sd_decision_id = i, sd_request_id = cr_request_id r, sd_trace_id = cr_trace_id r,
                   sd_point = point, sd_tenant_id = pr_tenant_id p,
                   sd_policy_version = policy_version (po_settings P), sd_verdict = v,
                   sd_reason_code = reason, sd_evidence = evidence, sd_transformed_content = out,
                   sd_action_digest = None, sd_approval_id = None, sd_route = route,
                   sd_latency_ms = ce_latency E\<rparr>
          in Inr (d, publish P E s d))"

text \<open>What follows a judgement that does not deny.\<close>

definition conclude_content ::
  "('a, 't, 'i) ports \<Rightarrow> call_env \<Rightarrow> content_call \<Rightarrow> enforcement_point \<Rightarrow> principal \<Rightarrow> ('a, 't, 'i) gateway
    \<Rightarrow> verdict \<Rightarrow> str \<Rightarrow> finding list \<Rightarrow> py_error + security_decision \<times> ('a, 't, 'i) gateway" where
  "conclude_content P E call point p s v reason findings =
     (let r = base_request call; evidence = map fi_evidence findings in
      if v = TRANSFORM \<and> cr_model r \<in> Some ` set (local_only_models (po_settings P))
      then decide_content P E r point p s ALLOW (lit ''sensitive_content_local_only'') evidence None
             (Some (lit ''local_only''))
      else
        (case (if v = TRANSFORM
               then (case transformed P E s (cr_content r) findings (pr_tenant_id p) (cr_trace_id r) of
                       Inl e \<Rightarrow> Inl e | Inr (out, s) \<Rightarrow> Inr (Some out, s))
               else Inr (None, s)) of
           Inl e \<Rightarrow> Inl e
         | Inr (out, s) \<Rightarrow>
             (case call of
                OutputCall o_r \<Rightarrow>
                  if v = ALLOW then
                    let (v', output_reason, out') =
                          output_verdict (unicode_of P) (po_schema P) o_r
                            (output_config_from (unicode_of P) (po_settings P));
                        reason = (if v' \<noteq> ALLOW \<or> output_reason \<noteq> lit ''policy_allow'' then output_reason else reason)
                    in decide_content P E r point p s v' reason evidence out' None
                  else decide_content P E r point p s v reason evidence out None
              | ContentCall _ \<Rightarrow> decide_content P E r point p s v reason evidence out None)))"

definition inspect_content ::
  "('a, 't, 'i) ports \<Rightarrow> call_env \<Rightarrow> content_call \<Rightarrow> enforcement_point \<Rightarrow> principal \<Rightarrow> ('a, 't, 'i) gateway
    \<Rightarrow> py_error + security_decision \<times> ('a, 't, 'i) gateway" where
  "inspect_content P E call point p s =
     (let r = base_request call;
          refuse = (\<lambda>s reason evidence. decide_content P E r point p s DENY (reason :: str) evidence None None)
      in if asserts_another_identity (cr_identity r) (cr_tenant_id r) p
         then refuse s (lit ''identity_assertion_mismatch'') []
         else
           let (durable, s) = accepting P s in
           if \<not> durable then refuse s (lit ''audit_durability_unavailable'') []
           else
             (case within_quota E s p of
                Inl e \<Rightarrow> Inl e
              | Inr (ok, s) \<Rightarrow>
                  if \<not> ok then refuse s (lit ''quota_exceeded'') []
                  else if locked E s p then refuse s (lit ''repeated_policy_violations'') []
                  else if \<not> model_eligible (po_settings P) (cr_model r)
                  then refuse s (lit ''model_not_eligible'') []
                  else if int (length (cr_content r)) > max_content_chars (po_settings P)
                  then refuse s (lit ''content_size_exceeded'') []
                  else
                    let (v, reason, findings) =
                          judge P E point (cr_trust_level r) (cr_source_tenant_id r) (cr_tenant_id r) (cr_content r)
                    in if v = DENY then refuse s reason (map fi_evidence findings)
                       else conclude_content P E call point p s v reason findings))"

section \<open>Context batches\<close>

definition refuse_document :: "context_document \<Rightarrow> str \<Rightarrow> evidence list \<Rightarrow> document_decision" where
  "refuse_document d reason evidence =
     \<lparr>dd_document_id = cd_id d, dd_verdict = DENY, dd_reason_code = reason, dd_evidence = evidence,
      dd_content = None\<rparr>"

definition judge_document ::
  "('a, 't, 'i) ports \<Rightarrow> call_env \<Rightarrow> context_document \<Rightarrow> principal \<Rightarrow> int \<Rightarrow> uuid \<Rightarrow> ('a, 't, 'i) gateway
    \<Rightarrow> py_error + document_decision \<times> ('a, 't, 'i) gateway" where
  "judge_document P E d p remaining trace s =
     (if cd_source_tenant_id d \<noteq> pr_tenant_id p
      then Inr (refuse_document d (lit ''cross_tenant_context'') [], s)
      else if \<not> may_read d p then Inr (refuse_document d (lit ''document_not_authorized'') [], s)
      else if int (length (cd_content d)) > max_content_chars (po_settings P)
      then Inr (refuse_document d (lit ''content_size_exceeded'') [], s)
      else if int (length (cd_content d)) > remaining
      then Inr (refuse_document d (lit ''context_budget_exceeded'') [], s)
      else
        let (v, reason, findings) =
              judge P E CONTEXT (cd_trust_level d) (Some (cd_source_tenant_id d)) (pr_tenant_id p) (cd_content d);
            evidence = map fi_evidence findings
        in if v = DENY then Inr (refuse_document d reason evidence, s)
           else
             (case (if v = TRANSFORM then transformed P E s (cd_content d) findings (pr_tenant_id p) trace
                    else Inr (cd_content d, s)) of
                Inl e \<Rightarrow> Inl e
              | Inr (content, s) \<Rightarrow>
                  Inr (\<lparr>dd_document_id = cd_id d, dd_verdict = v, dd_reason_code = reason,
                        dd_evidence = evidence,
                        dd_content = Some (as_untrusted_evidence (unicode_of P) d content)\<rparr>, s)))"

definition context_decision ::
  "('a, 't, 'i) ports \<Rightarrow> call_env \<Rightarrow> context_batch_request \<Rightarrow> principal \<Rightarrow> uuid \<Rightarrow> verdict \<Rightarrow> str
    \<Rightarrow> evidence list \<Rightarrow> security_decision" where
  "context_decision P E r p i v reason evidence =
     \<lparr>sd_decision_id = i, sd_request_id = br_request_id r, sd_trace_id = br_trace_id r,
      sd_point = CONTEXT, sd_tenant_id = pr_tenant_id p,
      sd_policy_version = policy_version (po_settings P), sd_verdict = v, sd_reason_code = reason,
      sd_evidence = evidence, sd_transformed_content = None, sd_action_digest = None,
      sd_approval_id = None, sd_route = None, sd_latency_ms = ce_latency E\<rparr>"

text \<open>One document: judged, its violation recorded, and published on its own.\<close>

definition batch_step ::
  "('a, 't, 'i) ports \<Rightarrow> call_env \<Rightarrow> context_batch_request \<Rightarrow> principal \<Rightarrow> int \<Rightarrow> context_document
    \<Rightarrow> ('a, 't, 'i) gateway \<Rightarrow> py_error + document_decision \<times> ('a, 't, 'i) gateway" where
  "batch_step P E r p remaining d s =
     (case judge_document P E d p remaining (br_trace_id r) s of
        Inl e \<Rightarrow> Inl e
      | Inr (result, s) \<Rightarrow>
          (case record_violation E s p (dd_reason_code result) of
             Inl e \<Rightarrow> Inl e
           | Inr s \<Rightarrow>
               let (i, s) = fresh_id s
               in Inr (result, publish P E s
                    (context_decision P E r p i (dd_verdict result) (dd_reason_code result) (dd_evidence result)))))"

fun batch_loop ::
  "('a, 't, 'i) ports \<Rightarrow> call_env \<Rightarrow> context_batch_request \<Rightarrow> principal \<Rightarrow> int \<Rightarrow> context_document list
    \<Rightarrow> ('a, 't, 'i) gateway \<Rightarrow> py_error + document_decision list \<times> ('a, 't, 'i) gateway" where
  "batch_loop P E r p remaining [] s = Inr ([], s)"
| "batch_loop P E r p remaining (d # ds) s =
     (case batch_step P E r p remaining d s of
        Inl e \<Rightarrow> Inl e
      | Inr (result, s) \<Rightarrow>
          (case batch_loop P E r p
              (if dd_content result \<noteq> None then remaining - int (length (cd_content d)) else remaining) ds s of
             Inl e \<Rightarrow> Inl e
           | Inr (results, s) \<Rightarrow> Inr (result # results, s)))"

definition conclude_batch ::
  "('a, 't, 'i) ports \<Rightarrow> call_env \<Rightarrow> context_batch_request \<Rightarrow> principal \<Rightarrow> ('a, 't, 'i) gateway
    \<Rightarrow> verdict \<Rightarrow> str \<Rightarrow> document_decision list \<Rightarrow> context_batch_decision \<times> ('a, 't, 'i) gateway" where
  "conclude_batch P E r p s v reason results =
     (let (i, s) = fresh_id s in
      (\<lparr>bd_decision_id = i, bd_request_id = br_request_id r, bd_trace_id = br_trace_id r,
        bd_tenant_id = pr_tenant_id p, bd_policy_version = policy_version (po_settings P),
        bd_verdict = v, bd_reason_code = reason, bd_documents = results,
        bd_admitted = length (filter (\<lambda>x. dd_content x \<noteq> None) results), bd_latency_ms = ce_latency E\<rparr>,
       publish P E s (context_decision P E r p i v reason [])))"

definition inspect_context_batch ::
  "('a, 't, 'i) ports \<Rightarrow> call_env \<Rightarrow> context_batch_request \<Rightarrow> principal \<Rightarrow> ('a, 't, 'i) gateway
    \<Rightarrow> py_error + context_batch_decision \<times> ('a, 't, 'i) gateway" where
  "inspect_context_batch P E r p s =
     (let refuse = (\<lambda>s reason. Inr (conclude_batch P E r p s DENY (lit reason) [])) in
      if asserts_another_identity (br_identity r) (br_tenant_id r) p
      then refuse s ''identity_assertion_mismatch''
      else
        let (durable, s) = accepting P s in
        if \<not> durable then refuse s ''audit_durability_unavailable''
        else
          (case within_quota E s p of
             Inl e \<Rightarrow> Inl e
           | Inr (ok, s) \<Rightarrow>
               if \<not> ok then refuse s ''quota_exceeded''
               else if locked E s p then refuse s ''repeated_policy_violations''
               else
                 (case batch_loop P E r p (max_context_chars (po_settings P)) (br_documents r) s of
                    Inl e \<Rightarrow> Inl e
                  | Inr (results, s) \<Rightarrow>
                      Inr (if \<not> list_ex (\<lambda>x. dd_content x \<noteq> None) results
                           then conclude_batch P E r p s DENY (lit ''no_authorized_context'') results
                           else if list_all (\<lambda>x. dd_verdict x = ALLOW) results
                           then conclude_batch P E r p s ALLOW (lit ''policy_allow'') results
                           else conclude_batch P E r p s TRANSFORM (lit ''context_filtered'') results))))"

section \<open>Actions\<close>

definition decide_action ::
  "('a, 't, 'i) ports \<Rightarrow> call_env \<Rightarrow> action_request \<Rightarrow> principal \<Rightarrow> ('a, 't, 'i) gateway
    \<Rightarrow> verdict \<Rightarrow> str \<Rightarrow> str option \<Rightarrow> uuid option \<Rightarrow> security_decision \<times> ('a, 't, 'i) gateway" where
  "decide_action P E r p s v reason digest approval =
     (let (i, s) = fresh_id s;
          d = \<lparr>sd_decision_id = i, sd_request_id = ar_request_id r, sd_trace_id = ar_trace_id r,
               sd_point = ACTION, sd_tenant_id = pr_tenant_id p,
               sd_policy_version = policy_version (po_settings P), sd_verdict = v,
               sd_reason_code = reason, sd_evidence = [], sd_transformed_content = None,
               sd_action_digest = digest, sd_approval_id = approval, sd_route = None,
               sd_latency_ms = ce_latency E\<rparr>
      in (d, publish P E s d))"

definition digest_of :: "('a, 't, 'i) ports \<Rightarrow> action_request \<Rightarrow> str" where
  "digest_of P r = action_digest (po_sha256 P) (po_float_repr P) r"

text \<open>
  The policy's word on an action. A fallback answers only for an action without side effects,
  only when the read-only mode is on, and only to allow it: \<open>Inl\<close> is an immediate denial.
\<close>

definition action_policy ::
  "('a, 't, 'i) ports \<Rightarrow> call_env \<Rightarrow> action_request \<Rightarrow> principal \<Rightarrow> str + verdict \<times> str" where
  "action_policy P E r p =
     (case pe_action (ce_policy E) r (pr_roles p) of
        Inr (v, reason) \<Rightarrow> Inr (v, reason)
      | Inl _ \<Rightarrow>
          if \<not> (restricted_read_only_mode (po_settings P) \<and> ar_side_effect r \<in> READ_ONLY_EFFECTS)
          then Inl (lit ''policy_engine_unavailable'')
          else let (v, reason) = local_action_verdict (po_parsers P) (po_settings P) r (pr_roles p)
               in if v \<noteq> ALLOW then Inl reason else Inr (v, lit ''restricted_read_only_mode''))"

text \<open>Creating or consuming the approval of an action that needs one.\<close>

definition settle_approval ::
  "('a, 't, 'i) ports \<Rightarrow> call_env \<Rightarrow> action_request \<Rightarrow> principal \<Rightarrow> ('a, 't, 'i) gateway \<Rightarrow> str \<Rightarrow> verdict \<Rightarrow> str
    \<Rightarrow> security_decision \<times> ('a, 't, 'i) gateway" where
  "settle_approval P E r p s digest v reason =
     (case ar_approval_token r of
        None \<Rightarrow>
          let (i, s) = fresh_id s;
              (answer, a) = repo_create (po_approvals P) (gw_approvals s) (ce_wall E) i digest
                (ar_tenant_id r) (ar_identity r);
              s = s\<lparr>gw_approvals := a\<rparr>
          in (case answer of
                Inl _ \<Rightarrow> decide_action P E r p s DENY (lit ''approval_store_unavailable'') (Some digest) None
              | Inr approval \<Rightarrow>
                  decide_action P E r p s v reason (Some digest) (Some (ap_approval_id approval)))
      | Some token \<Rightarrow>
          let (answer, a) = repo_consume (po_approvals P) (gw_approvals s) (ce_wall E) token digest
                (ar_tenant_id r);
              s = s\<lparr>gw_approvals := a\<rparr>
          in (case answer of
                Inl _ \<Rightarrow> decide_action P E r p s DENY (lit ''approval_store_unavailable'') (Some digest) None
              | Inr True \<Rightarrow>
                  decide_action P E r p s ALLOW (lit ''exact_action_approval_consumed'') (Some digest) (Some token)
              | Inr False \<Rightarrow>
                  decide_action P E r p s DENY (lit ''invalid_or_expired_approval'') (Some digest) None))"

text \<open>The end of \<^verbatim>\<open>inspect_action\<close>, once every guard has passed.\<close>

definition decide_by_policy ::
  "('a, 't, 'i) ports \<Rightarrow> call_env \<Rightarrow> action_request \<Rightarrow> principal \<Rightarrow> ('a, 't, 'i) gateway \<Rightarrow> str
    \<Rightarrow> security_decision \<times> ('a, 't, 'i) gateway" where
  "decide_by_policy P E r p s digest =
     (case action_policy P E r p of
        Inl reason \<Rightarrow> decide_action P E r p s DENY reason (Some digest) None
      | Inr (v, reason) \<Rightarrow>
          if v = REQUIRE_APPROVAL then settle_approval P E r p s digest v reason
          else decide_action P E r p s v reason (Some digest) None)"

definition inspect_action ::
  "('a, 't, 'i) ports \<Rightarrow> call_env \<Rightarrow> action_request \<Rightarrow> principal \<Rightarrow> ('a, 't, 'i) gateway
    \<Rightarrow> py_error + security_decision \<times> ('a, 't, 'i) gateway" where
  "inspect_action P E r p s =
     (if asserts_another_identity (ar_identity r) (ar_tenant_id r) p
      then Inr (decide_action P E r p s DENY (lit ''identity_assertion_mismatch'') None None)
      else
        let (durable, s) = accepting P s in
        if \<not> durable then Inr (decide_action P E r p s DENY (lit ''audit_durability_unavailable'') None None)
        else
          (case within_quota E s p of
             Inl e \<Rightarrow> Inl e
           | Inr (ok, s) \<Rightarrow>
               if \<not> ok then Inr (decide_action P E r p s DENY (lit ''quota_exceeded'') None None)
               else
                 let digest = digest_of P r in
                 (case eb_consume (gw_budget s) (pr_tenant_id p, ar_trace_id r) of
                    Inl e \<Rightarrow> Inl e
                  | Inr (granted, b) \<Rightarrow>
                      let s = s\<lparr>gw_budget := b\<rparr> in
                      if \<not> granted
                      then Inr (decide_action P E r p s DENY (lit ''execution_budget_exceeded'') (Some digest) None)
                      else Inr (decide_by_policy P E r p s digest))))"

section \<open>Running code\<close>

definition py_str :: "('a, 't, 'i) ports \<Rightarrow> py_value \<Rightarrow> str" where
  "py_str P v = (case v of PStr s \<Rightarrow> s | _ \<Rightarrow> po_str P v)"

definition run_outcome :: "sandbox_result \<Rightarrow> str" where
  "run_outcome x =
     (if sr_timed_out x then lit ''timed_out''
      else if sr_output_truncated x then lit ''output_limit''
      else if sr_exit_code x = Some 0 then lit ''completed''
      else lit ''failed'')"

definition publish_operation ::
  "('a, 't, 'i) ports \<Rightarrow> call_env \<Rightarrow> ('a, 't, 'i) gateway \<Rightarrow> str \<Rightarrow> str \<Rightarrow> uuid \<Rightarrow> nat \<Rightarrow> ('a, 't, 'i) gateway" where
  "publish_operation P E s reason tenant trace count =
     s\<lparr>gw_audit := sk_publish_operation (po_send P) (gw_next s) (ce_wall E) (gw_audit s) reason tenant trace count,
       gw_next := gw_next s + 1\<rparr>"

definition publish_rejection ::
  "('a, 't, 'i) ports \<Rightarrow> call_env \<Rightarrow> ('a, 't, 'i) gateway \<Rightarrow> str \<Rightarrow> str \<Rightarrow> ('a, 't, 'i) gateway" where
  "publish_rejection P E s reason path =
     s\<lparr>gw_audit := sk_publish_rejection (po_send P) (gw_next s) (ce_wall E) (gw_audit s) reason path,
       gw_next := gw_next s + 1\<rparr>"

text \<open>
  \<open>ran\<close> is what was handed to the sandbox, for the claims: \<^verbatim>\<open>None\<close> when nothing was.
\<close>

definition execute ::
  "('a, 't, 'i) ports \<Rightarrow> call_env \<Rightarrow> action_request \<Rightarrow> principal \<Rightarrow> ('a, 't, 'i) gateway
    \<Rightarrow> py_error + (execution_response option \<times> (str \<times> bool) option) \<times> ('a, 't, 'i) gateway" where
  "execute P E r p s =
     (case ce_sandbox E of
        None \<Rightarrow> Inr ((None, None), s)
      | Some sandbox \<Rightarrow>
          if \<not> sb_available sandbox then Inr ((None, None), s)
          else
            (case inspect_action P E r p s of
               Inl e \<Rightarrow> Inl e
             | Inr (d, s) \<Rightarrow>
                 if sd_verdict d \<noteq> ALLOW
                 then Inr ((Some \<lparr>er_decision = d, er_result = None\<rparr>, None), s)
                 else
                   let network = (map_of (ar_arguments r) (lit ''network'') = Some (PBool True)) in
                   (case map_of (ar_arguments r) (lit ''code'') of
                      None \<Rightarrow> Inl KeyError
                    | Some code \<Rightarrow>
                        (case sb_run sandbox (py_str P code) network of
                           Inl _ \<Rightarrow> Inr ((None, Some (py_str P code, network)), s)
                         | Inr x \<Rightarrow>
                             Inr ((Some \<lparr>er_decision = d, er_result = Some x\<rparr>, Some (py_str P code, network)),
                                  publish_operation P E s (lit ''code_execution_'' @ run_outcome x)
                                    (pr_tenant_id p) (ar_trace_id r) 1)))))"

section \<open>Restoring pseudonyms\<close>

definition restore_pseudonyms ::
  "('a, 't, 'i) ports \<Rightarrow> call_env \<Rightarrow> restore_request \<Rightarrow> principal \<Rightarrow> ('a, 't, 'i) gateway
    \<Rightarrow> restore_response option \<times> ('a, 't, 'i) gateway" where
  "restore_pseudonyms P E r p s =
     (if asserts_another_identity (rr_identity r) (rr_tenant_id r) p
      then (None, publish_rejection P E s (lit ''identity_assertion_mismatch'') (lit ''/v1/pseudonyms/restore''))
      else
        let ((content, restored), v) =
              va_restore (unicode_of P) (ce_now E) (pr_tenant_id p, rr_trace_id r) (gw_vault s) (rr_content r);
            s = s\<lparr>gw_vault := v\<rparr>
        in (Some \<lparr>rs_content = content, rs_restored = restored\<rparr>,
            publish_operation P E s (lit ''pseudonyms_restored'') (pr_tenant_id p) (rr_trace_id r) restored))"

end
