(* ===== verification/App.thy ===== *)
theory App
  imports Service Identity
begin

text \<open>
  The HTTP application of \<^verbatim>\<open>app.py\<close>: authentication, one handler for each endpoint, and \<open>serve\<close>,
  which sends a request to its handler. An \<^verbatim>\<open>HTTPException\<close> is an \<open>HttpError\<close> with its status and
  detail, and a store that is unavailable is answered by the exception handler with 503. A handler
  that raises anything else returns \<open>Inl\<close>. FastAPI's routing and validation are not modelled:
  a request here is one that validated.
\<close>

datatype http_error = HttpError nat str

definition store_unavailable :: http_error where
  "store_unavailable = HttpError 503 (lit ''store_unavailable'')"

section \<open>Authentication\<close>

definition credential_status :: "auth_failure \<Rightarrow> nat" where
  "credential_status f = (if f = AF_UNAVAILABLE then 503 else 401)"

text \<open>The inner sum is the answer of the dependency; the outer \<open>Inl\<close> an exception that escapes it.\<close>

definition authenticated_principal ::
  "('a, 't, 'i) ports \<Rightarrow> 'k jwt_lib \<Rightarrow> http \<Rightarrow> call_env \<Rightarrow> str \<Rightarrow> str option
    \<Rightarrow> ('a, 't, 'i) gateway \<Rightarrow> 'k verifier
    \<Rightarrow> (py_error + (http_error + principal)) \<times> ('a, 't, 'i) gateway \<times> 'k verifier" where
  "authenticated_principal P J http E path authorization s v =
     (case verify (unicode_of P) J http (ce_now E) v authorization of
        (Inr p, v) \<Rightarrow> (Inr (Inr p), s, v)
      | (Inl (Uncaught e), v) \<Rightarrow> (Inl e, s, v)
      | (Inl (CredentialError f), v) \<Rightarrow>
          (Inr (Inl (HttpError (credential_status f) (auth_failure_value f))),
           publish_rejection P E s (auth_failure_value f) path, v))"

section \<open>Approvals\<close>

text \<open>A handler's answer and the state it leaves.\<close>

type_synonym ('r, 's) answer = "(http_error + 'r) \<times> 's"

abbreviation not_found :: "string \<Rightarrow> http_error" where
  "not_found what \<equiv> HttpError 404 (lit what)"

text \<open>A read of the approval repository, in the gateway's state.\<close>

definition approval_read ::
  "('a, 't, 'i) ports \<Rightarrow> call_env \<Rightarrow> uuid \<Rightarrow> ('a, 't, 'i) gateway
    \<Rightarrow> (store_error + approval option) \<times> ('a, 't, 'i) gateway" where
  "approval_read P E i s =
     (let (answer, a) = repo_get (po_approvals P) (gw_approvals s) (ce_wall E) i in (answer, s\<lparr>gw_approvals := a\<rparr>))"

definition get_approval ::
  "('a, 't, 'i) ports \<Rightarrow> call_env \<Rightarrow> uuid \<Rightarrow> principal \<Rightarrow> ('a, 't, 'i) gateway
    \<Rightarrow> (approval, ('a, 't, 'i) gateway) answer" where
  "get_approval P E i p s =
     (case approval_read P E i s of
        (Inl _, s) \<Rightarrow> (Inl store_unavailable, s)
      | (Inr found, s) \<Rightarrow>
          (case found of
             None \<Rightarrow> (Inl (not_found ''Approval not found''), s)
           | Some r \<Rightarrow>
               if ap_tenant_id r \<noteq> pr_tenant_id p then (Inl (not_found ''Approval not found''), s)
               else (Inr r, s)))"

definition adjudicable ::
  "('a, 't, 'i) ports \<Rightarrow> call_env \<Rightarrow> uuid \<Rightarrow> principal \<Rightarrow> ('a, 't, 'i) gateway
    \<Rightarrow> (unit, ('a, 't, 'i) gateway) answer" where
  "adjudicable P E i p s =
     (if \<not> has_role p REVIEWER then (Inl (HttpError 403 (lit ''reviewer_role_required'')), s)
      else
        (case approval_read P E i s of
           (Inl _, s) \<Rightarrow> (Inl store_unavailable, s)
         | (Inr found, s) \<Rightarrow>
             (case found of
                None \<Rightarrow> (Inl (not_found ''Approval not found''), s)
              | Some r \<Rightarrow>
                  if ap_tenant_id r \<noteq> pr_tenant_id p then (Inl (not_found ''Approval not found''), s)
                  else if ap_requested_by r = pr_identity p
                  then (Inl (HttpError 409 (lit ''self_approval_forbidden'')), s)
                  else (Inr (), s))))"

definition adjudicated :: "approval option \<Rightarrow> approval_status \<Rightarrow> http_error + approval" where
  "adjudicated record outcome =
     (case record of
        None \<Rightarrow> Inl (not_found ''Approval not found'')
      | Some r \<Rightarrow>
          if ap_status r \<noteq> outcome
          then Inl (HttpError 409 (lit ''Approval is '' @ approval_status_value (ap_status r)))
          else Inr r)"

text \<open>\<^verbatim>\<open>approve_action\<close> and \<^verbatim>\<open>reject_action\<close> differ in the repository's operation and the outcome.\<close>

definition adjudicate_action ::
  "('a \<Rightarrow> int \<Rightarrow> uuid \<Rightarrow> str \<Rightarrow> str \<Rightarrow> (store_error + approval option) \<times> 'a) \<Rightarrow> approval_status
    \<Rightarrow> ('a, 't, 'i) ports \<Rightarrow> call_env \<Rightarrow> uuid \<Rightarrow> str \<Rightarrow> principal \<Rightarrow> ('a, 't, 'i) gateway
    \<Rightarrow> (approval, ('a, 't, 'i) gateway) answer" where
  "adjudicate_action operation outcome P E i rationale p s =
     (case adjudicable P E i p s of
        (Inl e, s) \<Rightarrow> (Inl e, s)
      | (Inr _, s) \<Rightarrow>
          (case operation (gw_approvals s) (ce_wall E) i (pr_identity p) rationale of
             (Inl _, a) \<Rightarrow> (Inl store_unavailable, s\<lparr>gw_approvals := a\<rparr>)
           | (Inr record, a) \<Rightarrow> (adjudicated record outcome, s\<lparr>gw_approvals := a\<rparr>)))"

definition approve_action ::
  "('a, 't, 'i) ports \<Rightarrow> call_env \<Rightarrow> uuid \<Rightarrow> str \<Rightarrow> principal \<Rightarrow> ('a, 't, 'i) gateway
    \<Rightarrow> (approval, ('a, 't, 'i) gateway) answer" where
  "approve_action P = adjudicate_action (repo_approve (po_approvals P)) APPROVED P"

definition reject_action ::
  "('a, 't, 'i) ports \<Rightarrow> call_env \<Rightarrow> uuid \<Rightarrow> str \<Rightarrow> principal \<Rightarrow> ('a, 't, 'i) gateway
    \<Rightarrow> (approval, ('a, 't, 'i) gateway) answer" where
  "reject_action P = adjudicate_action (repo_reject (po_approvals P)) REJECTED P"

section \<open>Code and pseudonyms\<close>

definition execute_action ::
  "('a, 't, 'i) ports \<Rightarrow> call_env \<Rightarrow> action_request \<Rightarrow> principal \<Rightarrow> ('a, 't, 'i) gateway
    \<Rightarrow> py_error + (execution_response, ('a, 't, 'i) gateway) answer" where
  "execute_action P E r p s =
     (if ar_tool r \<noteq> CODE_TOOL then Inr (Inl (HttpError 400 (lit ''tool_not_executable'')), s)
      else
        (case execute P E r p s of
           Inl e \<Rightarrow> Inl e
         | Inr ((outcome, _), s) \<Rightarrow>
             Inr (case outcome of
                    None \<Rightarrow> (Inl (HttpError 503 (lit ''sandbox_unavailable'')), s)
                  | Some x \<Rightarrow> (Inr x, s))))"

definition restore_endpoint ::
  "('a, 't, 'i) ports \<Rightarrow> call_env \<Rightarrow> restore_request \<Rightarrow> principal \<Rightarrow> ('a, 't, 'i) gateway
    \<Rightarrow> (restore_response, ('a, 't, 'i) gateway) answer" where
  "restore_endpoint P E r p s =
     (case restore_pseudonyms P E r p s of
        (None, s) \<Rightarrow> (Inl (HttpError 403 (lit ''identity_assertion_mismatch'')), s)
      | (Some x, s) \<Rightarrow> (Inr x, s))"

section \<open>Decisions and incidents\<close>

definition holds_any :: "principal \<Rightarrow> role list \<Rightarrow> bool" where
  "holds_any p roles \<longleftrightarrow> list_ex (has_role p) roles"

definition role_required :: http_error where "role_required = HttpError 403 (lit ''role_required'')"

definition get_decision ::
  "uuid \<Rightarrow> principal \<Rightarrow> ('a, 't, 'i) gateway \<Rightarrow> http_error + security_decision" where
  "get_decision i p s =
     (if \<not> holds_any p [AUDITOR, REVIEWER] then Inl role_required
      else (case dl_get (gw_decisions s) i (pr_tenant_id p) of
              None \<Rightarrow> Inl (not_found ''Decision not found'')
            | Some d \<Rightarrow> Inr d))"

definition list_decisions ::
  "uuid \<Rightarrow> principal \<Rightarrow> ('a, 't, 'i) gateway \<Rightarrow> http_error + security_decision list" where
  "list_decisions trace p s =
     (if \<not> holds_any p [AUDITOR, REVIEWER] then Inl role_required
      else Inr (dl_for_trace (gw_decisions s) trace (pr_tenant_id p)))"

definition known_decisions :: "uuid list \<Rightarrow> str \<Rightarrow> decision_log \<Rightarrow> security_decision option list" where
  "known_decisions ids tenant l = map (\<lambda>i. dl_get l i tenant) ids"

text \<open>A call of the incident repository: an unavailable store is the 503 of the exception handler.\<close>

definition incident_answer ::
  "('a, 't, 'i) gateway \<Rightarrow> (store_error + 'r) \<times> 'i \<Rightarrow> ('r, ('a, 't, 'i) gateway) answer" where
  "incident_answer s x =
     (case x of
        (Inl _, n) \<Rightarrow> (Inl store_unavailable, s\<lparr>gw_incidents := n\<rparr>)
      | (Inr y, n) \<Rightarrow> (Inr y, s\<lparr>gw_incidents := n\<rparr>))"

definition found_or_404 :: "(incident option, 's) answer \<Rightarrow> (incident, 's) answer" where
  "found_or_404 x =
     (case x of
        (Inl e, s) \<Rightarrow> (Inl e, s)
      | (Inr None, s) \<Rightarrow> (Inl (not_found ''Incident not found''), s)
      | (Inr (Some c), s) \<Rightarrow> (Inr c, s))"

definition open_incident ::
  "('a, 't, 'i) ports \<Rightarrow> call_env \<Rightarrow> incident_open_request \<Rightarrow> principal \<Rightarrow> ('a, 't, 'i) gateway
    \<Rightarrow> (incident, ('a, 't, 'i) gateway) answer" where
  "open_incident P E r p s =
     (if \<not> holds_any p [REVIEWER] then (Inl role_required, s)
      else
        let decisions = known_decisions (io_decision_ids r) (pr_tenant_id p) (gw_decisions s);
            known = List.map_filter id decisions
        in if length known \<noteq> length decisions then (Inl (not_found ''Decision not found''), s)
           else let (i, s) = fresh_id s
                in incident_answer s (irepo_open (po_incidents P) (gw_incidents s) (ce_wall E) i
                     (pr_tenant_id p) (io_title r) (io_severity r) (pr_identity p) known))"

definition list_incidents ::
  "('a, 't, 'i) ports \<Rightarrow> principal \<Rightarrow> ('a, 't, 'i) gateway \<Rightarrow> (incident list, ('a, 't, 'i) gateway) answer" where
  "list_incidents P p s =
     (if \<not> holds_any p [AUDITOR, REVIEWER] then (Inl role_required, s)
      else incident_answer s (irepo_list (po_incidents P) (gw_incidents s) (pr_tenant_id p)))"

definition get_incident ::
  "('a, 't, 'i) ports \<Rightarrow> uuid \<Rightarrow> principal \<Rightarrow> ('a, 't, 'i) gateway \<Rightarrow> (incident, ('a, 't, 'i) gateway) answer" where
  "get_incident P i p s =
     (if \<not> holds_any p [AUDITOR, REVIEWER] then (Inl role_required, s)
      else found_or_404 (incident_answer s (irepo_get (po_incidents P) (gw_incidents s) i (pr_tenant_id p))))"

definition update_incident ::
  "('a, 't, 'i) ports \<Rightarrow> call_env \<Rightarrow> uuid \<Rightarrow> incident_update \<Rightarrow> principal \<Rightarrow> ('a, 't, 'i) gateway
    \<Rightarrow> (incident, ('a, 't, 'i) gateway) answer" where
  "update_incident P E i u p s =
     (if \<not> holds_any p [REVIEWER] then (Inl role_required, s)
      else found_or_404 (incident_answer s
             (irepo_update (po_incidents P) (gw_incidents s) (ce_wall E) i (pr_tenant_id p) u)))"

section \<open>Requests\<close>

datatype request =
    InspectInput content_request
  | InspectContext content_request
  | InspectContextBatch context_batch_request
  | InspectOutput output_request
  | InspectAction action_request
  | ExecuteAction action_request
  | RestorePseudonyms restore_request
  | GetApproval uuid
  | ApproveAction uuid str
  | RejectAction uuid str
  | GetDecision uuid
  | ListDecisions uuid
  | OpenIncident incident_open_request
  | ListIncidents
  | GetIncident uuid
  | UpdateIncident uuid incident_update

datatype response =
    DecisionBody security_decision
  | BatchBody context_batch_decision
  | ExecutionBody execution_response
  | RestoredBody restore_response
  | ApprovalBody approval
  | DecisionsBody "security_decision list"
  | IncidentBody incident
  | IncidentsBody "incident list"

text \<open>The body of an answer, and the answers of handlers that may raise.\<close>

definition body :: "('r \<Rightarrow> response) \<Rightarrow> ('r, 's) answer \<Rightarrow> (response, 's) answer" where
  "body f x = (case x of (Inl e, s) \<Rightarrow> (Inl e, s) | (Inr r, s) \<Rightarrow> (Inr (f r), s))"

definition raising :: "('r \<Rightarrow> response) \<Rightarrow> py_error + 'r \<times> 's \<Rightarrow> py_error + (response, 's) answer" where
  "raising f m = (case m of Inl e \<Rightarrow> Inl e | Inr (r, s) \<Rightarrow> Inr (Inr (f r), s))"

fun serve ::
  "('a, 't, 'i) ports \<Rightarrow> call_env \<Rightarrow> request \<Rightarrow> principal \<Rightarrow> ('a, 't, 'i) gateway
    \<Rightarrow> py_error + (response, ('a, 't, 'i) gateway) answer" where
  "serve P E (InspectInput r) p s = raising DecisionBody (inspect_content P E (ContentCall r) INPUT p s)"
| "serve P E (InspectContext r) p s = raising DecisionBody (inspect_content P E (ContentCall r) CONTEXT p s)"
| "serve P E (InspectContextBatch r) p s = raising BatchBody (inspect_context_batch P E r p s)"
| "serve P E (InspectOutput r) p s = raising DecisionBody (inspect_content P E (OutputCall r) OUTPUT p s)"
| "serve P E (InspectAction r) p s = raising DecisionBody (inspect_action P E r p s)"
| "serve P E (ExecuteAction r) p s =
     (case execute_action P E r p s of Inl e \<Rightarrow> Inl e | Inr x \<Rightarrow> Inr (body ExecutionBody x))"
| "serve P E (RestorePseudonyms r) p s = Inr (body RestoredBody (restore_endpoint P E r p s))"
| "serve P E (GetApproval i) p s = Inr (body ApprovalBody (get_approval P E i p s))"
| "serve P E (ApproveAction i rationale) p s = Inr (body ApprovalBody (approve_action P E i rationale p s))"
| "serve P E (RejectAction i rationale) p s = Inr (body ApprovalBody (reject_action P E i rationale p s))"
| "serve P E (GetDecision i) p s = Inr (map_sum id DecisionBody (get_decision i p s), s)"
| "serve P E (ListDecisions trace) p s = Inr (map_sum id DecisionsBody (list_decisions trace p s), s)"
| "serve P E (OpenIncident r) p s = Inr (body IncidentBody (open_incident P E r p s))"
| "serve P E ListIncidents p s = Inr (body IncidentsBody (list_incidents P p s))"
| "serve P E (GetIncident i) p s = Inr (body IncidentBody (get_incident P i p s))"
| "serve P E (UpdateIncident i u) p s = Inr (body IncidentBody (update_incident P E i u p s))"

text \<open>A whole exchange: authentication, then the handler.\<close>

definition handle ::
  "('a, 't, 'i) ports \<Rightarrow> 'k jwt_lib \<Rightarrow> http \<Rightarrow> call_env \<Rightarrow> str \<Rightarrow> str option \<Rightarrow> request
    \<Rightarrow> ('a, 't, 'i) gateway \<Rightarrow> 'k verifier
    \<Rightarrow> py_error + (response, ('a, 't, 'i) gateway \<times> 'k verifier) answer" where
  "handle P J http E path authorization q s v =
     (case authenticated_principal P J http E path authorization s v of
        (Inl e, _, _) \<Rightarrow> Inl e
      | (Inr (Inl e), s, v) \<Rightarrow> Inr (Inl e, s, v)
      | (Inr (Inr p), s, v) \<Rightarrow>
          (case serve P E q p s of Inl e \<Rightarrow> Inl e | Inr (x, s) \<Rightarrow> Inr (x, s, v)))"

section \<open>Health\<close>

record health_response =
  hr_status :: str
  hr_policy_version :: str
  hr_identity_verification :: str
  hr_audit :: str
  hr_stores :: str
  hr_policy :: str

fun sink_state_value :: "sink_state \<Rightarrow> str" where
  "sink_state_value Durable = lit ''durable''"
| "sink_state_value Buffering = lit ''buffering''"
| "sink_state_value Blocked = lit ''blocked''"

definition verification_state :: "bool \<Rightarrow> str" where
  "verification_state ok = (if ok then lit ''configured'' else lit ''unavailable'')"

definition available_state :: "bool \<Rightarrow> str" where
  "available_state ok = (if ok then lit ''available'' else lit ''unavailable'')"

text \<open>
  \<open>reachable\<close> and \<open>deciding\<close> are what the stores and the decision point answer to
  \<^verbatim>\<open>available()\<close>, and \<open>configured\<close> what the verifier answers.
\<close>

definition live ::
  "('a, 't, 'i) ports \<Rightarrow> bool \<Rightarrow> ('a, 't, 'i) gateway \<Rightarrow> health_response \<times> ('a, 't, 'i) gateway" where
  "live P verifying s =
     (let (st, k) = sk_state (po_send P) (gw_audit s) in
      (\<lparr>hr_status = lit ''ok'', hr_policy_version = policy_version (po_settings P),
        hr_identity_verification = verification_state verifying, hr_audit = sink_state_value st,
        hr_stores = lit ''available'', hr_policy = lit ''available''\<rparr>, s\<lparr>gw_audit := k\<rparr>))"

definition ready ::
  "('a, 't, 'i) ports \<Rightarrow> bool \<Rightarrow> bool \<Rightarrow> bool \<Rightarrow> ('a, 't, 'i) gateway
    \<Rightarrow> (nat \<times> health_response) \<times> ('a, 't, 'i) gateway" where
  "ready P verifying deciding reachable s =
     (let (st, k) = sk_state (po_send P) (gw_audit s);
          serving = (verifying \<and> st \<noteq> Blocked \<and> deciding)
      in ((if serving then 200 else 503,
           \<lparr>hr_status = (if serving then lit ''ready'' else lit ''not_ready''),
            hr_policy_version = policy_version (po_settings P),
            hr_identity_verification = verification_state verifying, hr_audit = sink_state_value st,
            hr_stores = available_state reachable, hr_policy = available_state deciding\<rparr>),
          s\<lparr>gw_audit := k\<rparr>))"

end
