(* ===== verification/Examples.thy ===== *)
theory Examples
  imports Service
begin

text \<open>
  A small concrete deployment, on which the properties of the service are applied: the in-memory
  stores, a transport that records what it takes, the ASCII tables, and an identity in the place
  of SHA-256. The environment answers with the built-in policy and one inspector.
\<close>

type_synonym example_transport = "memory_transport \<times> audit_event list"

definition example_inspector :: inspector where
  "example_inspector content = Inr (if content = lit ''key abcd!'' then [example_finding ''secret'' 4 8] else [])"

definition example_ports :: "(approval_store, example_transport, incident_store) ports" where
  "example_ports = \<lparr>po_settings = default_settings, po_parsers = example_parsers,
     po_schema = \<lparr>sc_schema_ok = (\<lambda>_. True), sc_loads = (\<lambda>_. None), sc_is_valid = (\<lambda>_ _. None)\<rparr>,
     po_sha256 = (\<lambda>s. s), po_float_repr = (\<lambda>_. []), po_str = (\<lambda>_. []), po_approvals = memory_repo,
     po_send = recorded mt_send, po_incidents = memory_incidents\<rparr>"

definition example_transport :: example_transport where
  "example_transport = (\<lparr>mt_maxlen = 100, mt_events = []\<rparr>, [])"

definition example_env :: call_env where
  "example_env = \<lparr>ce_now = 0, ce_wall = 0, ce_latency = 1,
     ce_policy = local_policy_engine example_parsers default_settings,
     ce_inspectors = [example_inspector], ce_sandbox = None\<rparr>"

definition example_operator :: principal where
  "example_operator = \<lparr>pr_identity = lit ''ann'', pr_tenant_id = lit ''acme'', pr_roles = {OPERATOR},
     pr_clearance = INTERNAL\<rparr>"

definition example_delete :: action_request where
  "example_delete = \<lparr>ar_request_id = 1, ar_trace_id = 2, ar_identity = lit ''ann'', ar_tenant_id = lit ''acme'',
     ar_tool = lit ''delete_record'', ar_resource = lit ''tenant:acme:crm'',
     ar_arguments = [(lit ''record_id'', PStr (lit ''r1''))], ar_side_effect = SE_DESTRUCTIVE,
     ar_approval_token = Some 7\<rparr>"

definition example_content_request :: "string \<Rightarrow> content_request" where
  "example_content_request content = \<lparr>cr_request_id = 1, cr_trace_id = 2, cr_identity = lit ''ann'',
     cr_tenant_id = lit ''acme'', cr_content = lit content, cr_trust_level = TRUSTED,
     cr_source_tenant_id = None, cr_model = None\<rparr>"

text \<open>A policy decision point that is down.\<close>

definition down_engine :: policy_engine where
  "down_engine = \<lparr>pe_content = (\<lambda>_ _ _ _ _. Inl PolicyEngineUnavailableError),
     pe_action = (\<lambda>_ _. Inl PolicyEngineUnavailableError)\<rparr>"

text \<open>The approval that was granted to it, and a store that holds it.\<close>

definition example_approval :: approval where
  "example_approval = \<lparr>ap_approval_id = 7, ap_action_digest = digest_of example_ports example_delete,
     ap_tenant_id = lit ''acme'', ap_requested_by = lit ''ann'', ap_reviewer = Some (lit ''eve''),
     ap_rationale = Some (lit ''ok''), ap_status = APPROVED, ap_issued_at = 0, ap_expires_at = 1000\<rparr>"

definition example_gateway :: "(approval_store, example_transport, incident_store) gateway" where
  "example_gateway = new_gateway example_ports
     ((new_approval_store 300)\<lparr>as_records := [(7, example_approval)]\<rparr>) example_transport (new_incident_store 10)"

lemmas example_defs = example_ports_def example_env_def example_operator_def example_gateway_def
  new_gateway_def example_transport_def new_audit_sink_def new_vault_def new_rate_limiter_def
  new_execution_budget_def new_violation_history_def new_decision_log_def default_settings_def

lemma example_fields [simp]:
  "ar_tenant_id example_delete = lit ''acme''" "ar_approval_token example_delete = Some 7"
  "ar_side_effect example_delete = SE_DESTRUCTIVE" "ce_wall example_env = 0"
  "po_settings example_ports = default_settings" "po_parsers example_ports = example_parsers"
  "po_send example_ports = recorded mt_send" "po_approvals example_ports = memory_repo"
  "ce_policy example_env = local_policy_engine example_parsers default_settings"
  "pr_tenant_id example_operator = lit ''acme''" "pr_roles example_operator = {OPERATOR}"
  "pr_identity example_operator = lit ''ann''" "ce_inspectors example_env = [example_inspector]"
  "cr_identity (example_content_request c) = lit ''ann''" "cr_tenant_id (example_content_request c) = lit ''acme''"
  "cr_content (example_content_request c) = lit c" "cr_trust_level (example_content_request c) = TRUSTED"
  "cr_source_tenant_id (example_content_request c) = None" "cr_model (example_content_request c) = None"
  "max_content_chars default_settings = 20000" "eligible_models default_settings = []"
  "local_only_models default_settings = []" "max_context_chars default_settings = 60000"
  "sensitive_entity_actions default_settings = []" "tenant_entity_actions default_settings = []"
  by (simp_all add: example_delete_def example_env_def example_ports_def example_operator_def
      example_content_request_def default_settings_def)

lemma example_delete_verdict:
  "action_verdict example_parsers example_delete {OPERATOR} limits = (REQUIRE_APPROVAL, lit ''risky_action_requires_approval'')"
  by (simp add: action_verdict_def example_delete_def TOOLS_def OPERATORS_def argument_violation_def
      validate_arguments_def only_fields_def str_field_def sized_def record_id_ok_def APPROVAL_EFFECTS_def)
    (simp add: lit_def name_chars_def ascii_letter_def ascii_digit_def one_of_def)

lemma example_accepting: "accepting example_ports example_gateway = (True, example_gateway)"
  by (simp add: accepting_def sk_accepting_def sk_flush_def example_defs)

lemma example_quota:
  "\<exists>s. within_quota example_env example_gateway example_operator = Inr (True, s)"
  by (simp add: within_quota_def rl_allow_def rl_current_def od_move_to_end_def od_evict_drop
      DEFAULT_MAX_KEYS_def example_defs)

lemma example_delete_allowed:
  "\<exists>x. inspect_action example_ports example_env example_delete example_operator example_gateway = Inr x
    \<and> sd_verdict (fst x) = ALLOW"
proof -
  obtain s where q: "within_quota example_env example_gateway example_operator = Inr (True, s)"
    using example_quota by blast
  have budget: "\<exists>b. eb_consume (gw_budget example_gateway) k = Inr (True, b)" for k
    by (simp add: eb_consume_def eb_spent_of_def od_move_to_end_def DEFAULT_MAX_KEYS_def example_defs)
  have "gw_budget s = gw_budget example_gateway" and kept: "gw_approvals s = gw_approvals example_gateway"
    using q by (auto simp: within_quota_def Let_def split: sum.splits prod.splits if_splits)
  with budget obtain b where b: "eb_consume (gw_budget s) (pr_tenant_id example_operator, ar_trace_id example_delete)
      = Inr (True, b)" by metis
  have policy: "action_policy example_ports example_env example_delete example_operator
      = Inr (REQUIRE_APPROVAL, lit ''risky_action_requires_approval'')"
    by (simp add: action_policy_def example_env_def local_policy_engine_def local_action_verdict_def
        example_delete_verdict example_operator_def)
  have consumed: "\<exists>a. repo_consume (po_approvals example_ports) (gw_approvals example_gateway) 0 7
      (digest_of example_ports example_delete) (lit ''acme'') = (Inr True, a)"
    by (simp add: as_consume_def memory_repo_def expire_def example_approval_def approval_open_def example_ports_def
        example_gateway_def new_gateway_def)
  have "\<not> asserts_another_identity (ar_identity example_delete) (ar_tenant_id example_delete) example_operator"
    by (simp add: asserts_another_identity_def example_delete_def example_operator_def)
  then show ?thesis
    using q b consumed
    by (auto simp: inspect_action_def example_accepting decide_by_policy_def policy settle_approval_def kept
        decide_action_def case_prod_unfold Let_def)
qed

lemma example_judge:
  "judge example_ports example_env INPUT TRUSTED None (lit ''acme'') (lit ''hello'') = (ALLOW, lit ''policy_allow'', [])"
  by (simp add: judge_def example_env_def example_inspector_def local_policy_engine_def local_content_verdict_def
      content_verdict_def)

lemma example_content_allowed:
  "\<exists>x. inspect_content example_ports example_env (ContentCall (example_content_request ''hello'')) INPUT
      example_operator example_gateway = Inr x \<and> sd_verdict (fst x) = ALLOW"
proof -
  obtain s where q: "within_quota example_env example_gateway example_operator = Inr (True, s)"
    using example_quota by blast
  have "gw_violations s = gw_violations example_gateway"
    using q by (auto simp: within_quota_def Let_def split: sum.splits prod.splits if_splits)
  then have "\<not> locked example_env s example_operator"
    by (simp add: locked_def vh_locked_def example_defs)
  then show ?thesis
    using q example_judge
    by (simp add: inspect_content_def example_accepting asserts_another_identity_def model_eligible_def conclude_content_def
        decide_content_def record_violation_def VIOLATION_REASONS_def case_prod_unfold Let_def)
qed

subsection \<open>Running code\<close>

definition example_code :: action_request where
  "example_code = \<lparr>ar_request_id = 1, ar_trace_id = 2, ar_identity = lit ''ann'', ar_tenant_id = lit ''acme'',
     ar_tool = lit ''run_code'', ar_resource = lit ''tenant:acme:code'',
     ar_arguments = [(lit ''language'', PStr (lit ''python'')), (lit ''code'', PStr (lit ''1''))],
     ar_side_effect = SE_NONE, ar_approval_token = None\<rparr>"

definition example_sandbox :: sandbox where
  "example_sandbox = \<lparr>sb_available = True, sb_run = (\<lambda>code net. Inr
     \<lparr>sr_exit_code = Some 0, sr_stdout = [], sr_stderr = [], sr_timed_out = False, sr_output_truncated = False,
      sr_network = net, sr_duration_ms = 1\<rparr>)\<rparr>"

definition example_code_env :: call_env where
  "example_code_env = example_env\<lparr>ce_sandbox := Some example_sandbox\<rparr>"

lemma example_code_fields [simp]:
  "ar_tool example_code = CODE_TOOL" "ar_identity example_code = lit ''ann''" "ar_tenant_id example_code = lit ''acme''"
  "map_of (ar_arguments example_code) (lit ''code'') = Some (PStr (lit ''1''))"
  "map_of (ar_arguments example_code) (lit ''network'') = None"
  "ce_sandbox example_code_env = Some example_sandbox" "sb_available example_sandbox"
  "ce_policy example_code_env = local_policy_engine example_parsers default_settings"
  by (simp_all add: example_code_def CODE_TOOL_def example_code_env_def example_sandbox_def)

lemma example_code_verdict:
  "action_verdict example_parsers example_code {OPERATOR} limits = (ALLOW, lit ''action_policy_allow'')"
  by (simp add: action_verdict_def example_code_def TOOLS_def OPERATORS_def argument_violation_def both_def bool_field_def
      validate_arguments_def only_fields_def str_field_def sized_def APPROVAL_EFFECTS_def)
    (simp add: lit_def)

lemma example_code_allowed:
  "\<exists>x. inspect_action example_ports example_code_env example_code example_operator example_gateway = Inr x
    \<and> sd_verdict (fst x) = ALLOW"
proof -
  have "ce_now example_code_env = ce_now example_env" by (simp add: example_code_env_def)
  then have "within_quota example_code_env example_gateway example_operator
      = within_quota example_env example_gateway example_operator" by (simp only: within_quota_def)
  then obtain s where q: "within_quota example_code_env example_gateway example_operator = Inr (True, s)"
    using example_quota by metis
  have "gw_budget s = gw_budget example_gateway"
    using q by (auto simp: within_quota_def Let_def split: sum.splits prod.splits if_splits)
  then have "\<exists>b. eb_consume (gw_budget s) k = Inr (True, b)" for k
    by (simp add: eb_consume_def eb_spent_of_def od_move_to_end_def DEFAULT_MAX_KEYS_def example_defs)
  then obtain b where b: "eb_consume (gw_budget s) (lit ''acme'', ar_trace_id example_code) = Inr (True, b)" by blast
  have "action_policy example_ports example_code_env example_code example_operator = Inr (ALLOW, lit ''action_policy_allow'')"
    by (simp add: action_policy_def local_policy_engine_def local_action_verdict_def example_code_verdict)
  moreover have "\<not> asserts_another_identity (lit ''ann'') (lit ''acme'') example_operator"
    by (simp add: asserts_another_identity_def)
  ultimately show ?thesis
    using q b
    by (auto simp: inspect_action_def example_accepting decide_by_policy_def decide_action_def case_prod_unfold Let_def)
qed

lemma example_code_runs:
  "\<exists>resp s. execute example_ports example_code_env example_code example_operator example_gateway
    = Inr ((resp, Some (lit ''1'', False)), s)"
  using example_code_allowed
  by (auto simp: execute_def py_str_def example_sandbox_def Let_def)

end
