(* ===== verification/Upkeep.thy ===== *)
theory Upkeep
  imports Examples
begin

text \<open>
  What every call of the service keeps: which fields each part leaves alone, and \<open>gateway_ok\<close>,
  the well-formedness of the limits, the vault and the decision log, under which no call raises.
\<close>

section \<open>What each part leaves alone\<close>

lemma publish_frame [frame_simps, simp]:
  "gw_approvals (publish P E s d) = gw_approvals s" "gw_vault (publish P E s d) = gw_vault s"
  "gw_identity_quota (publish P E s d) = gw_identity_quota s"
  "gw_tenant_quota (publish P E s d) = gw_tenant_quota s"
  "gw_budget (publish P E s d) = gw_budget s" "gw_violations (publish P E s d) = gw_violations s"
  "gw_decisions (publish P E s d) = dl_record (gw_decisions s) d"
  "gw_audit (publish P E s d) = sk_publish (po_send P) (gw_next s) (ce_wall E) (gw_audit s) d"
  "gw_next s \<le> gw_next (publish P E s d)"
  by (simp_all add: publish_def Let_def)

lemma fresh_id_frame [frame_simps, simp]:
  "gw_approvals (snd (fresh_id s)) = gw_approvals s" "gw_vault (snd (fresh_id s)) = gw_vault s"
  "gw_identity_quota (snd (fresh_id s)) = gw_identity_quota s"
  "gw_tenant_quota (snd (fresh_id s)) = gw_tenant_quota s"
  "gw_budget (snd (fresh_id s)) = gw_budget s" "gw_violations (snd (fresh_id s)) = gw_violations s"
  "gw_decisions (snd (fresh_id s)) = gw_decisions s" "gw_audit (snd (fresh_id s)) = gw_audit s"
  "gw_incidents (snd (fresh_id s)) = gw_incidents s" "fst (fresh_id s) = gw_next s"
  "gw_next (snd (fresh_id s)) = gw_next s + 1"
  by (simp_all add: fresh_id_def)

lemma decide_action_result [frame_simps, simp]:
  "sd_verdict (fst (decide_action P E r p s v reason digest a)) = v"
  "sd_reason_code (fst (decide_action P E r p s v reason digest a)) = reason"
  "sd_action_digest (fst (decide_action P E r p s v reason digest a)) = digest"
  "sd_approval_id (fst (decide_action P E r p s v reason digest a)) = a"
  "sd_tenant_id (fst (decide_action P E r p s v reason digest a)) = pr_tenant_id p"
  "gw_approvals (snd (decide_action P E r p s v reason digest a)) = gw_approvals s"
  by (simp_all add: decide_action_def case_prod_unfold Let_def)

lemma accepting_frame [frame_simps, simp]:
  "gw_approvals (snd (accepting P s)) = gw_approvals s"
  "gw_vault (snd (accepting P s)) = gw_vault s"
  "gw_identity_quota (snd (accepting P s)) = gw_identity_quota s"
  "gw_tenant_quota (snd (accepting P s)) = gw_tenant_quota s"
  "gw_budget (snd (accepting P s)) = gw_budget s" "gw_violations (snd (accepting P s)) = gw_violations s"
  "gw_decisions (snd (accepting P s)) = gw_decisions s"
  "gw_audit (snd (accepting P s)) = sk_flush (po_send P) (gw_audit s)"
  "gw_next (snd (accepting P s)) = gw_next s"
  by (simp_all add: accepting_def case_prod_unfold Let_def)

lemma accepting_answer: "fst (accepting P s) = fst (sk_accepting (po_send P) (gw_audit s))"
  by (simp add: accepting_def case_prod_unfold Let_def)

lemma within_quota_frame:
  assumes "within_quota E s p = Inr (ok, s')"
  shows "gw_approvals s' = gw_approvals s" "gw_vault s' = gw_vault s" "gw_budget s' = gw_budget s"
    "gw_violations s' = gw_violations s" "gw_decisions s' = gw_decisions s" "gw_audit s' = gw_audit s"
    "gw_next s' = gw_next s"
  using assms by (auto simp: within_quota_def Let_def split: sum.splits prod.splits if_splits)

section \<open>Well-formed gateways\<close>

text \<open>
  The decision log lists the newest last and eviction takes the oldest, so a log of at least one
  place and no decision under an identifier still to be drawn keeps the next decision.
\<close>

definition log_fresh :: "('a, 't, 'i) gateway \<Rightarrow> bool" where
  "log_fresh s \<longleftrightarrow> 1 \<le> dl_max (gw_decisions s) \<and> od_wf (dl_decisions (gw_decisions s))
     \<and> (\<forall>i. gw_next s \<le> i \<longrightarrow> od_get (dl_decisions (gw_decisions s)) i = None)"

definition gateway_ok :: "('a, 't, 'i) gateway \<Rightarrow> bool" where
  "gateway_ok s \<longleftrightarrow> rl_wf (gw_identity_quota s) \<and> rl_wf (gw_tenant_quota s) \<and> eb_wf (gw_budget s)
     \<and> vh_wf (gw_violations s) \<and> va_wf (gw_vault s) \<and> log_fresh s"

definition logged :: "('a, 't, 'i) gateway \<Rightarrow> security_decision \<Rightarrow> bool" where
  "logged s d \<longleftrightarrow> dl_get (gw_decisions s) (sd_decision_id d) (sd_tenant_id d) = Some d"

lemma new_gateway_ok:
  assumes "settings_bounds (po_settings P)"
  shows "gateway_ok (new_gateway P a t i)"
  using assms
  by (simp add: gateway_ok_def new_gateway_def Let_def settings_bounds_def new_rate_limiter_wf
      new_execution_budget_wf new_violation_history_wf new_vault_wf log_fresh_def new_decision_log_def)

lemma example_gateway_ok: "gateway_ok example_gateway"
  using default_settings_valid validated_bounds
  by (auto simp: example_gateway_def intro!: new_gateway_ok)

lemma dl_record_newest:
  assumes "1 \<le> dl_max l" and "od_get (dl_decisions l) (sd_decision_id d) = None"
  shows "dl_get (dl_record l d) (sd_decision_id d) (sd_tenant_id d) = Some d"
  using od_get_evict_last [OF assms(2,1), of d] by (simp add: dl_get_def dl_record_def)

lemma dl_record_max [simp]: "dl_max (dl_record l d) = dl_max l"
  by (simp add: dl_record_def)

lemma publish_ok:
  assumes "gateway_ok s" and "sd_decision_id d = gw_next s"
  shows "gateway_ok (publish P E (snd (fresh_id s)) d)" and "logged (publish P E (snd (fresh_id s)) d) d"
proof -
  let ?l = "gw_decisions s"
  have l: "1 \<le> dl_max ?l" "od_wf (dl_decisions ?l)" "\<And>i. gw_next s \<le> i \<Longrightarrow> od_get (dl_decisions ?l) i = None"
    using assms(1) by (simp_all add: gateway_ok_def log_fresh_def)
  have wf: "od_wf (dl_decisions (dl_record ?l d))" using l(2) by (simp add: dl_record_def)
  have "od_get (dl_decisions (dl_record ?l d)) i = None" if "gw_next s + 1 \<le> i" for i
    using that l od_get_evict [of "od_set (sd_decision_id d) d (dl_decisions ?l)" "dl_max ?l" i] assms(2)
    by (auto simp: dl_record_def od_simps)
  moreover have "gw_next s + 1 \<le> gw_next (publish P E (snd (fresh_id s)) d)"
    using publish_frame(9) [of "snd (fresh_id s)" P E d] by simp
  ultimately show "gateway_ok (publish P E (snd (fresh_id s)) d)"
    using assms(1) wf l(1) by (simp add: gateway_ok_def log_fresh_def)
  show "logged (publish P E (snd (fresh_id s)) d) d"
    using dl_record_newest [of ?l d] l assms(2) by (simp add: logged_def)
qed

lemma gateway_ok_update [simp]:
  "gateway_ok s \<Longrightarrow> gateway_ok (s\<lparr>gw_audit := k\<rparr>)"
  "gateway_ok s \<Longrightarrow> gateway_ok (s\<lparr>gw_approvals := a\<rparr>)"
  "gateway_ok s \<Longrightarrow> rl_wf l \<Longrightarrow> gateway_ok (s\<lparr>gw_identity_quota := l\<rparr>)"
  "gateway_ok s \<Longrightarrow> rl_wf l' \<Longrightarrow> gateway_ok (s\<lparr>gw_tenant_quota := l'\<rparr>)"
  "gateway_ok s \<Longrightarrow> eb_wf b \<Longrightarrow> gateway_ok (s\<lparr>gw_budget := b\<rparr>)"
  "gateway_ok s \<Longrightarrow> vh_wf h \<Longrightarrow> gateway_ok (s\<lparr>gw_violations := h\<rparr>)"
  "gateway_ok s \<Longrightarrow> va_wf v \<Longrightarrow> gateway_ok (s\<lparr>gw_vault := v\<rparr>)"
  "gateway_ok s \<Longrightarrow> gateway_ok (s\<lparr>gw_next := gw_next s + 1\<rparr>)"
  by (simp_all add: gateway_ok_def log_fresh_def)

lemma fresh_id_ok [simp]: "gateway_ok s \<Longrightarrow> gateway_ok (snd (fresh_id s))"
  unfolding fresh_id_def snd_conv by (rule gateway_ok_update)

lemma accepting_ok [simp]: "gateway_ok s \<Longrightarrow> gateway_ok (snd (accepting P s))"
  by (simp add: accepting_def case_prod_unfold)

lemma within_quota_ok: "gateway_ok s \<Longrightarrow> returns (within_quota E s p) (\<lambda>(ok, s'). gateway_ok s')"
  using rl_allow_total [of "gw_identity_quota s" "ce_now E" "(pr_tenant_id p, pr_identity p)"]
    rl_allow_total [of "gw_tenant_quota s" "ce_now E" "pr_tenant_id p"]
  by (auto simp: gateway_ok_def within_quota_def returns_def Let_def log_fresh_def)

lemma record_violation_ok: "gateway_ok s \<Longrightarrow> returns (record_violation E s p reason) gateway_ok"
  using vh_record_total [of "gw_violations s" "ce_now E" "(pr_tenant_id p, pr_identity p)"]
  by (auto simp: gateway_ok_def record_violation_def returns_def log_fresh_def)

lemma transformed_ok:
  assumes "gateway_ok s"
  shows "returns (transformed P E s content fs tenant tr) (\<lambda>(out, s'). gateway_ok s')"
proof -
  have "va_wf (gw_vault s)" using assms by (simp add: gateway_ok_def)
  from replace_spans_total [OF va_tokenize_total this] show ?thesis
    unfolding transformed_def transform_content_def
    by (rule returns_bind) (use assms in auto)
qed

section \<open>No call raises, and its decision is in the log\<close>

text \<open>What a call that decides leaves: a well-formed gateway whose log has the decision.\<close>

abbreviation recorded_ok :: "security_decision \<times> ('a, 't, 'i) gateway \<Rightarrow> bool" where
  "recorded_ok x \<equiv> gateway_ok (snd x) \<and> logged (snd x) (fst x)"

lemma decide_action_ok:
  "gateway_ok s \<Longrightarrow> recorded_ok (decide_action P E r p s v reason digest a)"
  by (simp add: decide_action_def case_prod_unfold Let_def publish_ok)

lemma settle_approval_ok:
  "gateway_ok s \<Longrightarrow> recorded_ok (settle_approval P E r p s digest v reason)"
  by (simp add: settle_approval_def case_prod_unfold Let_def decide_action_ok split: option.split sum.split bool.split)

lemma decide_by_policy_ok:
  "gateway_ok s \<Longrightarrow> recorded_ok (decide_by_policy P E r p s digest)"
  by (simp add: decide_by_policy_def case_prod_unfold decide_action_ok settle_approval_ok split: sum.split)

lemma eb_consume_ok: "gateway_ok s \<Longrightarrow> returns (eb_consume (gw_budget s) k) (\<lambda>(granted, b). eb_wf b)"
  using eb_consume_step [of "gw_budget s" k] by (auto simp: gateway_ok_def)

lemma inspect_action_total:
  assumes "gateway_ok s"
  shows "returns (inspect_action P E r p s) recorded_ok"
proof -
  have acc: "gateway_ok (snd (accepting P s))" using assms by simp
  show ?thesis
    unfolding inspect_action_def Let_def case_prod_unfold
    using decide_action_ok [OF assms] decide_action_ok [OF acc]
    by (auto intro!: returns_bind [OF within_quota_ok [OF acc]] returns_bind [OF eb_consume_ok]
        simp: decide_action_ok decide_by_policy_ok)
qed

lemma decide_content_ok:
  assumes "gateway_ok s"
  shows "returns (decide_content P E r point p s v reason evidence out route) recorded_ok"
  unfolding decide_content_def
  by (rule returns_bind [OF record_violation_ok [OF assms]]) (simp add: case_prod_unfold Let_def publish_ok)

lemma conclude_content_ok:
  assumes "gateway_ok s"
  shows "returns (conclude_content P E call point p s v reason fs) recorded_ok"
proof -
  let ?r = "base_request call"
  have out: "returns (if v = TRANSFORM
      then (case transformed P E s (cr_content ?r) fs (pr_tenant_id p) (cr_trace_id ?r) of
              Inl e \<Rightarrow> Inl e | Inr (out, s) \<Rightarrow> Inr (Some out, s))
      else Inr (None, s)) (\<lambda>(out, s'). gateway_ok s')"
    using returns_bind [OF transformed_ok [OF assms], of "\<lambda>(out, s'). Inr (Some out, s')"] assms by auto
  show ?thesis
  proof (cases "v = TRANSFORM \<and> cr_model ?r \<in> Some ` set (local_only_models (po_settings P))")
    case True
    then show ?thesis using decide_content_ok [OF assms] by (simp add: conclude_content_def Let_def)
  next
    case False
    show ?thesis
      unfolding conclude_content_def Let_def if_not_P [OF False]
      by (rule returns_bind [OF out]) (auto simp: decide_content_ok split: content_call.split prod.split)
  qed
qed

lemma inspect_content_total:
  assumes "gateway_ok s"
  shows "returns (inspect_content P E call point p s) recorded_ok"
proof -
  have acc: "gateway_ok (snd (accepting P s))" using assms by simp
  show ?thesis
    unfolding inspect_content_def Let_def case_prod_unfold
    using decide_content_ok [OF assms] decide_content_ok [OF acc] 
    by (auto intro!: returns_bind [OF within_quota_ok [OF acc]] decide_content_ok conclude_content_ok)
qed

subsection \<open>Batches, code and pseudonyms\<close>

lemma judge_document_ok:
  assumes "gateway_ok s"
  shows "returns (judge_document P E d p remaining tr s) (\<lambda>x. gateway_ok (snd x))"
proof -
  let ?j = "judge P E CONTEXT (cd_trust_level d) (Some (cd_source_tenant_id d)) (pr_tenant_id p) (cd_content d)"
  show ?thesis
    unfolding judge_document_def Let_def case_prod_unfold
    using assms by (auto intro!: returns_bind [OF transformed_ok])
qed

lemma batch_step_ok:
  assumes "gateway_ok s"
  shows "returns (batch_step P E r p remaining d s) (\<lambda>x. gateway_ok (snd x))"
  unfolding batch_step_def Let_def case_prod_unfold
  by (rule returns_bind [OF judge_document_ok [OF assms]], rule returns_bind [OF record_violation_ok])
    (simp_all add: publish_ok context_decision_def)

lemma batch_loop_ok:
  "gateway_ok s \<Longrightarrow> returns (batch_loop P E r p remaining ds s)
     (\<lambda>(results, s'). gateway_ok s' \<and> length results = length ds)"
proof (induction ds arbitrary: s remaining)
  case (Cons d ds)
  show ?case
    unfolding batch_loop.simps
  proof (rule returns_bind [OF batch_step_ok [OF Cons.prems]], clarify)
    fix result s1 assume "gateway_ok (snd (result :: document_decision, s1 :: ('a, 'b, 'c) gateway))"
    then have s1: "gateway_ok s1" by simp
    show "returns (case batch_loop P E r p
          (if dd_content result \<noteq> None then remaining - int (length (cd_content d)) else remaining) ds s1 of
        Inl e \<Rightarrow> Inl e | Inr (results, s) \<Rightarrow> Inr (result # results, s))
        (\<lambda>(results, s'). gateway_ok s' \<and> length results = length (d # ds))"
      by (rule returns_bind [OF Cons.IH [OF s1]]) auto
  qed
qed simp

lemma conclude_batch_ok:
  assumes "gateway_ok s"
  shows "gateway_ok (snd (conclude_batch P E r p s v reason results))"
  using publish_ok(1) [OF assms] by (simp add: conclude_batch_def case_prod_unfold Let_def context_decision_def)

lemma inspect_context_batch_total:
  assumes "gateway_ok s"
  shows "returns (inspect_context_batch P E r p s) (\<lambda>x. gateway_ok (snd x))"
proof -
  have acc: "gateway_ok (snd (accepting P s))" using assms by simp
  show ?thesis
    unfolding inspect_context_batch_def Let_def case_prod_unfold
    using conclude_batch_ok [OF assms] conclude_batch_ok [OF acc]
    by (auto intro!: returns_bind [OF within_quota_ok [OF acc]] returns_bind [OF batch_loop_ok] simp: conclude_batch_ok)
qed

lemma publish_operation_ok: "gateway_ok s \<Longrightarrow> gateway_ok (publish_operation P E s reason tenant tr n)"
  by (simp add: publish_operation_def gateway_ok_def log_fresh_def)

lemma publish_rejection_ok: "gateway_ok s \<Longrightarrow> gateway_ok (publish_rejection P E s reason path)"
  by (simp add: publish_rejection_def gateway_ok_def log_fresh_def)

lemma restore_pseudonyms_ok:
  assumes "gateway_ok s"
  shows "gateway_ok (snd (restore_pseudonyms P E r p s))"
proof -
  have "va_wf (snd (va_restore u now scope (gw_vault s) content))" for u now scope content
    using assms by (auto simp: gateway_ok_def intro: va_restore_wf)
  then have "gateway_ok (s\<lparr>gw_vault := snd (va_restore u now scope (gw_vault s) content)\<rparr>)" for u now scope content
    using assms by simp
  then show ?thesis
    using assms unfolding restore_pseudonyms_def Let_def case_prod_unfold
    by (simp add: publish_rejection_ok publish_operation_ok)
qed

end
