(* ===== verification/Enforcement.thy ===== *)
theory Enforcement
  imports Upkeep
begin

text \<open>
  What the service guarantees: which actions it allows, that it fails closed when a dependency is
  down, that decisions are on record, and what the sandbox is given. The contract of a policy
  decision point is the locale \<open>decision_point\<close>, interpreted by the local engine.
\<close>

section \<open>Actions\<close>

text \<open>
  The ways an inspection of an action can end. Past the guards the state is the one before with
  only limits and the audit buffer touched.
\<close>

lemma inspect_action_cases:
  assumes "inspect_action P E r p s = Inr (d, s')"
  obtains (denied) s1 reason digest where
      "(d, s') = decide_action P E r p s1 DENY reason digest None" "gw_approvals s1 = gw_approvals s"
      "gw_next s1 = gw_next s"
  | (decided) s1 v reason where
      "\<not> asserts_another_identity (ar_identity r) (ar_tenant_id r) p"
      "fst (accepting P s)" "action_policy P E r p = Inr (v, reason)" "v \<noteq> REQUIRE_APPROVAL"
      "(d, s') = decide_action P E r p s1 v reason (Some (digest_of P r)) None"
      "gw_approvals s1 = gw_approvals s" "gw_next s1 = gw_next s"
      "gw_audit s1 = gw_audit (snd (accepting P s))"
  | (settled) s1 reason where
      "\<not> asserts_another_identity (ar_identity r) (ar_tenant_id r) p"
      "fst (accepting P s)" "action_policy P E r p = Inr (REQUIRE_APPROVAL, reason)"
      "(d, s') = settle_approval P E r p s1 (digest_of P r) REQUIRE_APPROVAL reason"
      "gw_approvals s1 = gw_approvals s" "gw_next s1 = gw_next s"
      "gw_audit s1 = gw_audit (snd (accepting P s))"
proof (cases "asserts_another_identity (ar_identity r) (ar_tenant_id r) p")
  case True
  then show thesis
    using assms by (intro denied [of s "lit ''identity_assertion_mismatch''" None]) (simp_all add: inspect_action_def)
next
  case same: False
  show thesis
  proof (cases "fst (accepting P s)")
    case False
    then show thesis
      using assms same
      by (intro denied [of "snd (accepting P s)" "lit ''audit_durability_unavailable''" None]) (simp_all add: inspect_action_def case_prod_unfold Let_def)
  next
    case durable: True
    obtain ok s1 where q: "within_quota E (snd (accepting P s)) p = Inr (ok, s1)"
      using assms same durable
      by (auto simp: inspect_action_def case_prod_unfold Let_def split: sum.splits)
    have s1: "gw_approvals s1 = gw_approvals s" "gw_next s1 = gw_next s"
      "gw_audit s1 = gw_audit (snd (accepting P s))"
      using within_quota_frame [OF q] by simp_all
    show thesis
    proof (cases ok)
      case False
      then show thesis
        using assms same durable q s1
        by (intro denied [of s1 "lit ''quota_exceeded''" None]) (simp_all add: inspect_action_def case_prod_unfold Let_def)
    next
      case True
      obtain granted b where b: "eb_consume (gw_budget s1) (pr_tenant_id p, ar_trace_id r) = Inr (granted, b)"
        using assms same durable q True
        by (auto simp: inspect_action_def case_prod_unfold Let_def split: sum.splits)
      let ?s1 = "s1\<lparr>gw_budget := b\<rparr>"
      have run: "(d, s') = (if \<not> granted
          then decide_action P E r p ?s1 DENY (lit ''execution_budget_exceeded'') (Some (digest_of P r)) None
          else decide_by_policy P E r p ?s1 (digest_of P r))"
        using assms same durable q True b
        by (cases granted) (simp_all add: inspect_action_def case_prod_unfold Let_def)
      show thesis
      proof (cases granted)
        case False
        then show thesis using run s1
          by (intro denied [of ?s1 "lit ''execution_budget_exceeded''" "Some (digest_of P r)"]) simp_all
      next
        case True
        then have run: "(d, s') = decide_by_policy P E r p ?s1 (digest_of P r)" using run by simp
        show thesis
        proof (cases "action_policy P E r p")
          case (Inl reason)
          then show thesis using run s1
            by (intro denied [of ?s1 reason "Some (digest_of P r)"]) (simp_all add: decide_by_policy_def)
        next
          case (Inr vr)
          obtain v reason where vr: "vr = (v, reason)" by fastforce
          show thesis
          proof (cases "v = REQUIRE_APPROVAL")
            case True
            then show thesis
              using run s1 Inr vr same durable
              by (intro settled [of reason ?s1]) (simp_all add: decide_by_policy_def)
          next
            case False
            then show thesis
              using run s1 Inr vr same durable
              by (intro decided [of v reason ?s1]) (simp_all add: decide_by_policy_def)
          qed
        qed
      qed
    qed
  qed
qed

text \<open>How settling an approval can end in a permission: it consumed the token presented.\<close>

lemma settle_approval_allow:
  assumes "(d, s') = settle_approval P E r p s digest REQUIRE_APPROVAL reason" and "sd_verdict d = ALLOW"
  shows "\<exists>token. ar_approval_token r = Some token \<and> sd_approval_id d = Some token
    \<and> repo_consume (po_approvals P) (gw_approvals s) (ce_wall E) token digest (ar_tenant_id r)
        = (Inr True, gw_approvals s')"
proof (cases "ar_approval_token r")
  case None
  then have "sd_verdict d \<noteq> ALLOW"
    using assms(1) by (auto simp: settle_approval_def case_prod_unfold Let_def split: sum.splits dest: arg_cong [of _ _ fst])
  then show ?thesis using assms(2) by simp
next
  case (Some token)
  obtain answer a where c: "repo_consume (po_approvals P) (gw_approvals s) (ce_wall E) token digest (ar_tenant_id r)
      = (answer, a)" by fastforce
  have "answer = Inr True"
    using assms Some c
    by (cases answer) (auto simp: settle_approval_def Let_def split: bool.splits dest!: arg_cong [of _ _ fst])
  then have "(d, s') = decide_action P E r p (s\<lparr>gw_approvals := a\<rparr>) ALLOW (lit ''exact_action_approval_consumed'')
      (Some digest) (Some token)"
    using assms(1) Some c by (simp add: settle_approval_def)
  from arg_cong [OF this, of fst] arg_cong [OF this, of snd] show ?thesis
    using Some c \<open>answer = Inr True\<close> by simp
qed

lemma decided_verdict:
  assumes "(d, s') = decide_action P E r p s1 v reason digest a"
  shows "sd_verdict d = v" "sd_reason_code d = reason" "sd_action_digest d = digest" "gw_approvals s' = gw_approvals s1"
    "sd_tenant_id d = pr_tenant_id p"
  using decide_action_result [of P E r p s1 v reason digest a] by (simp_all flip: assms)

context decision_point
begin

lemma allowed_by_policy:
  assumes "ce_policy E = engine" and "action_policy P E r p = Inr (ALLOW, reason)"
  shows "ar_side_effect r \<in> {SE_NONE, SE_READ}"
  using assms risky_not_allowed
  by (auto simp: action_policy_def READ_ONLY_EFFECTS_def Let_def case_prod_unfold split: sum.splits if_splits)

lemma allowed_action:
  assumes "ce_policy E = engine" and "inspect_action P E r p s = Inr (d, s')" and "sd_verdict d = ALLOW"
    and risky: "ar_side_effect r \<notin> {SE_NONE, SE_READ}"
  shows "\<exists>token. ar_approval_token r = Some token \<and> sd_approval_id d = Some token
    \<and> repo_consume (po_approvals P) (gw_approvals s) (ce_wall E) token (digest_of P r) (pr_tenant_id p)
        = (Inr True, gw_approvals s')"
  using assms(2)
proof (cases rule: inspect_action_cases)
  case (denied s1 reason digest)
  then show ?thesis using decided_verdict(1) [OF denied(1)] assms(3) by simp
next
  case (decided s1 v reason)
  then have "action_policy P E r p = Inr (ALLOW, reason)"
    using decided_verdict(1) [OF decided(5)] assms(3) by simp
  then show ?thesis using allowed_by_policy [OF assms(1)] risky by blast
next
  case (settled s1 reason)
  have "ar_tenant_id r = pr_tenant_id p" using settled(1) by (simp add: asserts_another_identity_def)
  then show ?thesis using settle_approval_allow [OF settled(4) assms(3)] settled(5) by simp
qed

end

text \<open>
  C1: Under the built-in policy an action with a side effect is allowed in one way only: the
  request carries an approval token, and consuming it for this request's digest and the caller's
  own tenant succeeded in the approval store, whose state is then that of the gateway. This holds
  whatever the environment, the settings, the state and the store.
\<close>

theorem risky_action_needs_exact_approval:
  assumes "ce_policy E = local_policy_engine (po_parsers P) (po_settings P)"
    and "inspect_action P E r p s = Inr (d, s')" and "sd_verdict d = ALLOW"
    and "ar_side_effect r \<in> APPROVAL_EFFECTS"
  shows "\<exists>token. ar_approval_token r = Some token \<and> sd_approval_id d = Some token
    \<and> repo_consume (po_approvals P) (gw_approvals s) (ce_wall E) token (digest_of P r) (pr_tenant_id p)
        = (Inr True, gw_approvals s')"
  using local.allowed_action [OF assms(1-3)] assms(4) by (auto simp: APPROVAL_EFFECTS_def)

theorem risky_action_needs_exact_approval_witness:
  "\<exists>token a. ar_approval_token example_delete = Some token
    \<and> repo_consume (po_approvals example_ports) (gw_approvals example_gateway) (ce_wall example_env) token
        (digest_of example_ports example_delete) (pr_tenant_id example_operator) = (Inr True, a)"
proof -
  obtain d s' where run: "inspect_action example_ports example_env example_delete example_operator example_gateway
      = Inr (d, s')" "sd_verdict d = ALLOW"
    using example_delete_allowed by auto
  have "ce_policy example_env = local_policy_engine (po_parsers example_ports) (po_settings example_ports)"
    "ar_side_effect example_delete \<in> APPROVAL_EFFECTS" by (simp_all add: APPROVAL_EFFECTS_def)
  from risky_action_needs_exact_approval [OF this(1) run this(2)] show ?thesis by blast
qed

text \<open>
  C3: Without a policy decision point nothing with a side effect happens, and nothing at all
  outside the read-only mode: while it cannot answer, an inspection of an action never allows one
  with a side effect nor asks for an approval, and without the read-only mode every verdict is a
  denial; in that mode what is allowed is what the built-in policy allows, and says so.
\<close>

theorem action_fails_closed:
  assumes "pe_action (ce_policy E) r (pr_roles p) = Inl PolicyEngineUnavailableError"
    and "inspect_action P E r p s = Inr (d, s')"
  shows "sd_verdict d = DENY
    \<or> sd_verdict d = ALLOW \<and> sd_reason_code d = lit ''restricted_read_only_mode''
        \<and> restricted_read_only_mode (po_settings P) \<and> ar_side_effect r \<in> {SE_NONE, SE_READ}
        \<and> fst (local_action_verdict (po_parsers P) (po_settings P) r (pr_roles p)) = ALLOW"
  using assms(2)
proof (cases rule: inspect_action_cases)
  case (denied s1 reason digest)
  then show ?thesis using decided_verdict(1) [OF denied(1)] by simp
next
  case (decided s1 v reason)
  then show ?thesis
    using decided_verdict(1,2) [OF decided(5)] assms(1)
    by (auto simp: action_policy_def READ_ONLY_EFFECTS_def Let_def case_prod_unfold split: if_splits)
next
  case (settled s1 reason)
  then show ?thesis
    using assms(1) by (auto simp: action_policy_def Let_def case_prod_unfold split: if_splits)
qed

theorem action_fails_closed_witness:
  "\<exists>d s'. inspect_action example_ports (example_env\<lparr>ce_policy := down_engine\<rparr>) example_delete example_operator
      example_gateway = Inr (d, s') \<and> sd_verdict d = DENY"
proof -
  let ?E = "example_env\<lparr>ce_policy := down_engine\<rparr>"
  obtain x where run: "inspect_action example_ports ?E example_delete example_operator example_gateway = Inr x"
    using inspect_action_total [OF example_gateway_ok] unfolding returns_def by blast
  have "pe_action (ce_policy ?E) example_delete (pr_roles example_operator) = Inl PolicyEngineUnavailableError"
    by (simp add: down_engine_def)
  from action_fails_closed [OF this, of example_ports example_gateway "fst x" "snd x"] run
  show ?thesis by (cases x) (auto simp: default_settings_def)
qed

section \<open>What is on record\<close>

text \<open>
  The trail of a sink over a recorded transport. A handler's state carries such a sink, so what
  it publishes can be read off the state.
\<close>

abbreviation sink_trail :: "('t \<times> audit_event list) audit_sink \<Rightarrow> audit_event list" where
  "sink_trail k \<equiv> snd (sk_transport k) @ sk_pending k"

lemma published_on_trail:
  assumes "po_send P = recorded send" and "length (sk_pending (gw_audit s)) < sk_maxlen (gw_audit s)"
  shows "sink_trail (gw_audit (publish P E s d))
      = sink_trail (gw_audit s) @ [stamp (gw_next s) (ce_wall E) (decision_event d)]"
    and "sk_dropped (gw_audit (publish P E s d)) = sk_dropped (gw_audit s)"
proof -
  let ?e = "stamp (gw_next s) (ce_wall E) (decision_event d)"
  have "sk_dropped (sk_deliver (recorded send) (gw_audit s) ?e) = sk_dropped (gw_audit s)"
    by (rule sk_deliver_keeps [OF assms(2)])
  with recorded.trail_deliver [of send "gw_audit s" ?e]
  show "sink_trail (gw_audit (publish P E s d)) = sink_trail (gw_audit s) @ [?e]"
    and "sk_dropped (gw_audit (publish P E s d)) = sk_dropped (gw_audit s)"
    by (simp_all add: assms(1) sk_publish_def recorded.trail_def)
qed

text \<open>The last thing a decision does is to be published, on the audit sink it was made with.\<close>

lemma decide_action_published:
  assumes "(d, s') = decide_action P E r p s v reason digest a"
  shows "\<exists>s1. s' = publish P E s1 d \<and> gw_audit s1 = gw_audit s"
  using assms by (intro exI [of _ "snd (fresh_id s)"]) (simp add: decide_action_def case_prod_unfold Let_def)

lemma settle_approval_published:
  assumes "(d, s') = settle_approval P E r p s digest v reason"
  shows "sd_tenant_id d = pr_tenant_id p \<and> (\<exists>s1. s' = publish P E s1 d \<and> gw_audit s1 = gw_audit s)"
proof -
  obtain s1 v' reason' a where "(d, s') = decide_action P E r p s1 v' reason' (Some digest) a"
    and s1: "gw_audit s1 = gw_audit s"
  proof (cases "ar_approval_token r")
    case None
    let ?s = "snd (fresh_id s)"
    obtain answer b where c: "repo_create (po_approvals P) (gw_approvals ?s) (ce_wall E) (gw_next s) digest
        (ar_tenant_id r) (ar_identity r) = (answer, b)" by fastforce
    show thesis
      using assms None c by (cases answer)
        (auto simp: settle_approval_def case_prod_unfold Let_def intro!: that [of "?s\<lparr>gw_approvals := b\<rparr>"])
  next
    case (Some token)
    obtain answer b where c: "repo_consume (po_approvals P) (gw_approvals s) (ce_wall E) token digest
        (ar_tenant_id r) = (answer, b)" by fastforce
    have "\<exists>v' reason' a. (d, s') = decide_action P E r p (s\<lparr>gw_approvals := b\<rparr>) v' reason' (Some digest) a"
    proof (cases answer)
      case (Inr consumed)
      then show ?thesis using assms Some c by (cases consumed) (auto simp: settle_approval_def)
    qed (use assms Some c in \<open>auto simp: settle_approval_def\<close>)
    then show thesis by (elim exE) (rule that, assumption, simp)
  qed
  from decide_action_published [OF this(1)] decided_verdict(5) [OF this(1)] s1 show ?thesis by auto
qed

lemma accepting_room:
  assumes "po_send P = recorded send" and "sk_mandatory (gw_audit s)" and "fst (accepting P s)"
  shows "length (sk_pending (gw_audit (snd (accepting P s)))) < sk_maxlen (gw_audit (snd (accepting P s)))"
    and "sink_trail (gw_audit (snd (accepting P s))) = sink_trail (gw_audit s)"
    and "sk_dropped (gw_audit (snd (accepting P s))) = sk_dropped (gw_audit s)"
  using assms recorded.trail_flush [of send "gw_audit s"]
  by (auto simp: accepting_answer sk_accepting_def Let_def recorded.trail_def)

text \<open>A decision published after the sink said it was accepting is on the trail.\<close>

lemma published_after_accepting:
  assumes "po_send P = recorded send" and "sk_mandatory (gw_audit s)" and "fst (accepting P s)"
    and "s' = publish P E s1 d" and "gw_audit s1 = gw_audit (snd (accepting P s))"
  shows "\<exists>i. sink_trail (gw_audit s') = sink_trail (gw_audit s) @ [stamp i (ce_wall E) (decision_event d)]"
    and "sk_dropped (gw_audit s') = sk_dropped (gw_audit s)"
  using published_on_trail [OF assms(1), of s1 E d] accepting_room [OF assms(1-3)] assms(4,5) by auto

text \<open>
  C2: No action is permitted off the record. Where audit is mandatory, an action that is allowed
  or put up for approval has its event at the end of the audit trail, that is at the transport or
  safe in the buffer, with nothing dropped, whatever the transport does during the call; and the
  decision itself can be read back from the decision log.
\<close>

theorem permitted_action_on_record:
  assumes "po_send P = recorded send" and "sk_mandatory (gw_audit s)" and "gateway_ok s"
    and "inspect_action P E r p s = Inr (d, s')"
  shows "dl_get (gw_decisions s') (sd_decision_id d) (pr_tenant_id p) = Some d
    \<and> (sd_verdict d \<noteq> DENY \<longrightarrow> sk_dropped (gw_audit s') = sk_dropped (gw_audit s)
      \<and> (\<exists>i. snd (sk_transport (gw_audit s')) @ sk_pending (gw_audit s')
          = snd (sk_transport (gw_audit s)) @ sk_pending (gw_audit s) @ [stamp i (ce_wall E) (decision_event d)]))"
proof -
  have log: "logged s' d" using inspect_action_total [OF assms(3), of P E r p] assms(4) by simp
  show ?thesis
    using assms(4)
  proof (cases rule: inspect_action_cases)
    case (denied s1 reason digest)
    then show ?thesis using decided_verdict(1,5) [OF denied(1)] log by (simp add: logged_def)
  next
    case (decided s1 v reason)
    obtain s2 where "s' = publish P E s2 d" "gw_audit s2 = gw_audit (snd (accepting P s))"
      using decide_action_published [OF decided(5)] decided(8) by auto
    from published_after_accepting [OF assms(1,2) decided(2) this] show ?thesis
      using decided_verdict(5) [OF decided(5)] log by (auto simp: logged_def)
  next
    case (settled s1 reason)
    obtain s2 where "s' = publish P E s2 d" "gw_audit s2 = gw_audit (snd (accepting P s))"
      using settle_approval_published [OF settled(4)] settled(7) by auto
    from published_after_accepting [OF assms(1,2) settled(2) this] show ?thesis
      using settle_approval_published [OF settled(4)] log by (auto simp: logged_def)
  qed
qed

theorem permitted_action_on_record_witness:
  "\<exists>d s'. inspect_action example_ports example_env example_delete example_operator example_gateway = Inr (d, s')
    \<and> sd_verdict d = ALLOW \<and> sk_dropped (gw_audit s') = sk_dropped (gw_audit example_gateway)"
proof -
  obtain d s' where run: "inspect_action example_ports example_env example_delete example_operator example_gateway
      = Inr (d, s')" "sd_verdict d = ALLOW"
    using example_delete_allowed by auto
  have "po_send example_ports = recorded mt_send" "sk_mandatory (gw_audit example_gateway)"
    by (simp_all add: example_defs)
  from permitted_action_on_record [OF this example_gateway_ok run(1)] show ?thesis using run by auto
qed

section \<open>Running code\<close>

lemma action_policy_local:
  assumes "ce_policy E = local_policy_engine (po_parsers P) (po_settings P)"
  shows "action_policy P E r p = Inr (action_verdict (po_parsers P) r (pr_roles p)
    (local_config (pa_unicode (po_parsers P)) (po_settings P)))"
  using assms by (simp add: action_policy_def local_policy_engine_def local_action_verdict_def case_prod_unfold)

lemma allowed_not_denied_locally:
  assumes "ce_policy E = local_policy_engine (po_parsers P) (po_settings P)"
    and "inspect_action P E r p s = Inr (d, s')" and "sd_verdict d = ALLOW"
  shows "fst (action_verdict (po_parsers P) r (pr_roles p)
    (local_config (pa_unicode (po_parsers P)) (po_settings P))) \<noteq> DENY"
  using assms(2)
proof (cases rule: inspect_action_cases)
  case (denied s1 reason digest)
  then show ?thesis using decided_verdict(1) [OF denied(1)] assms(3) by simp
next
  case (decided s1 v reason)
  then show ?thesis
    using decided_verdict(1) [OF decided(5)] assms(3) action_policy_local [OF assms(1), of r p] by simp
next
  case (settled s1 reason)
  then show ?thesis using action_policy_local [OF assms(1), of r p] by simp
qed

lemma execute_ran:
  assumes "execute P E r p s = Inr ((resp, Some (code, net)), s')"
  obtains sandbox d s1 v where "ce_sandbox E = Some sandbox" "sb_available sandbox"
    "inspect_action P E r p s = Inr (d, s1)" "sd_verdict d = ALLOW"
    "map_of (ar_arguments r) (lit ''code'') = Some v" "code = py_str P v"
    "net \<longleftrightarrow> map_of (ar_arguments r) (lit ''network'') = Some (PBool True)"
  using assms by (auto simp: execute_def Let_def split: option.splits sum.splits if_splits)

text \<open>
  C24: The sandbox runs only code that was allowed, and network access only with an approval. Under
  the built-in policy, whatever reaches the sandbox through the code endpoint is the
  \<^verbatim>\<open>code\<close> argument of a request whose inspection, in the same call, ended in a permission, from a
  caller with the operator role and naming its own tenant's resource; and the network is open only if consuming the
  request's approval token, for exactly this request's digest and the caller's tenant, succeeded.
\<close>

theorem sandbox_runs_only_allowed_code:
  assumes "ce_policy E = local_policy_engine (po_parsers P) (po_settings P)" and "ar_tool r = CODE_TOOL"
    and "execute P E r p s = Inr ((resp, Some (code, net)), s')"
  shows "OPERATOR \<in> pr_roles p \<and> map_of (ar_arguments r) (lit ''code'') = Some (PStr code)
    \<and> prefix (lit ''tenant:'' @ ar_tenant_id r @ lit '':'') (ar_resource r)
    \<and> (\<exists>d s1. inspect_action P E r p s = Inr (d, s1) \<and> sd_verdict d = ALLOW
        \<and> (net \<longrightarrow> (\<exists>token. ar_approval_token r = Some token
              \<and> repo_consume (po_approvals P) (gw_approvals s) (ce_wall E) token (digest_of P r) (pr_tenant_id p)
                = (Inr True, gw_approvals s1))))"
proof -
  obtain sandbox d s1 v where run: "inspect_action P E r p s = Inr (d, s1)" "sd_verdict d = ALLOW"
    "map_of (ar_arguments r) (lit ''code'') = Some v" "code = py_str P v"
    "net \<longleftrightarrow> map_of (ar_arguments r) (lit ''network'') = Some (PBool True)"
    using assms(3) by (rule execute_ran)
  note passed = allowed_not_denied_locally [OF assms(1) run(1,2)]
  note code = allowed_code [OF passed assms(2)]
  have "code = c \<and> v = PStr c" if "map_of (ar_arguments r) (lit ''code'') = Some (PStr c)" for c
    using that run(3,4) by (simp add: py_str_def)
  moreover have "\<exists>token. ar_approval_token r = Some token
      \<and> repo_consume (po_approvals P) (gw_approvals s) (ce_wall E) token (digest_of P r) (pr_tenant_id p)
        = (Inr True, gw_approvals s1)" if net
  proof -
    have "ar_side_effect r \<notin> {SE_NONE, SE_READ}" using code(4) that run(5) by simp
    from local.allowed_action [OF assms(1) run(1,2) this] show ?thesis by blast
  qed
  ultimately show ?thesis using code(1-3) run(1,2) by blast
qed

theorem sandbox_runs_only_allowed_code_witness:
  "OPERATOR \<in> pr_roles example_operator
    \<and> (\<exists>d s1. inspect_action example_ports example_code_env example_code example_operator example_gateway = Inr (d, s1)
        \<and> sd_verdict d = ALLOW)"
proof -
  obtain resp s where run: "execute example_ports example_code_env example_code example_operator example_gateway
      = Inr ((resp, Some (lit ''1'', False)), s)" using example_code_runs by blast
  have "ce_policy example_code_env = local_policy_engine (po_parsers example_ports) (po_settings example_ports)" by simp
  from sandbox_runs_only_allowed_code [OF this _ run] show ?thesis by auto
qed

end
