(* ===== verification/Screening.thy ===== *)
theory Screening
  imports Enforcement
begin

text \<open>
  What the service guarantees of content: which content may continue, what is rewritten, and that a
  permission is on the audit trail.
\<close>

section \<open>How an inspection ends\<close>

lemma decide_content_result:
  assumes "decide_content P E r point p s v reason evidence out route = Inr (d, s')"
  obtains s1 where "s' = publish P E s1 d" "gw_audit s1 = gw_audit s" "gw_vault s1 = gw_vault s"
    "sd_verdict d = v" "sd_reason_code d = reason" "sd_transformed_content d = out"
    "sd_tenant_id d = pr_tenant_id p" "sd_route d = route"
proof -
  obtain s0 where "record_violation E s p reason = Inr s0"
    using assms by (auto simp: decide_content_def split: sum.splits)
  moreover from this have "gw_audit s0 = gw_audit s" "gw_vault s0 = gw_vault s"
    by (auto simp: record_violation_def split: sum.splits if_splits)
  ultimately show thesis
    using assms by (intro that [of "snd (fresh_id s0)"]) (auto simp: decide_content_def case_prod_unfold Let_def)
qed

lemma decide_content_fields:
  assumes "decide_content P E r point p s v reason evidence out route = Inr (d, s')"
  shows "sd_verdict d = v" "sd_transformed_content d = out" "sd_route d = route" "gw_vault s' = gw_vault s"
  by (rule decide_content_result [OF assms], simp)+

text \<open>
  An inspection denies, or it passed every guard, was judged fit to continue, and is concluded.
\<close>

lemma inspect_content_cases:
  assumes "inspect_content P E call point p s = Inr (d, s')"
  obtains (denied) "sd_verdict d = DENY" "sd_transformed_content d = None" "sd_tenant_id d = pr_tenant_id p"
  | (judged) s1 v reason fs where
      "\<not> asserts_another_identity (cr_identity (base_request call)) (cr_tenant_id (base_request call)) p"
      "fst (accepting P s)" "\<not> locked E s p"
      "model_eligible (po_settings P) (cr_model (base_request call))"
      "int (length (cr_content (base_request call))) \<le> max_content_chars (po_settings P)"
      "judge P E point (cr_trust_level (base_request call)) (cr_source_tenant_id (base_request call))
         (cr_tenant_id (base_request call)) (cr_content (base_request call)) = (v, reason, fs)"
      "v \<noteq> DENY" "conclude_content P E call point p s1 v reason fs = Inr (d, s')"
      "gw_audit s1 = gw_audit (snd (accepting P s))" "gw_vault s1 = gw_vault s"
proof -
  let ?r = "base_request call"
  have refused: thesis if "decide_content P E ?r point p s1 DENY reason evidence None None = Inr (d, s')" for s1 reason evidence
    by (rule decide_content_result [OF that], rule denied) simp_all
  show thesis
  proof (cases "asserts_another_identity (cr_identity ?r) (cr_tenant_id ?r) p")
    case True
    then have "decide_content P E ?r point p s DENY (lit ''identity_assertion_mismatch'') [] None None = Inr (d, s')"
      using assms by (simp add: inspect_content_def Let_def)
    then show thesis by (rule refused)
  next
    case same: False
    show thesis
    proof (cases "fst (accepting P s)")
      case False
      then have "decide_content P E ?r point p (snd (accepting P s)) DENY (lit ''audit_durability_unavailable'') [] None None
          = Inr (d, s')"
        using assms same by (simp add: inspect_content_def Let_def case_prod_unfold)
      then show thesis by (rule refused)
    next
      case durable: True
      obtain ok s1 where q: "within_quota E (snd (accepting P s)) p = Inr (ok, s1)"
        using assms same durable by (auto simp: inspect_content_def Let_def case_prod_unfold split: sum.splits)
      note frame = within_quota_frame [OF q]
      have locked: "locked E s1 p = locked E s p" using frame(4) by (simp add: locked_def)
      obtain v reason fs where j: "judge P E point (cr_trust_level ?r) (cr_source_tenant_id ?r) (cr_tenant_id ?r)
          (cr_content ?r) = (v, reason, fs)" using prod_cases3 by blast
      show thesis
      proof (cases "ok \<and> \<not> locked E s p \<and> model_eligible (po_settings P) (cr_model ?r)
          \<and> int (length (cr_content ?r)) \<le> max_content_chars (po_settings P) \<and> v \<noteq> DENY")
        case True
        then show thesis
          using assms same durable q frame locked j
          by (intro judged [of v reason fs s1])
            (simp_all add: inspect_content_def Let_def case_prod_unfold)
      next
        case False
        then have "\<exists>reason evidence. decide_content P E ?r point p s1 DENY reason evidence None None = Inr (d, s')"
          using assms same durable q locked j
          by (auto simp: inspect_content_def Let_def case_prod_unfold not_le split: if_splits)
        then show thesis by (elim exE) (rule refused)
      qed
    qed
  qed
qed

text \<open>What a judgement that does not deny rests on: every inspector answered, and a policy spoke.\<close>

lemma judge_cleared:
  assumes "judge P E point trust src tenant content = (v, reason, fs)" and "v \<noteq> DENY"
  shows "findings_of (ce_inspectors E) content = Inr fs"
    and "pe_content (ce_policy E) point trust src tenant (map fi_evidence fs) = Inr (v, reason)
      \<or> (pe_content (ce_policy E) point trust src tenant (map fi_evidence fs) = Inl PolicyEngineUnavailableError
         \<and> restricted_read_only_mode (po_settings P)
         \<and> v = fst (local_content_verdict (po_settings P) point trust src tenant (map fi_evidence fs)))"
proof -
  obtain gs where gs: "findings_of (ce_inspectors E) content = Inr gs"
    using assms by (cases "findings_of (ce_inspectors E) content") (auto simp: judge_def)
  let ?a = "pe_content (ce_policy E) point trust src tenant (map fi_evidence gs)"
  have "gs = fs \<and> (?a = Inr (v, reason) \<or> (?a = Inl PolicyEngineUnavailableError
      \<and> restricted_read_only_mode (po_settings P)
      \<and> v = fst (local_content_verdict (po_settings P) point trust src tenant (map fi_evidence gs))))"
  proof (cases ?a)
    case (Inl e)
    then show ?thesis
      using assms gs by (cases e) (auto simp: judge_def Let_def case_prod_unfold split: if_splits)
  next
    case (Inr vr)
    then show ?thesis using assms gs by (cases vr) (auto simp: judge_def Let_def)
  qed
  then show "findings_of (ce_inspectors E) content = Inr fs"
    and "pe_content (ce_policy E) point trust src tenant (map fi_evidence fs) = Inr (v, reason)
      \<or> (pe_content (ce_policy E) point trust src tenant (map fi_evidence fs) = Inl PolicyEngineUnavailableError
         \<and> restricted_read_only_mode (po_settings P)
         \<and> v = fst (local_content_verdict (po_settings P) point trust src tenant (map fi_evidence fs)))"
    using gs by auto
qed

text \<open>The conclusion decides once, on the audit sink it was given.\<close>

lemma conclude_content_cases:
  assumes "conclude_content P E call point p s v reason fs = Inr (d, s')"
  obtains (local_only) "v = TRANSFORM" "cr_model (base_request call) \<in> Some ` set (local_only_models (po_settings P))"
      "decide_content P E (base_request call) point p s ALLOW (lit ''sensitive_content_local_only'')
         (map fi_evidence fs) None (Some (lit ''local_only'')) = Inr (d, s')"
  | (rewritten) out s1 where "v = TRANSFORM"
      "transformed P E s (cr_content (base_request call)) fs (pr_tenant_id p) (cr_trace_id (base_request call)) = Inr (out, s1)"
      "decide_content P E (base_request call) point p s1 TRANSFORM reason (map fi_evidence fs) (Some out) None = Inr (d, s')"
  | (checked) o_r v' reason' out where "v = ALLOW" "call = OutputCall o_r"
      "fst (output_verdict (unicode_of P) (po_schema P) o_r (output_config_from (unicode_of P) (po_settings P))) = v'"
      "snd (snd (output_verdict (unicode_of P) (po_schema P) o_r (output_config_from (unicode_of P) (po_settings P)))) = out"
      "decide_content P E (base_request call) point p s v' reason' (map fi_evidence fs) out None = Inr (d, s')"
  | (passed) "v \<noteq> TRANSFORM" "v = ALLOW \<longrightarrow> (\<exists>r. call = ContentCall r)"
      "decide_content P E (base_request call) point p s v reason (map fi_evidence fs) None None = Inr (d, s')"
proof (cases "v = TRANSFORM")
  case True
  show thesis
  proof (cases "cr_model (base_request call) \<in> Some ` set (local_only_models (po_settings P))")
    case False
    then show thesis
      using assms True rewritten
      by (auto simp: conclude_content_def Let_def split: sum.splits content_call.splits)
  qed (use assms True local_only in \<open>simp add: conclude_content_def Let_def\<close>)
next
  case False
  show thesis
  proof (cases call)
    case (ContentCall r)
    then show thesis using assms False passed by (simp add: conclude_content_def Let_def)
  next
    case (OutputCall o_r)
    show thesis
    proof (cases "v = ALLOW")
      case True
      then show thesis
        using assms OutputCall checked by (auto simp: conclude_content_def Let_def case_prod_unfold)
    qed (use assms False OutputCall passed in \<open>simp add: conclude_content_def Let_def\<close>)
  qed
qed

lemma transformed_frame:
  assumes "transformed P E s content fs tenant tr = Inr (out, s')"
  shows "gw_audit s' = gw_audit s"
  using assms by (auto simp: transformed_def split: sum.splits)

lemma conclude_content_published:
  assumes "conclude_content P E call point p s v reason fs = Inr (d, s')"
  shows "sd_tenant_id d = pr_tenant_id p \<and> (\<exists>s1. s' = publish P E s1 d \<and> gw_audit s1 = gw_audit s)"
  using assms
proof (cases rule: conclude_content_cases)
  case (rewritten out s1)
  then show ?thesis using decide_content_result [OF rewritten(3)] transformed_frame [OF rewritten(2)] by metis
qed (metis decide_content_result)+

section \<open>What content may continue\<close>

text \<open>The decision point is the built-in policy, which may also be out of reach.\<close>

definition local_or_down :: "('a, 't, 'i) ports \<Rightarrow> policy_engine \<Rightarrow> bool" where
  "local_or_down P engine \<longleftrightarrow>
     (\<forall>point trust src tenant es. pe_content engine point trust src tenant es
        \<in> {Inr (local_content_verdict (po_settings P) point trust src tenant es), Inl PolicyEngineUnavailableError})"

lemma judge_local:
  assumes "local_or_down P (ce_policy E)"
    and "judge P E point trust src tenant content = (v, reason, fs)" and "v \<noteq> DENY"
  shows "v = fst (local_content_verdict (po_settings P) point trust src tenant (map fi_evidence fs))"
proof -
  have "pe_content (ce_policy E) point trust src tenant (map fi_evidence fs)
      \<in> {Inr (local_content_verdict (po_settings P) point trust src tenant (map fi_evidence fs)),
         Inl PolicyEngineUnavailableError}"
    using assms(1) unfolding local_or_down_def by blast
  with judge_cleared(2) [OF assms(2,3)] show ?thesis by auto
qed

text \<open>Under the built-in policy, what is not denied passed every early rule of the content policy.\<close>

lemma continuing_not_denied_early:
  assumes "local_or_down P (ce_policy E)"
    and "inspect_content P E call point p s = Inr (d, s')" and "sd_verdict d \<noteq> DENY"
  obtains fs where "findings_of (ce_inspectors E) (cr_content (base_request call)) = Inr fs"
    "\<not> denied_early point (cr_trust_level (base_request call)) (cr_source_tenant_id (base_request call)) (pr_tenant_id p)
        (map fi_evidence fs) (governed_actions (action_resolver (po_settings P) (pr_tenant_id p)) (map fi_evidence fs))"
    "cr_identity (base_request call) = pr_identity p" "cr_tenant_id (base_request call) = pr_tenant_id p"
    "\<not> locked E s p" "model_eligible (po_settings P) (cr_model (base_request call))"
    "int (length (cr_content (base_request call))) \<le> max_content_chars (po_settings P)"
  using assms(2)
proof (cases rule: inspect_content_cases)
  case denied
  then show ?thesis using assms(3) by simp
next
  case (judged s1 v reason fs)
  let ?r = "base_request call" and ?es = "map fi_evidence fs"
  have own: "cr_identity ?r = pr_identity p" "cr_tenant_id ?r = pr_tenant_id p"
    using judged(1) by (simp_all add: asserts_another_identity_def)
  have "fst (content_verdict point (cr_trust_level ?r) (cr_source_tenant_id ?r) (cr_tenant_id ?r) ?es
      (Some (action_resolver (po_settings P) (cr_tenant_id ?r)))) \<noteq> DENY"
    using judge_local [OF assms(1) judged(6,7)] judged(7) by (simp add: local_content_verdict_def)
  then have "\<not> denied_early point (cr_trust_level ?r) (cr_source_tenant_id ?r) (cr_tenant_id ?r) ?es
      (governed_actions (action_resolver (po_settings P) (cr_tenant_id ?r)) ?es)"
    by (simp add: content_not_denied rules_of_def)
  then show ?thesis using that [OF judge_cleared(1) [OF judged(6,7)]] own judged(3-5) by simp
qed

text \<open>
  C17: Content continues only when it was inspected and cleared. If the inspection of a request
  does not end in a denial, then every inspector answered; the request names the caller's own
  identity and tenant; the caller is not locked out; the content is within the size limit and the
  model eligible; and under the built-in policy, reachable or not, no canary and no obfuscated
  match was found, the content is of no other tenant, and neither a prompt injection in retrieved or untrusted
  content nor a tool call in retrieved content or output was found.
\<close>

theorem continuing_content_cleared:
  assumes "local_or_down P (ce_policy E)"
    and "inspect_content P E call point p s = Inr (d, s')" and "sd_verdict d \<noteq> DENY"
  shows "cr_identity (base_request call) = pr_identity p \<and> cr_tenant_id (base_request call) = pr_tenant_id p
    \<and> \<not> locked E s p \<and> model_eligible (po_settings P) (cr_model (base_request call))
    \<and> int (length (cr_content (base_request call))) \<le> max_content_chars (po_settings P)
    \<and> cr_source_tenant_id (base_request call) \<in> {None, Some (pr_tenant_id p)}
    \<and> (\<exists>fs. findings_of (ce_inspectors E) (cr_content (base_request call)) = Inr fs
        \<and> list_all (\<lambda>e. ev_category e \<noteq> lit ''canary'' \<and> ev_detector e \<noteq> DECODED_DETECTOR
             \<and> \<not> (ev_category e = lit ''embedded_action'' \<and> point \<in> {OUTPUT, CONTEXT})
             \<and> \<not> (ev_category e \<in> {lit ''prompt_injection'', lit ''jailbreak''}
                   \<and> (point = CONTEXT \<or> cr_trust_level (base_request call) = UNTRUSTED)))
            (map fi_evidence fs))"
proof -
  let ?r = "base_request call"
  obtain fs where found: "findings_of (ce_inspectors E) (cr_content ?r) = Inr fs"
    and clear: "\<not> denied_early point (cr_trust_level ?r) (cr_source_tenant_id ?r) (pr_tenant_id p) (map fi_evidence fs)
        (governed_actions (action_resolver (po_settings P) (pr_tenant_id p)) (map fi_evidence fs))"
    and own: "cr_identity ?r = pr_identity p" "cr_tenant_id ?r = pr_tenant_id p" "\<not> locked E s p"
      "model_eligible (po_settings P) (cr_model ?r)" "int (length (cr_content ?r)) \<le> max_content_chars (po_settings P)"
    using assms by (rule continuing_not_denied_early)
  have "cr_source_tenant_id ?r \<in> {None, Some (pr_tenant_id p)}" using clear by (auto simp: denied_early_def)
  moreover have "list_all (\<lambda>e. ev_category e \<noteq> lit ''canary'' \<and> ev_detector e \<noteq> DECODED_DETECTOR
             \<and> \<not> (ev_category e = lit ''embedded_action'' \<and> point \<in> {OUTPUT, CONTEXT})
             \<and> \<not> (ev_category e \<in> {lit ''prompt_injection'', lit ''jailbreak''}
                   \<and> (point = CONTEXT \<or> cr_trust_level ?r = UNTRUSTED))) (map fi_evidence fs)"
    unfolding list_all_iff
  proof
    fix e assume e: "e \<in> set (map fi_evidence fs)"
    then have "ev_category e \<in> set (map ev_category (map fi_evidence fs))" by auto
    then show "ev_category e \<noteq> lit ''canary'' \<and> ev_detector e \<noteq> DECODED_DETECTOR
             \<and> \<not> (ev_category e = lit ''embedded_action'' \<and> point \<in> {OUTPUT, CONTEXT})
             \<and> \<not> (ev_category e \<in> {lit ''prompt_injection'', lit ''jailbreak''}
                   \<and> (point = CONTEXT \<or> cr_trust_level ?r = UNTRUSTED))"
      using clear e unfolding denied_early_def list_ex_iff by (auto simp only: insert_iff empty_iff)
  qed
  ultimately show ?thesis using own found by blast
qed

lemma local_or_down_local: "local_or_down P (local_policy_engine ps (po_settings P))"
  by (simp add: local_or_down_def local_policy_engine_def)

lemma example_local: "local_or_down example_ports (ce_policy example_env)"
  using local_or_down_local [of example_ports example_parsers] by simp

theorem continuing_content_cleared_witness:
  "\<exists>fs. findings_of [example_inspector] (lit ''hello'') = Inr fs
    \<and> list_all (\<lambda>e. ev_category e \<noteq> lit ''canary'') (map fi_evidence fs)"
proof -
  obtain d s' where "inspect_content example_ports example_env (ContentCall (example_content_request ''hello'')) INPUT
      example_operator example_gateway = Inr (d, s')" "sd_verdict d \<noteq> DENY"
    using example_content_allowed by auto
  from continuing_content_cleared [OF example_local this] show ?thesis by (auto simp: list_all_iff)
qed

text \<open>
  C18: Sensitive values go where the tenant's rules send them. Under the built-in policy, reachable
  or not, let an inspector find a value of a sensitive category for which the tenant's rule is not
  to allow it. Then the request is denied; or it continues unchanged on the local-only route, for a
  model the deployment declares local, and never under a denying rule; or its content is replaced by the
  rewriting of every governed value, at an enforcement point other than the output.
\<close>

theorem sensitive_values_governed:
  assumes "local_or_down P (ce_policy E)"
    and "inspect_content P E call point p s = Inr (d, s')"
    and "findings_of (ce_inspectors E) (cr_content (base_request call)) = Inr fs"
    and "f \<in> set fs" and "is_sensitive (ev_category (fi_evidence f))"
    and "a = action_resolver (po_settings P) (pr_tenant_id p) (ev_category (fi_evidence f))" and "a \<noteq> EA_ALLOW"
  shows "sd_verdict d = DENY
    \<or> sd_verdict d = ALLOW \<and> sd_route d = Some (lit ''local_only'') \<and> a \<noteq> EA_DENY \<and> point \<noteq> OUTPUT
        \<and> cr_model (base_request call) \<in> Some ` set (local_only_models (po_settings P))
    \<or> sd_verdict d = TRANSFORM \<and> a \<noteq> EA_DENY \<and> point \<noteq> OUTPUT
        \<and> (\<exists>out. sd_transformed_content d = Some out
            \<and> transform_content (unicode_of P) (cr_content (base_request call)) fs
                (action_resolver (po_settings P) (pr_tenant_id p))
                (va_tokenize (unicode_of P) (ce_now E) (pr_tenant_id p, cr_trace_id (base_request call))) (gw_vault s)
              = Inr (out, gw_vault s'))"
  using assms(2)
proof (cases rule: inspect_content_cases)
  case (judged s1 v reason fs')
  let ?r = "base_request call" and ?es = "map fi_evidence fs"
  let ?g = "governed_actions (action_resolver (po_settings P) (pr_tenant_id p)) ?es"
  have fs: "fs' = fs" using judge_cleared(1) [OF judged(6,7)] assms(3) by simp
  have own: "cr_tenant_id ?r = pr_tenant_id p" using judged(1) by (simp add: asserts_another_identity_def)
  have v: "v = fst (content_verdict point (cr_trust_level ?r) (cr_source_tenant_id ?r) (pr_tenant_id p) ?es
      (Some (action_resolver (po_settings P) (pr_tenant_id p))))"
    using judge_local [OF assms(1) judged(6,7)] fs own by (simp add: local_content_verdict_def)
  have a: "a \<in> ?g" using assms(4-7) by (auto simp: governed_actions_def)
  have clear: "\<not> denied_early point (cr_trust_level ?r) (cr_source_tenant_id ?r) (pr_tenant_id p) ?es ?g"
    using v judged(7) content_not_denied [of point "cr_trust_level ?r" "cr_source_tenant_id ?r" "pr_tenant_id p" ?es
        "Some (action_resolver (po_settings P) (pr_tenant_id p))"] by (simp add: rules_of_def)
  have place: "a \<noteq> EA_DENY" "point \<noteq> OUTPUT" using clear a by (auto simp: denied_early_def)
  have "v = TRANSFORM"
    using v clear a content_verdict_chain [of point "cr_trust_level ?r" "cr_source_tenant_id ?r" "pr_tenant_id p" ?es
        "Some (action_resolver (po_settings P) (pr_tenant_id p))"]
    by (auto simp: rules_of_def split: if_splits)
  with judged(8) show ?thesis
  proof (cases rule: conclude_content_cases)
    case local_only
    from decide_content_fields [OF this(3)] show ?thesis using local_only(2) place by simp
  next
    case (rewritten out s2)
    note d = decide_content_fields [OF rewritten(3)]
    have "transform_content (unicode_of P) (cr_content ?r) fs (action_resolver (po_settings P) (pr_tenant_id p))
        (va_tokenize (unicode_of P) (ce_now E) (pr_tenant_id p, cr_trace_id ?r)) (gw_vault s) = Inr (out, gw_vault s2)"
      using rewritten(2) fs judged(10) by (auto simp: transformed_def split: sum.splits)
    then show ?thesis using d place by simp
  qed simp_all
qed simp

theorem sensitive_values_governed_witness:
  "\<exists>d s'. inspect_content example_ports example_env (ContentCall (example_content_request ''key abcd!'')) INPUT
      example_operator example_gateway = Inr (d, s') \<and> sd_verdict d \<noteq> ALLOW"
proof -
  let ?call = "ContentCall (example_content_request ''key abcd!'')" and ?f = "example_finding ''secret'' 4 8"
  obtain d s' where run: "inspect_content example_ports example_env ?call INPUT example_operator example_gateway = Inr (d, s')"
    using inspect_content_total [OF example_gateway_ok] unfolding returns_def by (metis surj_pair)
  have "findings_of (ce_inspectors example_env) (cr_content (base_request ?call)) = Inr [?f]"
    by (simp add: example_inspector_def)
  moreover have "is_sensitive (ev_category (fi_evidence ?f))"
    by (simp add: is_sensitive_def example_finding_def example_evidence_def)
  moreover have "EA_REDACT = action_resolver (po_settings example_ports) (pr_tenant_id example_operator)
      (ev_category (fi_evidence ?f))"
    by (simp add: action_resolver_def)
  ultimately have "sd_verdict d \<noteq> ALLOW"
    using sensitive_values_governed [OF example_local run, of "[?f]" ?f EA_REDACT] by auto
  then show ?thesis using run by blast
qed

text \<open>
  C19: No content passes off the record. Where audit is mandatory, a request whose inspection does
  not end in a denial has its event at the end of the audit trail, with nothing dropped, whatever
  the transport does during the call; and every decision on content can be read back from the
  decision log.
\<close>

theorem permitted_content_on_record:
  assumes "po_send P = recorded send" and "sk_mandatory (gw_audit s)" and "gateway_ok s"
    and "inspect_content P E call point p s = Inr (d, s')"
  shows "dl_get (gw_decisions s') (sd_decision_id d) (sd_tenant_id d) = Some d
    \<and> (sd_verdict d \<noteq> DENY \<longrightarrow> sd_tenant_id d = pr_tenant_id p \<and> sk_dropped (gw_audit s') = sk_dropped (gw_audit s)
      \<and> (\<exists>i. snd (sk_transport (gw_audit s')) @ sk_pending (gw_audit s')
          = snd (sk_transport (gw_audit s)) @ sk_pending (gw_audit s) @ [stamp i (ce_wall E) (decision_event d)]))"
proof -
  have log: "logged s' d" using inspect_content_total [OF assms(3), of P E call point p] assms(4) by simp
  show ?thesis
    using assms(4)
  proof (cases rule: inspect_content_cases)
    case denied
    then show ?thesis using log by (simp add: logged_def)
  next
    case (judged s1 v reason fs)
    obtain s2 where pub: "sd_tenant_id d = pr_tenant_id p" "s' = publish P E s2 d"
      "gw_audit s2 = gw_audit (snd (accepting P s))"
      using conclude_content_published [OF judged(8)] judged(9) by auto
    from published_after_accepting [OF assms(1,2) judged(2) pub(2,3)] show ?thesis
      using log pub(1) by (auto simp: logged_def)
  qed
qed

theorem permitted_content_on_record_witness:
  "\<exists>d s'. inspect_content example_ports example_env (ContentCall (example_content_request ''hello'')) INPUT
      example_operator example_gateway = Inr (d, s')
    \<and> sd_verdict d = ALLOW \<and> sk_dropped (gw_audit s') = sk_dropped (gw_audit example_gateway)"
proof -
  obtain d s' where run: "inspect_content example_ports example_env (ContentCall (example_content_request ''hello''))
      INPUT example_operator example_gateway = Inr (d, s')" "sd_verdict d = ALLOW"
    using example_content_allowed by auto
  have "po_send example_ports = recorded mt_send" "sk_mandatory (gw_audit example_gateway)"
    by (simp_all add: example_defs)
  from permitted_content_on_record [OF this example_gateway_ok run(1)] show ?thesis using run by auto
qed

end
