(* ===== verification/Batches.thy ===== *)
theory Batches
  imports Screening
begin

text \<open>
  Context batches: which retrieved documents the service hands on, that each stands on its own
  labels and within the context budget, and what one question to the audit sink is worth when a
  batch publishes many events.
\<close>

section \<open>One document\<close>

definition admissible :: "('a, 't, 'i) ports \<Rightarrow> principal \<Rightarrow> context_document \<Rightarrow> bool" where
  "admissible P p d \<longleftrightarrow> cd_source_tenant_id d = pr_tenant_id p \<and> may_read d p
     \<and> int (length (cd_content d)) \<le> max_content_chars (po_settings P)"

text \<open>What a result says of its document: refused, or handed on in its envelope.\<close>

definition outcome_for :: "('a, 't, 'i) ports \<Rightarrow> principal \<Rightarrow> context_document \<Rightarrow> document_decision \<Rightarrow> bool" where
  "outcome_for P p d x \<longleftrightarrow> dd_document_id x = cd_id d
     \<and> (case dd_content x of
          None \<Rightarrow> dd_verdict x = DENY
        | Some text \<Rightarrow> admissible P p d \<and> dd_verdict x \<noteq> DENY
            \<and> (\<exists>content. text = as_untrusted_evidence (unicode_of P) d content
                \<and> (dd_verdict x \<noteq> TRANSFORM \<longrightarrow> content = cd_content d)))"

definition admitted_chars :: "context_document list \<Rightarrow> document_decision list \<Rightarrow> int" where
  "admitted_chars ds xs = (\<Sum>(d, x) \<leftarrow> zip ds xs. if dd_content x \<noteq> None then int (length (cd_content d)) else 0)"

lemma admitted_chars_simps [simp]:
  "admitted_chars [] xs = 0"
  "admitted_chars (d # ds) (x # xs)
     = (if dd_content x \<noteq> None then int (length (cd_content d)) else 0) + admitted_chars ds xs"
  by (simp_all add: admitted_chars_def)

lemma judge_document_outcome:
  assumes "judge_document P E d p remaining tr s = Inr (x, s')"
  shows "outcome_for P p d x" and "dd_content x \<noteq> None \<Longrightarrow> int (length (cd_content d)) \<le> remaining"
    and "gw_audit s' = gw_audit s"
  using assms transformed_frame
  by (auto simp: judge_document_def outcome_for_def refuse_document_def admissible_def Let_def
      split: if_splits prod.splits sum.splits)

lemma record_violation_frame:
  "record_violation E s p reason = Inr s' \<Longrightarrow> gw_audit s' = gw_audit s"
  by (auto simp: record_violation_def split: if_splits sum.splits)

lemma batch_step_outcome:
  assumes "batch_step P E r p remaining d s = Inr (x, s')"
  shows "outcome_for P p d x" and "dd_content x \<noteq> None \<Longrightarrow> int (length (cd_content d)) \<le> remaining"
    and "\<exists>s1 e. s' = publish P E s1 e \<and> gw_audit s1 = gw_audit s"
proof -
  obtain s0 where j: "judge_document P E d p remaining (br_trace_id r) s = Inr (x, s0)"
    using assms by (auto simp: batch_step_def Let_def case_prod_unfold split: sum.splits)
  obtain s1 where v: "record_violation E s0 p (dd_reason_code x) = Inr s1"
    using assms j by (auto simp: batch_step_def Let_def case_prod_unfold split: sum.splits)
  have s': "\<exists>e. s' = publish P E (snd (fresh_id s1)) e"
    using assms j v by (auto simp: batch_step_def Let_def case_prod_unfold)
  show "outcome_for P p d x" and "dd_content x \<noteq> None \<Longrightarrow> int (length (cd_content d)) \<le> remaining"
    using judge_document_outcome(1,2) [OF j] by blast+
  have "gw_audit (snd (fresh_id s1)) = gw_audit s"
    using judge_document_outcome(3) [OF j] record_violation_frame [OF v] by simp
  with s' show "\<exists>s1 e. s' = publish P E s1 e \<and> gw_audit s1 = gw_audit s" by blast
qed

section \<open>The loop\<close>

lemma batch_loop_outcome:
  assumes "batch_loop P E r p remaining ds s = Inr (xs, s')" and "0 \<le> remaining"
  shows "list_all2 (outcome_for P p) ds xs \<and> admitted_chars ds xs \<le> remaining"
  using assms
proof (induction ds arbitrary: remaining s xs)
  case (Cons d ds)
  obtain x s1 where step: "batch_step P E r p remaining d s = Inr (x, s1)"
    using Cons.prems(1) by (auto split: sum.splits)
  let ?rest = "if dd_content x \<noteq> None then remaining - int (length (cd_content d)) else remaining"
  obtain ys where loop: "batch_loop P E r p ?rest ds s1 = Inr (ys, s')" and xs: "xs = x # ys"
    using Cons.prems(1) step by (auto split: sum.splits)
  have "0 \<le> ?rest" using batch_step_outcome(2) [OF step] Cons.prems(2) by simp
  from Cons.IH [OF loop this] show ?case using batch_step_outcome(1) [OF step] by (simp add: xs split: if_splits)
qed simp

lemma inspect_context_batch_cases:
  assumes "inspect_context_batch P E r p s = Inr (b, s')"
  obtains (refused) s1 reason where "conclude_batch P E r p s1 DENY reason [] = (b, s')"
  | (judged) s1 s2 xs v reason where
      "br_identity r = pr_identity p" "br_tenant_id r = pr_tenant_id p"
      "fst (accepting P s)" "\<not> locked E s p" "gw_audit s1 = gw_audit (snd (accepting P s))"
      "batch_loop P E r p (max_context_chars (po_settings P)) (br_documents r) s1 = Inr (xs, s2)"
      "conclude_batch P E r p s2 v reason xs = (b, s')"
      "v = (if \<not> list_ex (\<lambda>x. dd_content x \<noteq> None) xs then DENY
            else if list_all (\<lambda>x. dd_verdict x = ALLOW) xs then ALLOW else TRANSFORM)"
proof (cases "asserts_another_identity (br_identity r) (br_tenant_id r) p")
  case True
  then show thesis using assms refused by (simp add: inspect_context_batch_def)
next
  case same: False
  show thesis
  proof (cases "fst (accepting P s)")
    case False
    then show thesis using assms same refused by (simp add: inspect_context_batch_def case_prod_unfold Let_def)
  next
    case durable: True
    obtain ok s1 where q: "within_quota E (snd (accepting P s)) p = Inr (ok, s1)"
      using assms same durable by (auto simp: inspect_context_batch_def Let_def case_prod_unfold split: sum.splits)
    note frame = within_quota_frame [OF q]
    have locked: "locked E s1 p = locked E s p" using frame(4) by (simp add: locked_def)
    show thesis
    proof (cases "ok \<and> \<not> locked E s p")
      case False
      then show thesis
        using assms same durable q locked refused
        by (auto simp: inspect_context_batch_def Let_def case_prod_unfold split: if_splits)
    next
      case True
      obtain xs s2 where loop: "batch_loop P E r p (max_context_chars (po_settings P)) (br_documents r) s1 = Inr (xs, s2)"
        using assms same durable q locked True
        by (auto simp: inspect_context_batch_def Let_def case_prod_unfold split: sum.splits)
      have "\<exists>v reason. conclude_batch P E r p s2 v reason xs = (b, s')
          \<and> v = (if \<not> list_ex (\<lambda>x. dd_content x \<noteq> None) xs then DENY
                 else if list_all (\<lambda>x. dd_verdict x = ALLOW) xs then ALLOW else TRANSFORM)"
        using assms same durable q locked True loop
        by (auto simp: inspect_context_batch_def Let_def case_prod_unfold split: if_splits)
      then show thesis
        using same durable frame(6) True loop
        by (elim exE conjE) (rule judged, auto simp: asserts_another_identity_def)
    qed
  qed
qed

section \<open>What a batch admits\<close>

lemma conclude_batch_result:
  assumes "conclude_batch P E r p s v reason xs = (b, s')"
  shows "bd_verdict b = v" "bd_documents b = xs" "bd_admitted b = length (filter (\<lambda>x. dd_content x \<noteq> None) xs)"
    "\<exists>e. s' = publish P E (snd (fresh_id s)) e"
  using assms by (auto simp: conclude_batch_def case_prod_unfold Let_def)

subsection \<open>A batch to apply it on\<close>

definition example_document :: context_document where
  "example_document = \<lparr>cd_id = lit ''kb-1'', cd_content = lit ''hello'', cd_source_tenant_id = lit ''acme'',
     cd_trust_level = TRUSTED, cd_classification = PUBLIC, cd_allowed_identities = None, cd_allowed_roles = None\<rparr>"

definition example_batch :: context_batch_request where
  "example_batch = \<lparr>br_request_id = 1, br_trace_id = 2, br_identity = lit ''ann'', br_tenant_id = lit ''acme'',
     br_documents = [example_document]\<rparr>"

text \<open>The deployment with a transport that takes nothing and one place in the buffer.\<close>

definition cut_off_ports :: "(approval_store, example_transport, incident_store) ports" where
  "cut_off_ports = example_ports\<lparr>po_send := (\<lambda>e t. (False, t))\<rparr>"

definition cut_off_gateway :: "(approval_store, example_transport, incident_store) gateway" where
  "cut_off_gateway = example_gateway\<lparr>gw_audit := new_audit_sink 1 example_transport True\<rparr>"

lemma cut_off_fields [simp]:
  "po_settings cut_off_ports = default_settings" "po_parsers cut_off_ports = example_parsers"
  "po_send cut_off_ports = (\<lambda>e t. (False, t))"
  "br_documents example_batch = [example_document]" "br_identity example_batch = lit ''ann''"
  "br_tenant_id example_batch = lit ''acme''" "cd_content example_document = lit ''hello''"
  "cd_source_tenant_id example_document = lit ''acme''" "cd_trust_level example_document = TRUSTED"
  by (simp_all add: cut_off_ports_def example_batch_def example_document_def)

lemma cut_off_batch:
  "\<exists>x. inspect_context_batch cut_off_ports example_env example_batch example_operator cut_off_gateway = Inr x
    \<and> bd_admitted (fst x) = 1"
proof -
  have acc: "accepting cut_off_ports cut_off_gateway = (True, cut_off_gateway)"
    by (simp add: accepting_def sk_accepting_def sk_flush_def cut_off_gateway_def new_audit_sink_def)
  have "\<exists>s. within_quota example_env cut_off_gateway example_operator = Inr (True, s)"
    by (simp add: within_quota_def rl_allow_def rl_current_def od_move_to_end_def od_evict_drop
      DEFAULT_MAX_KEYS_def cut_off_gateway_def example_defs)
  then obtain s where q: "within_quota example_env cut_off_gateway example_operator = Inr (True, s)" by blast
  have "gw_violations s = gw_violations example_gateway"
    using within_quota_frame(4) [OF q] by (simp add: cut_off_gateway_def)
  then have free: "\<not> locked example_env s example_operator"
    by (simp add: locked_def vh_locked_def example_defs)
  have read: "may_read example_document example_operator"
    by (simp add: may_read_def example_document_def example_operator_def)
  have "judge cut_off_ports example_env CONTEXT TRUSTED (Some (lit ''acme'')) (lit ''acme'') (lit ''hello'')
      = (ALLOW, lit ''policy_allow'', [])"
    by (simp add: judge_def example_inspector_def local_policy_engine_def local_content_verdict_def content_verdict_def)
  then show ?thesis
    using q acc free read
    by (simp add: inspect_context_batch_def asserts_another_identity_def batch_step_def judge_document_def
        record_violation_def VIOLATION_REASONS_def conclude_batch_def case_prod_unfold Let_def)
qed

subsection \<open>Claims\<close>

text \<open>
  C20: Every document of a batch stands or falls on its own labels. Whatever a batch returns, either
  it was refused whole and returns no document, or its results line up with the requested documents, and a
  document is handed on only if it belongs to the caller's tenant, the caller's clearance and its
  access list permit reading it, and it is within the size limit; then it is handed on inside its
  envelope, unchanged unless it was rewritten. The documents handed on never exceed the context
  budget together, \<^verbatim>\<open>admitted\<close> counts them, and the batch is denied exactly when there are none
  and allowed exactly when all were.
\<close>

theorem batch_admits_authorized:
  assumes "settings_bounds (po_settings P)" and "inspect_context_batch P E r p s = Inr (b, s')"
  shows "bd_documents b = [] \<and> bd_admitted b = 0 \<and> bd_verdict b = DENY
    \<or> list_all2 (outcome_for P p) (br_documents r) (bd_documents b)
      \<and> admitted_chars (br_documents r) (bd_documents b) \<le> max_context_chars (po_settings P)
      \<and> bd_admitted b = length (filter (\<lambda>x. dd_content x \<noteq> None) (bd_documents b))
      \<and> (bd_verdict b = DENY \<longleftrightarrow> bd_admitted b = 0)
      \<and> (bd_verdict b = ALLOW \<longleftrightarrow> bd_admitted b \<noteq> 0 \<and> list_all (\<lambda>x. dd_verdict x = ALLOW) (bd_documents b))"
  using assms(2)
proof (cases rule: inspect_context_batch_cases)
  case (refused s1 reason)
  then show ?thesis using conclude_batch_result(1-3) [OF refused] by simp
next
  case (judged s1 s2 xs v reason)
  note b = conclude_batch_result(1-3) [OF judged(7)]
  have "0 \<le> max_context_chars (po_settings P)" using assms(1) by (simp add: settings_bounds_def)
  from batch_loop_outcome [OF judged(6) this]
  have "list_all2 (outcome_for P p) (br_documents r) xs"
    "admitted_chars (br_documents r) xs \<le> max_context_chars (po_settings P)" by blast+
  moreover have "bd_admitted b = 0 \<longleftrightarrow> \<not> list_ex (\<lambda>x. dd_content x \<noteq> None) xs"
    by (auto simp: b list_ex_iff filter_empty_conv)
  ultimately show ?thesis using judged(8) b by auto
qed

theorem batch_admits_authorized_witness:
  "\<exists>b s'. inspect_context_batch cut_off_ports example_env example_batch example_operator cut_off_gateway = Inr (b, s')
    \<and> bd_admitted b = 1 \<and> list_all2 (outcome_for cut_off_ports example_operator) [example_document] (bd_documents b)"
proof -
  obtain b s' where run: "inspect_context_batch cut_off_ports example_env example_batch example_operator
      cut_off_gateway = Inr (b, s')" "bd_admitted b = 1"
    using cut_off_batch by auto
  have "settings_bounds (po_settings cut_off_ports)"
    using validated_bounds [OF default_settings_valid] by simp
  from batch_admits_authorized [OF this run(1)] show ?thesis using run by auto
qed

section \<open>What one question to the sink is worth\<close>

text \<open>A transport that takes nothing: an event is buffered while there is room, then dropped.\<close>

definition takes_nothing :: "'t send \<Rightarrow> bool" where
  "takes_nothing send \<longleftrightarrow> (\<forall>e t. \<not> fst (send e t))"

lemma flush_takes_nothing:
  assumes "takes_nothing send"
  shows "fst (flush_pending send es t) = es"
proof (cases es)
  case (Cons e rest)
  have "\<not> fst (send e t)" using assms by (simp add: takes_nothing_def)
  then show ?thesis using Cons by (simp add: case_prod_unfold Let_def)
qed simp

lemma deliver_takes_nothing:
  assumes "takes_nothing send"
  shows "length (sk_pending (sk_deliver send k e)) = (if length (sk_pending k) < sk_maxlen k
      then Suc (length (sk_pending k)) else length (sk_pending k))"
    and "sk_dropped (sk_deliver send k e) = (if length (sk_pending k) < sk_maxlen k
      then sk_dropped k else Suc (sk_dropped k))"
proof -
  have "sk_pending (sk_flush send k) = sk_pending k"
    using flush_takes_nothing [OF assms] by (simp add: sk_flush_def case_prod_unfold Let_def)
  moreover have "\<not> fst (send e (sk_transport (sk_flush send k)))"
    using assms by (simp add: takes_nothing_def)
  ultimately show "length (sk_pending (sk_deliver send k e)) = (if length (sk_pending k) < sk_maxlen k
      then Suc (length (sk_pending k)) else length (sk_pending k))"
    and "sk_dropped (sk_deliver send k e) = (if length (sk_pending k) < sk_maxlen k
      then sk_dropped k else Suc (sk_dropped k))"
    by (auto simp: sk_deliver_def sk_buffer_def case_prod_unfold Let_def)
qed

text \<open>The events a full buffer drops in a loop: one for each document.\<close>

lemma full_publish:
  assumes "takes_nothing (po_send P)" and "gw_audit s1 = gw_audit s" and "s' = publish P E s1 e"
    and "length (sk_pending (gw_audit s)) = sk_maxlen (gw_audit s)"
  shows "length (sk_pending (gw_audit s')) = sk_maxlen (gw_audit s')"
    and "sk_dropped (gw_audit s') = Suc (sk_dropped (gw_audit s))"
  using deliver_takes_nothing [OF assms(1)] assms(2-4) by (simp_all add: sk_publish_def)

lemma full_loop:
  assumes "takes_nothing (po_send P)" and "length (sk_pending (gw_audit s)) = sk_maxlen (gw_audit s)"
    and "batch_loop P E r p remaining ds s = Inr (xs, s')"
  shows "length (sk_pending (gw_audit s')) = sk_maxlen (gw_audit s')
    \<and> sk_dropped (gw_audit s') = sk_dropped (gw_audit s) + length ds"
  using assms(2,3)
proof (induction ds arbitrary: remaining s xs)
  case (Cons d ds)
  obtain x s1 where step: "batch_step P E r p remaining d s = Inr (x, s1)"
    using Cons.prems(2) by (auto split: sum.splits)
  obtain ys rest where loop: "batch_loop P E r p rest ds s1 = Inr (ys, s')"
    using Cons.prems(2) step by (auto split: sum.splits)
  obtain s0 e where "s1 = publish P E s0 e" "gw_audit s0 = gw_audit s"
    using batch_step_outcome(3) [OF step] by blast
  from full_publish [OF assms(1) this(2,1) Cons.prems(1)] Cons.IH [OF _ loop] show ?case by simp
qed simp

text \<open>
  One answer of the audit sink does not cover a batch. With audit mandatory, a transport
  that takes nothing and room for exactly one more event, the sink still says it is accepting; a
  batch that admits a document then publishes one event for each document and one for the batch,
  and every event after the first is dropped, although the documents are handed on.
\<close>

theorem batch_outruns_audit:
  assumes "takes_nothing (po_send P)" and "sk_mandatory (gw_audit s)"
    and "Suc (length (sk_pending (gw_audit s))) = sk_maxlen (gw_audit s)"
    and "inspect_context_batch P E r p s = Inr (b, s')" and "0 < bd_admitted b"
  shows "fst (accepting P s) \<and> sk_dropped (gw_audit s') = sk_dropped (gw_audit s) + length (br_documents r)"
  using assms(4)
proof (cases rule: inspect_context_batch_cases)
  case (refused s1 reason)
  then show ?thesis using conclude_batch_result(3) [OF refused] assms(5) by simp
next
  case (judged s1 s2 xs v reason)
  let ?k = "gw_audit s1"
  have k: "sk_dropped ?k = sk_dropped (gw_audit s)" "Suc (length (sk_pending ?k)) = sk_maxlen ?k"
    using judged(5) flush_takes_nothing [OF assms(1)] assms(3)
    by (simp_all add: sk_flush_def case_prod_unfold Let_def)
  have "br_documents r \<noteq> []"
    using judged(6) conclude_batch_result(3) [OF judged(7)] assms(5) by auto
  then obtain d ds where ds: "br_documents r = d # ds" by (cases "br_documents r") auto
  obtain x s3 where step: "batch_step P E r p (max_context_chars (po_settings P)) d s1 = Inr (x, s3)"
    using judged(6) ds by (auto split: sum.splits)
  obtain ys rest where loop: "batch_loop P E r p rest ds s3 = Inr (ys, s2)"
    using judged(6) ds step by (auto split: sum.splits)
  obtain s0 e where s3: "s3 = publish P E s0 e" "gw_audit s0 = ?k"
    using batch_step_outcome(3) [OF step] by blast
  have "length (sk_pending (gw_audit s3)) = sk_maxlen (gw_audit s3)" "sk_dropped (gw_audit s3) = sk_dropped ?k"
    using deliver_takes_nothing [OF assms(1)] s3 k(2) by (simp_all add: sk_publish_def)
  from full_loop [OF assms(1) this(1) loop] this(2)
  have s2: "length (sk_pending (gw_audit s2)) = sk_maxlen (gw_audit s2)"
    "sk_dropped (gw_audit s2) = sk_dropped ?k + length ds" by simp_all
  obtain e' where s': "s' = publish P E (snd (fresh_id s2)) e'"
    using conclude_batch_result(4) [OF judged(7)] by blast
  from full_publish(2) [OF assms(1) _ s', of s2] s2 show ?thesis
    using judged(3) k(1) ds by simp
qed

theorem batch_outruns_audit_witness:
  "\<exists>b s'. inspect_context_batch cut_off_ports example_env example_batch example_operator cut_off_gateway = Inr (b, s')
    \<and> bd_admitted b = 1 \<and> sk_dropped (gw_audit cut_off_gateway) = 0 \<and> sk_dropped (gw_audit s') = 1"
proof -
  obtain b s' where run: "inspect_context_batch cut_off_ports example_env example_batch example_operator
      cut_off_gateway = Inr (b, s')" "bd_admitted b = 1"
    using cut_off_batch by auto
  have "takes_nothing (po_send cut_off_ports)" "sk_mandatory (gw_audit cut_off_gateway)"
    "Suc (length (sk_pending (gw_audit cut_off_gateway))) = sk_maxlen (gw_audit cut_off_gateway)"
    "sk_dropped (gw_audit cut_off_gateway) = 0"
    by (simp_all add: takes_nothing_def cut_off_gateway_def new_audit_sink_def)
  from batch_outruns_audit [OF this(1-3) run(1)] this(4) show ?thesis using run by auto
qed

end
