(* ===== verification/Access.thy ===== *)
theory Access
  imports App Batches
begin

text \<open>
  Whole histories of requests: which calls on the approval store a request makes, how a history
  keeps the store's contract, and that an action with a side effect has two people behind it.
\<close>

section \<open>What requests leave alone\<close>

text \<open>The approvals are as before, and identifiers are only drawn.\<close>

definition keeps :: "('a, 't, 'i) gateway \<Rightarrow> ('a, 't, 'i) gateway \<Rightarrow> bool" where
  "keeps s s' \<longleftrightarrow> gw_approvals s' = gw_approvals s \<and> gw_next s \<le> gw_next s'"

lemma keeps_refl [simp]: "keeps s s"
  by (simp add: keeps_def)

lemma keeps_trans: "keeps s s1 \<Longrightarrow> keeps s1 s2 \<Longrightarrow> keeps s s2"
  by (simp add: keeps_def)

lemma keeps_updates [simp]:
  "keeps s (s1\<lparr>gw_audit := k\<rparr>) = keeps s s1" "keeps s (s1\<lparr>gw_vault := v\<rparr>) = keeps s s1"
  "keeps s (s1\<lparr>gw_violations := h\<rparr>) = keeps s s1" "keeps s (s1\<lparr>gw_incidents := n\<rparr>) = keeps s s1"
  "keeps s (s1\<lparr>gw_identity_quota := l\<rparr>) = keeps s s1" "keeps s (s1\<lparr>gw_tenant_quota := l'\<rparr>) = keeps s s1"
  "keeps s (s1\<lparr>gw_budget := b\<rparr>) = keeps s s1"
  by (simp_all add: keeps_def)

lemma keeps_publish [simp]: "keeps s s1 \<Longrightarrow> keeps s (publish P E s1 d)"
  by (auto simp: keeps_def intro: order_trans [OF _ publish_frame(9)])

lemma keeps_fresh_id [simp]: "keeps s s1 \<Longrightarrow> keeps s (snd (fresh_id s1))"
  by (simp add: keeps_def)

lemma keeps_accepting [simp]: "keeps s s1 \<Longrightarrow> keeps s (snd (accepting P s1))"
  by (simp add: keeps_def)

lemma keeps_publish_operation [simp]: "keeps s s1 \<Longrightarrow> keeps s (publish_operation P E s1 reason tenant tr n)"
  by (simp add: keeps_def publish_operation_def)

lemma keeps_publish_rejection [simp]: "keeps s s1 \<Longrightarrow> keeps s (publish_rejection P E s1 reason path)"
  by (simp add: keeps_def publish_rejection_def)

lemma keeps_within_quota: "keeps s s1 \<Longrightarrow> yields (within_quota E s1 p) (\<lambda>(ok, s2). keeps s s2)"
  using within_quota_frame by (fastforce simp: yields_def keeps_def)

lemma keeps_record_violation: "keeps s s1 \<Longrightarrow> yields (record_violation E s1 p reason) (keeps s)"
  by (auto simp: yields_def record_violation_def split: if_splits sum.splits)

lemma keeps_transformed: "keeps s s1 \<Longrightarrow> yields (transformed P E s1 content fs tn tr) (\<lambda>(out, s2). keeps s s2)"
  by (auto simp: yields_def transformed_def split: sum.splits)

lemma keeps_decide_content:
  "keeps s s1 \<Longrightarrow> yields (decide_content P E r point p s1 v reason es out route) (\<lambda>x. keeps s (snd x))"
  unfolding decide_content_def
  by (rule yields_bind [OF keeps_record_violation], assumption) (simp add: case_prod_unfold Let_def)

lemma keeps_conclude_content:
  assumes "keeps s s1"
  shows "yields (conclude_content P E call point p s1 v reason fs) (\<lambda>x. keeps s (snd x))"
proof -
  have "keeps s (snd (d, s2))" if "conclude_content P E call point p s1 v reason fs = Inr (d, s2)" for d s2
    using that
  proof (cases rule: conclude_content_cases)
    case (rewritten out s3)
    then show ?thesis
      using keeps_transformed [OF assms] keeps_decide_content by (fastforce simp: yields_def)
  qed (use keeps_decide_content [OF assms] in \<open>auto simp: yields_def\<close>)
  then show ?thesis by (auto simp: yields_def)
qed

lemma keeps_inspect_content: "yields (inspect_content P E call point p s) (\<lambda>x. keeps s (snd x))"
  unfolding inspect_content_def Let_def case_prod_unfold
  using keeps_decide_content [of s s] keeps_decide_content [of s "snd (accepting P s)"]
  by (auto intro!: yields_bind [OF keeps_within_quota] keeps_decide_content keeps_conclude_content)

lemma keeps_judge_document:
  "keeps s s1 \<Longrightarrow> yields (judge_document P E d p remaining tr s1) (\<lambda>x. keeps s (snd x))"
  unfolding judge_document_def Let_def case_prod_unfold
  by (auto intro!: yields_bind [OF keeps_transformed])

lemma keeps_batch_step: "keeps s s1 \<Longrightarrow> yields (batch_step P E r p remaining d s1) (\<lambda>x. keeps s (snd x))"
  unfolding batch_step_def Let_def case_prod_unfold
  by (rule yields_bind [OF keeps_judge_document], assumption, rule yields_bind [OF keeps_record_violation], assumption)
    simp

lemma keeps_batch_loop: "keeps s s1 \<Longrightarrow> yields (batch_loop P E r p remaining ds s1) (\<lambda>x. keeps s (snd x))"
proof (induction ds arbitrary: s1 remaining)
  case (Cons d ds)
  have "keeps s s3" if loop: "batch_loop P E r p remaining (d # ds) s1 = Inr (xs, s3)" for xs s3
  proof -
    obtain x s2 where step: "batch_step P E r p remaining d s1 = Inr (x, s2)"
      using loop by (auto split: sum.splits)
    then have "keeps s s2" using keeps_batch_step [OF Cons.prems, of P E r p remaining d] by (simp add: yields_def)
    moreover obtain ys rest where "batch_loop P E r p rest ds s2 = Inr (ys, s3)"
      using loop step by (auto split: sum.splits)
    ultimately show ?thesis using Cons.IH [of s2 rest] by (simp add: yields_def)
  qed
  then show ?case by (auto simp: yields_def)
qed simp

lemma keeps_inspect_context_batch: "yields (inspect_context_batch P E r p s) (\<lambda>x. keeps s (snd x))"
proof -
  have concluded: "keeps s (snd (conclude_batch P E r p s1 v reason xs))" if "keeps s s1" for s1 v reason xs
    using that by (simp add: conclude_batch_def case_prod_unfold Let_def)
  show ?thesis
    unfolding inspect_context_batch_def Let_def case_prod_unfold
    by (auto intro!: yields_bind [OF keeps_within_quota] yields_bind [OF keeps_batch_loop] concluded)
qed

section \<open>What requests do to approvals\<close>

text \<open>An inspected action creates an approval under a new identifier, consumes one, or neither.\<close>

definition action_effect ::
  "('a, 't, 'i) ports \<Rightarrow> call_env \<Rightarrow> action_request \<Rightarrow> principal \<Rightarrow> ('a, 't, 'i) gateway \<Rightarrow> ('a, 't, 'i) gateway
    \<Rightarrow> approval_call list \<Rightarrow> bool" where
  "action_effect P E r p s s' cs \<longleftrightarrow> gw_next s \<le> gw_next s'
     \<and> gw_approvals s' = foldl (\<lambda>a c. snd (call_step (po_approvals P) a (ce_wall E) c)) (gw_approvals s) cs
     \<and> (cs = [] \<or> (\<exists>i. gw_next s \<le> i \<and> i < gw_next s' \<and> cs = [Create i (digest_of P r) (pr_tenant_id p) (pr_identity p)])
        \<or> (\<exists>token. cs = [Consume token (digest_of P r) (pr_tenant_id p)]))"

lemma action_effect_none: "action_effect P E r p s s []"
  by (simp add: action_effect_def)

lemma decide_action_next:
  "(d, s') = decide_action P E r p s v reason digest a \<Longrightarrow> gw_next s \<le> gw_next s'"
  by (auto simp: decide_action_def case_prod_unfold Let_def intro: order_trans [OF _ publish_frame(9)])

lemma settle_approval_effect:
  assumes "(d, s') = settle_approval P E r p s (digest_of P r) v reason"
    and "ar_identity r = pr_identity p" and "ar_tenant_id r = pr_tenant_id p"
  shows "\<exists>cs. action_effect P E r p s s' cs"
proof (cases "ar_approval_token r")
  case None
  let ?s = "snd (fresh_id s)"
  obtain answer b where c: "repo_create (po_approvals P) (gw_approvals ?s) (ce_wall E) (gw_next s) (digest_of P r)
      (pr_tenant_id p) (pr_identity p) = (answer, b)" by fastforce
  obtain v' reason' a where d: "(d, s') = decide_action P E r p (?s\<lparr>gw_approvals := b\<rparr>) v' reason' (Some (digest_of P r)) a"
    using assms None c by (cases answer) (auto simp: settle_approval_def case_prod_unfold Let_def)
  have "action_effect P E r p s s' [Create (gw_next s) (digest_of P r) (pr_tenant_id p) (pr_identity p)]"
    using decided_verdict(4) [OF d] decide_action_next [OF d] c by (simp add: action_effect_def)
  then show ?thesis by blast
next
  case (Some token)
  obtain answer b where c: "repo_consume (po_approvals P) (gw_approvals s) (ce_wall E) token (digest_of P r)
      (pr_tenant_id p) = (answer, b)" by fastforce
  have "\<exists>v' reason' a. (d, s') = decide_action P E r p (s\<lparr>gw_approvals := b\<rparr>) v' reason' (Some (digest_of P r)) a"
  proof (cases answer)
    case (Inr consumed)
    then show ?thesis using assms Some c by (cases consumed) (auto simp: settle_approval_def)
  qed (use assms Some c in \<open>auto simp: settle_approval_def\<close>)
  then obtain v' reason' a where d: "(d, s') = decide_action P E r p (s\<lparr>gw_approvals := b\<rparr>) v' reason' (Some (digest_of P r)) a"
    by blast
  have "action_effect P E r p s s' [Consume token (digest_of P r) (pr_tenant_id p)]"
    using decided_verdict(4) [OF d] decide_action_next [OF d] c by (simp add: action_effect_def)
  then show ?thesis by blast
qed

lemma inspect_action_effect:
  assumes "inspect_action P E r p s = Inr (d, s')"
  shows "\<exists>cs. action_effect P E r p s s' cs"
  using assms
proof (cases rule: inspect_action_cases)
  case (denied s1 reason digest)
  then have "action_effect P E r p s s' []"
    using decided_verdict(4) [OF denied(1)] decide_action_next [OF denied(1)] by (simp add: action_effect_def)
  then show ?thesis by blast
next
  case (decided s1 v reason)
  then have "action_effect P E r p s s' []"
    using decided_verdict(4) [OF decided(5)] decide_action_next [OF decided(5)] by (simp add: action_effect_def)
  then show ?thesis by blast
next
  case (settled s1 reason)
  have "ar_identity r = pr_identity p" "ar_tenant_id r = pr_tenant_id p"
    using settled(1) by (simp_all add: asserts_another_identity_def)
  from settle_approval_effect [OF settled(4) this] settled(5,6)
  show ?thesis by (auto simp: action_effect_def)
qed

text \<open>
  The calls on the approval repository that a request makes, and what is known when it makes them:
  only a reviewer who did not request an approval of its own tenant adjudicates it.
\<close>

definition entitled ::
  "('a, 't, 'i) ports \<Rightarrow> call_env \<Rightarrow> uuid \<Rightarrow> principal \<Rightarrow> 'a \<Rightarrow> bool" where
  "entitled P E i p a \<longleftrightarrow> REVIEWER \<in> pr_roles p
     \<and> (\<exists>r. fst (repo_get (po_approvals P) a (ce_wall E) i) = Inr (Some r) \<and> ap_tenant_id r = pr_tenant_id p
          \<and> ap_requested_by r \<noteq> pr_identity p)"

fun request_calls ::
  "('a, 't, 'i) ports \<Rightarrow> call_env \<Rightarrow> request \<Rightarrow> principal \<Rightarrow> ('a, 't, 'i) gateway \<Rightarrow> ('a, 't, 'i) gateway
    \<Rightarrow> approval_call list \<Rightarrow> bool" where
  "request_calls P E (InspectAction r) p s s' cs = action_effect P E r p s s' cs"
| "request_calls P E (ExecuteAction r) p s s' cs = action_effect P E r p s s' cs"
| "request_calls P E (GetApproval i) p s s' cs = (cs = [Get i])"
| "request_calls P E (ApproveAction i ra) p s s' cs =
     (cs \<in> {[], [Get i]} \<or> cs = [Get i, Approve i (pr_identity p) ra] \<and> entitled P E i p (gw_approvals s))"
| "request_calls P E (RejectAction i ra) p s s' cs =
     (cs \<in> {[], [Get i]} \<or> cs = [Get i, Reject i (pr_identity p) ra] \<and> entitled P E i p (gw_approvals s))"
| "request_calls P E _ p s s' cs = (cs = [])"

abbreviation after_calls :: "'a approval_repo \<Rightarrow> int \<Rightarrow> 'a \<Rightarrow> approval_call list \<Rightarrow> 'a" where
  "after_calls R t \<equiv> foldl (\<lambda>a c. snd (call_step R a t c))"

lemma adjudicate_calls:
  assumes "adjudicate_action operation outcome P E i ra p s = (x, s')"
    and "\<And>a. snd (operation a (ce_wall E) i (pr_identity p) ra) = snd (call_step (po_approvals P) a (ce_wall E) c)"
  shows "gw_next s' = gw_next s \<and> (\<exists>cs. gw_approvals s' = after_calls (po_approvals P) (ce_wall E) (gw_approvals s) cs
    \<and> (cs \<in> {[], [Get i]} \<or> cs = [Get i, c] \<and> entitled P E i p (gw_approvals s)))"
proof (cases "REVIEWER \<in> pr_roles p")
  case False
  then have "s' = s" using assms(1) by (simp add: adjudicate_action_def adjudicable_def has_role_def)
  then show ?thesis by (intro conjI exI [of _ "[]"]) simp_all
next
  case True
  let ?a = "snd (repo_get (po_approvals P) (gw_approvals s) (ce_wall E) i)"
  have got: "?a = after_calls (po_approvals P) (ce_wall E) (gw_approvals s) [Get i]" by simp
  show ?thesis
  proof (cases "entitled P E i p (gw_approvals s)")
    case entitled: True
    then have "adjudicable P E i p s = (Inr (), s\<lparr>gw_approvals := ?a\<rparr>)"
      by (cases "repo_get (po_approvals P) (gw_approvals s) (ce_wall E) i")
        (auto simp: entitled_def adjudicable_def approval_read_def has_role_def)
    then have "gw_next s' = gw_next s" "gw_approvals s' = snd (operation ?a (ce_wall E) i (pr_identity p) ra)"
      using assms(1) by (auto simp: adjudicate_action_def split: prod.splits sum.splits)
    then show ?thesis
      using entitled assms(2) by (intro conjI exI [of _ "[Get i, c]"]) simp_all
  next
    case False
    have "\<exists>e. adjudicable P E i p s = (Inl e, s\<lparr>gw_approvals := ?a\<rparr>)"
    proof (cases "fst (repo_get (po_approvals P) (gw_approvals s) (ce_wall E) i)")
      case (Inl e)
      then show ?thesis using True by (simp add: adjudicable_def approval_read_def has_role_def case_prod_unfold Let_def)
    next
      case (Inr found)
      then show ?thesis
        using True False by (cases found)
          (auto simp: entitled_def adjudicable_def approval_read_def has_role_def case_prod_unfold Let_def)
    qed
    then have "s' = s\<lparr>gw_approvals := ?a\<rparr>" using assms(1) by (auto simp: adjudicate_action_def)
    then show ?thesis by (intro conjI exI [of _ "[Get i]"]) simp_all
  qed
qed

lemma keeps_calls:
  assumes "keeps s s'"
  shows "gw_next s \<le> gw_next s' \<and> (\<exists>cs. gw_approvals s' = after_calls (po_approvals P) (ce_wall E) (gw_approvals s) cs \<and> cs = [])"
  using assms by (simp add: keeps_def)

lemma keeps_answers:
  "keeps s (snd (restore_endpoint P E r p s))" "keeps s (snd (open_incident P E ro p s))"
  "keeps s (snd (list_incidents P p s))" "keeps s (snd (get_incident P i p s))"
  "keeps s (snd (update_incident P E i u p s))"
proof -
  have answer: "keeps s (snd (incident_answer s1 y))" if "keeps s s1" for s1 :: "('a, 'b, 'c) gateway" and y :: "(store_error + 'x) \<times> 'c"
    using that by (auto simp: incident_answer_def split: prod.split sum.split)
  have found: "snd (found_or_404 z) = snd z" for z :: "(incident option, ('a, 'b, 'c) gateway) answer"
    by (auto simp: found_or_404_def split: prod.split sum.split option.split)
  show "keeps s (snd (restore_endpoint P E r p s))"
    by (auto simp: restore_endpoint_def restore_pseudonyms_def case_prod_unfold Let_def split: option.split)
  show "keeps s (snd (open_incident P E ro p s))" "keeps s (snd (list_incidents P p s))"
    "keeps s (snd (get_incident P i p s))" "keeps s (snd (update_incident P E i u p s))"
    by (simp_all add: open_incident_def list_incidents_def get_incident_def update_incident_def found answer
        case_prod_unfold Let_def)
qed

lemma body_state [simp]: "snd (body f x) = snd x"
  by (auto simp: body_def split: prod.split sum.split)

lemma body_result: "body f y = (x, s') \<Longrightarrow> snd y = s'"
  by (metis body_state snd_conv)

lemma serve_calls:
  assumes "serve P E q p s = Inr (x, s')"
  shows "\<exists>cs. gw_next s \<le> gw_next s' \<and> gw_approvals s' = after_calls (po_approvals P) (ce_wall E) (gw_approvals s) cs
    \<and> request_calls P E q p s s' cs"
proof (cases "\<exists>r i ra. q = InspectAction r \<or> q = ExecuteAction r \<or> q = GetApproval i \<or> q = ApproveAction i ra \<or> q = RejectAction i ra")
  case False
  have "keeps s s'"
    using assms False keeps_inspect_content [of P E _ _ p s] keeps_inspect_context_batch [of P E _ p s] keeps_answers [of s]
    by (cases q) (auto simp: raising_def yields_def dest!: body_result split: sum.splits)
  moreover have "request_calls P E q p s s' []" using False by (cases q) auto
  ultimately show ?thesis by (intro exI [of _ "[]"]) (simp add: keeps_def)
next
  case True
  then consider (inspect) r where "q = InspectAction r" | (execute) r where "q = ExecuteAction r"
    | (get) i where "q = GetApproval i" | (approve) i ra where "q = ApproveAction i ra"
    | (reject) i ra where "q = RejectAction i ra" by blast
  then show ?thesis
  proof cases
    case (inspect r)
    obtain d where "inspect_action P E r p s = Inr (d, s')"
      using assms inspect by (auto simp: raising_def split: sum.splits)
    from inspect_action_effect [OF this] show ?thesis using inspect by (auto simp: action_effect_def)
  next
    case (execute r)
    have "\<exists>cs. action_effect P E r p s s' cs"
    proof (cases "ar_tool r = CODE_TOOL")
      case False
      then have "s' = s" using assms execute by (auto simp: execute_action_def body_def)
      then show ?thesis using action_effect_none by blast
    next
      case code: True
      obtain outcome ran where run: "execute P E r p s = Inr ((outcome, ran), s')"
        using assms execute code
        by (auto simp: execute_action_def body_def split: sum.splits option.splits prod.splits)
      have "s' = s \<or> (\<exists>d s1. inspect_action P E r p s = Inr (d, s1) \<and> (s' = s1 \<or> keeps s1 s'))"
        using run by (auto simp: execute_def Let_def split: option.splits if_splits sum.splits)
      then show ?thesis
      proof (elim disjE exE conjE)
        assume "s' = s"
        then show ?thesis using action_effect_none by blast
      next
        fix d s1 assume "inspect_action P E r p s = Inr (d, s1)" "s' = s1"
        then show ?thesis using inspect_action_effect by blast
      next
        fix d s1 assume i: "inspect_action P E r p s = Inr (d, s1)" and k: "keeps s1 s'"
        obtain cs where "action_effect P E r p s s1 cs" using inspect_action_effect [OF i] by blast
        then have "action_effect P E r p s s' cs" using k by (auto simp: action_effect_def keeps_def)
        then show ?thesis by blast
      qed
    qed
    then show ?thesis using execute by (auto simp: action_effect_def)
  next
    case (get i)
    have "s' = s\<lparr>gw_approvals := snd (repo_get (po_approvals P) (gw_approvals s) (ce_wall E) i)\<rparr>"
      using assms get
      by (auto simp: get_approval_def approval_read_def case_prod_unfold Let_def dest!: body_result
          split: sum.splits option.splits if_splits)
    then show ?thesis using get by simp
  next
    case (approve i ra)
    obtain y where "adjudicate_action (repo_approve (po_approvals P)) APPROVED P E i ra p s = (y, s')"
      using assms approve by (cases "approve_action P E i ra p s") (auto simp: approve_action_def dest!: body_result)
    from adjudicate_calls [OF this, of "Approve i (pr_identity p) ra"] show ?thesis
      using approve by (auto simp: eq_commute [of "gw_next s"])
  next
    case (reject i ra)
    obtain y where "adjudicate_action (repo_reject (po_approvals P)) REJECTED P E i ra p s = (y, s')"
      using assms reject by (cases "reject_action P E i ra p s") (auto simp: reject_action_def dest!: body_result)
    from adjudicate_calls [OF this, of "Reject i (pr_identity p) ra"] show ?thesis
      using reject by auto
  qed
qed

section \<open>Histories of requests\<close>

text \<open>
  The requests a gateway served, each with its environment and its caller, in the order of time;
  the last argument is the moment of the latest.
\<close>

type_synonym exchange = "call_env \<times> request \<times> principal"

inductive served ::
  "('a, 't, 'i) ports \<Rightarrow> ('a, 't, 'i) gateway \<Rightarrow> exchange list \<Rightarrow> ('a, 't, 'i) gateway \<Rightarrow> int \<Rightarrow> bool"
  for P s0 where
  start: "served P s0 [] s0 t"
| request: "served P s0 h s t \<Longrightarrow> t \<le> ce_wall E \<Longrightarrow> serve P E q p s = Inr (x, s')
    \<Longrightarrow> served P s0 (h @ [(E, q, p)]) s' (ce_wall E)"

inductive_cases served_NilE: "served P s0 [] s t"

text \<open>Who stands behind an approval, given the requests so far.\<close>

definition proposed :: "('a, 't, 'i) ports \<Rightarrow> exchange set \<Rightarrow> approval \<Rightarrow> bool" where
  "proposed P h a \<longleftrightarrow> (\<exists>(E, q, p) \<in> h. \<exists>r. (q = InspectAction r \<or> q = ExecuteAction r)
     \<and> digest_of P r = ap_action_digest a \<and> pr_tenant_id p = ap_tenant_id a \<and> pr_identity p = ap_requested_by a)"

definition reviewed :: "exchange set \<Rightarrow> uuid \<Rightarrow> approval \<Rightarrow> bool" where
  "reviewed h i a \<longleftrightarrow> (\<exists>(E, q, p) \<in> h. (\<exists>ra. q = ApproveAction i ra) \<and> REVIEWER \<in> pr_roles p
     \<and> pr_tenant_id p = ap_tenant_id a \<and> pr_identity p \<noteq> ap_requested_by a \<and> ap_reviewer a = Some (pr_identity p))"

lemma reviewed_mono: "reviewed h i a \<Longrightarrow> h \<subseteq> h' \<Longrightarrow> reviewed h' i a"
  unfolding reviewed_def by blast

lemma proposed_mono: "proposed P h a \<Longrightarrow> h \<subseteq> h' \<Longrightarrow> proposed P h' a"
  unfolding proposed_def by blast

text \<open>What matters of an approval to those predicates does not change with its status.\<close>

definition same_parties :: "approval \<Rightarrow> approval \<Rightarrow> bool" where
  "same_parties a b \<longleftrightarrow> ap_action_digest a = ap_action_digest b \<and> ap_tenant_id a = ap_tenant_id b
     \<and> ap_requested_by a = ap_requested_by b"

lemma proposed_same: "proposed P h a \<Longrightarrow> same_parties a b \<Longrightarrow> proposed P h b"
  by (auto simp: proposed_def same_parties_def)

lemma reviewed_same: "reviewed h i a \<Longrightarrow> same_parties a b \<Longrightarrow> ap_reviewer b = ap_reviewer a \<Longrightarrow> reviewed h i b"
  by (auto simp: reviewed_def same_parties_def)

lemma same_parties_simps [simp]:
  "same_parties a a" "same_parties a (expire t a)" "same_parties a (a\<lparr>ap_status := st\<rparr>)"
  "same_parties a (adjudicate_record rv ra outcome a)" "same_parties a (expire t (adjudicate_record rv ra outcome a))"
  by (simp_all add: same_parties_def adjudicate_record_def)

context approval_repository
begin

text \<open>Every approval was proposed, and once granted it was reviewed by someone else.\<close>

definition four_eyes :: "('s, 't, 'i) ports \<Rightarrow> exchange set \<Rightarrow> 's \<Rightarrow> int \<Rightarrow> bool" where
  "four_eyes P h a t \<longleftrightarrow> (\<forall>i r. seen a t i = Some r \<longrightarrow> proposed P h r
     \<and> (ap_status r \<in> {APPROVED, CONSUMED} \<longrightarrow> reviewed h i r))"

lemma four_eyes_mono: "four_eyes P h a t \<Longrightarrow> h \<subseteq> h' \<Longrightarrow> four_eyes P h' a t"
  unfolding four_eyes_def using proposed_mono reviewed_mono by blast

lemma four_eyes_later:
  assumes "inv a" and "t \<le> t'" and "four_eyes P h a t"
  shows "four_eyes P h a t'"
  unfolding four_eyes_def
proof (intro allI impI)
  fix i r assume "seen a t' i = Some r"
  then obtain r0 where r0: "seen a t i = Some r0" "r = expire t' r0"
    using seen_later [OF assms(1,2)] by auto
  have "ap_status r \<in> {APPROVED, CONSUMED} \<Longrightarrow> ap_status r0 \<in> {APPROVED, CONSUMED}"
    by (auto simp: r0(2) expire_status split: if_splits)
  then show "proposed P h r \<and> (ap_status r \<in> {APPROVED, CONSUMED} \<longrightarrow> reviewed h i r)"
    using assms(3) r0 proposed_same [of P h r0 r] reviewed_same [of h i r0 r]
    by (auto simp: four_eyes_def)
qed

text \<open>The calls that keep it: a creation someone proposed, and an adjudication by someone entitled.\<close>

definition backed :: "('s, 't, 'i) ports \<Rightarrow> exchange set \<Rightarrow> 's \<Rightarrow> int \<Rightarrow> approval_call \<Rightarrow> bool" where
  "backed P h a t c \<longleftrightarrow>
     (\<forall>i d tn rq. c = Create i d tn rq \<longrightarrow> seen a t i = None
        \<and> (\<forall>r. ap_action_digest r = d \<and> ap_tenant_id r = tn \<and> ap_requested_by r = rq \<longrightarrow> proposed P h r))
   \<and> (\<forall>i rv ra r. c = Approve i rv ra \<and> seen a t i = Some r \<longrightarrow>
        reviewed h i (r\<lparr>ap_reviewer := Some rv\<rparr>))"

lemma four_eyes_step:
  assumes "inv a" and "four_eyes P h a t" and "backed P h a t c"
  shows "four_eyes P h (snd (call_step repo a t c)) t" and "inv (snd (call_step repo a t c))"
    and "seen (snd (call_step repo a t c)) t i \<noteq> None \<Longrightarrow> seen a t i \<noteq> None \<or> i \<in> set (created_ids [c])"
proof -
  have fresh: "\<forall>i \<in> set (created_ids [c]). seen a t i = None"
    using assms(3) by (cases c) (auto simp: backed_def)
  show "inv (snd (call_step repo a t c))" by (rule call_step_inv [OF assms(1) fresh])
  note change = call_step_seen [OF assms(1) fresh]
  show "seen a t i \<noteq> None \<or> i \<in> set (created_ids [c])" if "seen (snd (call_step repo a t c)) t i \<noteq> None"
    using that change [of i] by fastforce
  show "four_eyes P h (snd (call_step repo a t c)) t"
    unfolding four_eyes_def
  proof (intro allI impI)
    fix i r' assume "seen (snd (call_step repo a t c)) t i = Some r'"
    from change [OF this]
    show "proposed P h r' \<and> (ap_status r' \<in> {APPROVED, CONSUMED} \<longrightarrow> reviewed h i r')"
    proof (elim disjE exE conjE)
      assume "seen a t i = Some r'"
      then show ?thesis using assms(2) by (simp add: four_eyes_def)
    next
      fix d tn rq assume "c = Create i d tn rq" "ap_status r' \<in> {PENDING, EXPIRED}"
        "ap_action_digest r' = d" "ap_tenant_id r' = tn" "ap_requested_by r' = rq"
      then show ?thesis using assms(3) by (auto simp: backed_def)
    next
      fix r rv ra assume c: "c = Approve i rv ra" "seen a t i = Some r" "ap_status r = PENDING"
        and r': "r' = expire t (adjudicate_record rv ra APPROVED r)"
      have "reviewed h i (r\<lparr>ap_reviewer := Some rv\<rparr>)" using assms(3) c by (simp add: backed_def)
      then have "reviewed h i r'"
        using c(3) by (auto simp: r' reviewed_def adjudicate_record_def)
      moreover have "proposed P h r'"
        using assms(2) c(2) proposed_same [of P h r r'] by (simp add: four_eyes_def r')
      ultimately show ?thesis by simp
    next
      fix r rv ra assume c: "c = Reject i rv ra" "seen a t i = Some r" "ap_status r = PENDING"
        and r': "r' = expire t (adjudicate_record rv ra REJECTED r)"
      have "proposed P h r'"
        using assms(2) c(2) proposed_same [of P h r r'] by (simp add: four_eyes_def r')
      moreover have "ap_status r' = REJECTED"
        using c(3) by (simp add: r' adjudicate_record_def expire_status approval_open_def)
      ultimately show ?thesis by simp
    next
      fix r d tn assume "c = Consume i d tn" "seen a t i = Some r" "consumable d tn r"
        and r': "r' = r\<lparr>ap_status := CONSUMED\<rparr>"
      then show ?thesis
        using assms(2) proposed_same [of P h r r'] reviewed_same [of h i r r']
        by (auto simp: four_eyes_def consumable_def)
    qed
  qed
qed

text \<open>The invariant of a history: identifiers still to be drawn name no approval.\<close>

definition history_ok :: "('s, 't, 'i) ports \<Rightarrow> exchange set \<Rightarrow> ('s, 't, 'i) gateway \<Rightarrow> int \<Rightarrow> bool" where
  "history_ok P h s t \<longleftrightarrow> inv (gw_approvals s) \<and> four_eyes P h (gw_approvals s) t
     \<and> (\<forall>i. gw_next s \<le> i \<longrightarrow> seen (gw_approvals s) t i = None)"

lemma history_ok_later: "history_ok P h s t \<Longrightarrow> t \<le> t' \<Longrightarrow> history_ok P h s t'"
  unfolding history_ok_def using four_eyes_later seen_mono_None by blast

lemma four_eyes_calls:
  assumes "inv a" and "four_eyes P h a t" and "cs = [] \<or> cs = [c] \<and> backed P h a t c"
  shows "inv (after_calls repo t a cs)" and "four_eyes P h (after_calls repo t a cs) t"
    and "seen (after_calls repo t a cs) t i \<noteq> None \<Longrightarrow> seen a t i \<noteq> None \<or> i \<in> set (created_ids cs)"
proof -
  have "inv (after_calls repo t a cs) \<and> four_eyes P h (after_calls repo t a cs) t
    \<and> (seen (after_calls repo t a cs) t i \<noteq> None \<longrightarrow> seen a t i \<noteq> None \<or> i \<in> set (created_ids cs))" for i
  proof (cases "cs = []")
    case False
    then have c: "cs = [c]" "backed P h a t c" using assms(3) by auto
    show ?thesis using four_eyes_step [OF assms(1,2) c(2)] by (simp only: c foldl.simps) blast
  qed (use assms in simp)
  then show "inv (after_calls repo t a cs)" and "four_eyes P h (after_calls repo t a cs) t"
    and "seen (after_calls repo t a cs) t i \<noteq> None \<Longrightarrow> seen a t i \<noteq> None \<or> i \<in> set (created_ids cs)"
    by blast+
qed

lemma entitled_backed:
  assumes "po_approvals P = repo" and "inv a" and "entitled P E i p a" and "(E, ApproveAction i ra, p) \<in> h"
  shows "backed P h (snd (repo_get repo a (ce_wall E) i)) (ce_wall E) (Approve i (pr_identity p) ra)"
proof -
  obtain r s' where get: "repo_get repo a (ce_wall E) i = (Inr (Some r), s')" "ap_tenant_id r = pr_tenant_id p"
    "ap_requested_by r \<noteq> pr_identity p" "REVIEWER \<in> pr_roles p"
    using assms(1,3) by (cases "repo_get repo a (ce_wall E) i") (auto simp: entitled_def)
  have "seen (snd (repo_get repo a (ce_wall E) i)) (ce_wall E) i = Some r"
    using get_result [OF assms(2) get(1)] get_state [OF assms(2) order_refl, of "ce_wall E" i i] by simp
  then show ?thesis
    using get assms(4) by (auto simp: backed_def reviewed_def intro!: bexI [of _ "(E, ApproveAction i ra, p)"])
qed

lemma history_step:
  assumes P: "po_approvals P = repo" and ok: "history_ok P h s (ce_wall E)"
    and run: "serve P E q p s = Inr (x, s')"
  shows "history_ok P (insert (E, q, p) h) s' (ce_wall E)"
proof -
  let ?t = "ce_wall E" and ?h = "insert (E, q, p) h" and ?a = "gw_approvals s"
  have ok: "inv ?a" "four_eyes P ?h ?a ?t" "\<forall>i. gw_next s \<le> i \<longrightarrow> seen ?a ?t i = None"
    using ok four_eyes_mono [of P h ?a ?t ?h] by (auto simp: history_ok_def)
  obtain cs where cs: "gw_next s \<le> gw_next s'" "gw_approvals s' = after_calls repo ?t ?a cs"
    "request_calls P E q p s s' cs"
    using serve_calls [OF run] P by auto
  have goal: "history_ok P ?h s' ?t"
    if "cs = [] \<or> cs = [c] \<and> backed P ?h ?a ?t c" "\<forall>i \<in> set (created_ids cs). i < gw_next s'" for c
    using four_eyes_calls [OF ok(1,2) that(1)] ok(3) cs(1,2) that(2) unfolding history_ok_def
    by (metis leD le_trans)
  have after_get: "inv (snd (repo_get repo ?a ?t i))" "four_eyes P ?h (snd (repo_get repo ?a ?t i)) ?t"
    "\<forall>j. gw_next s \<le> j \<longrightarrow> seen (snd (repo_get repo ?a ?t i)) ?t j = None" for i
    using get_inv [OF ok(1)] get_state [OF ok(1) order_refl] ok(2,3) by (simp_all add: four_eyes_def)
  have adjudicated: "history_ok P ?h s' ?t" if "cs = [Get i, c]" "created_ids [c] = []"
      "backed P ?h (snd (repo_get repo ?a ?t i)) ?t c" for i c
    using four_eyes_step [OF after_get(1,2) that(3)] after_get(3) cs(1,2) that(1,2) unfolding history_ok_def
    by (auto simp del: call_step.simps(4,5)) (metis le_trans not_None_eq)
  have get: "backed P ?h ?a ?t (Get i)" for i by (simp add: backed_def)
  have action: "history_ok P ?h s' ?t"
    if effect: "action_effect P E r p s s' cs" and q: "q = InspectAction r \<or> q = ExecuteAction r" for r
  proof -
    consider "cs = []" | i where "gw_next s \<le> i" "i < gw_next s'" "cs = [Create i (digest_of P r) (pr_tenant_id p) (pr_identity p)]"
      | token where "cs = [Consume token (digest_of P r) (pr_tenant_id p)]"
      using effect by (auto simp: action_effect_def)
    then show ?thesis
    proof cases
      case (2 i)
      have "backed P ?h ?a ?t (Create i (digest_of P r) (pr_tenant_id p) (pr_identity p))"
        using ok(3) 2(1) q by (auto simp: backed_def proposed_def)
      then show ?thesis using goal 2 by simp
    qed (use goal in \<open>auto simp: backed_def\<close>)
  qed
  show ?thesis
  proof (cases q)
    case (ApproveAction i ra)
    then show ?thesis
      using cs(3) goal [OF _ _, of "Get i"] get adjudicated [of i "Approve i (pr_identity p) ra"]
        entitled_backed [OF P ok(1), of E i p ra ?h] by auto
  next
    case (RejectAction i ra)
    have "backed P ?h b ?t (Reject i (pr_identity p) ra)" for b by (simp add: backed_def)
    then show ?thesis
      using RejectAction cs(3) goal [OF _ _, of "Get i"] get adjudicated [of i "Reject i (pr_identity p) ra"] by auto
  qed (use cs(3) goal get action in auto)
qed

lemma served_history_ok:
  assumes "served P s0 h s t" and "po_approvals P = repo" and "\<And>t. history_ok P {} s0 t"
  shows "history_ok P (set h) s t"
  using assms(1)
proof (induction rule: served.induct)
  case (start t)
  then show ?case using assms(3) by simp
next
  case (request h s t E q p x s')
  from history_step [OF assms(2) history_ok_later [OF request.IH request.hyps(2)] request.hyps(3)]
  show ?case by simp
qed

end

section \<open>An action proposed, approved and allowed\<close>

lemma inspect_action_eval:
  assumes "\<not> asserts_another_identity (ar_identity r) (ar_tenant_id r) p" and "accepting P s = (True, sa)"
    and "within_quota E sa p = Inr (True, s1)" and "eb_consume (gw_budget s1) (pr_tenant_id p, ar_trace_id r) = Inr (True, b)"
  shows "inspect_action P E r p s = Inr (decide_by_policy P E r p (s1\<lparr>gw_budget := b\<rparr>) (digest_of P r))"
  using assms by (simp add: inspect_action_def)

text \<open>The deployment with no approval yet; a proposal, a review of it, and the action itself.\<close>

definition fresh_gateway :: "(approval_store, example_transport, incident_store) gateway" where
  "fresh_gateway = new_gateway example_ports (new_approval_store 300) example_transport (new_incident_store 10)"

definition example_proposal :: action_request where
  "example_proposal = example_delete\<lparr>ar_approval_token := None\<rparr>"

definition example_action :: action_request where
  "example_action = example_delete\<lparr>ar_approval_token := Some 0\<rparr>"

definition example_reviewer :: principal where
  "example_reviewer = \<lparr>pr_identity = lit ''eve'', pr_tenant_id = lit ''acme'', pr_roles = {REVIEWER},
     pr_clearance = INTERNAL\<rparr>"

lemma example_story_fields [simp]:
  "ar_identity example_proposal = lit ''ann''" "ar_identity example_action = lit ''ann''"
  "ar_tenant_id example_proposal = lit ''acme''" "ar_tenant_id example_action = lit ''acme''"
  "ar_approval_token example_proposal = None" "ar_approval_token example_action = Some 0"
  "ar_side_effect example_action = SE_DESTRUCTIVE"
  "ar_trace_id example_proposal = 2" "ar_trace_id example_action = 2"
  "digest_of example_ports example_proposal = digest_of example_ports example_delete"
  "digest_of example_ports example_action = digest_of example_ports example_delete"
  "pr_identity example_reviewer = lit ''eve''" "pr_tenant_id example_reviewer = lit ''acme''"
  "pr_roles example_reviewer = {REVIEWER}"
  by (simp_all add: example_proposal_def example_action_def example_delete_def digest_of_def action_digest_def
      canonical_action_payload_def example_reviewer_def)

lemma example_story_verdicts:
  "action_verdict example_parsers example_proposal {OPERATOR} limits = (REQUIRE_APPROVAL, lit ''risky_action_requires_approval'')"
  "action_verdict example_parsers example_action {OPERATOR} limits = (REQUIRE_APPROVAL, lit ''risky_action_requires_approval'')"
  by (simp_all add: action_verdict_def example_proposal_def example_action_def example_delete_def TOOLS_def OPERATORS_def
      argument_violation_def validate_arguments_def only_fields_def str_field_def sized_def record_id_ok_def
      APPROVAL_EFFECTS_def)
    (simp_all add: lit_def name_chars_def ascii_letter_def ascii_digit_def one_of_def)

lemma example_story_policy:
  "action_policy example_ports example_env example_proposal example_operator = Inr (REQUIRE_APPROVAL, lit ''risky_action_requires_approval'')"
  "action_policy example_ports example_env example_action example_operator = Inr (REQUIRE_APPROVAL, lit ''risky_action_requires_approval'')"
  by (simp_all add: action_policy_def local_policy_engine_def local_action_verdict_def example_story_verdicts)

text \<open>What the guards need of a gateway to let one more action of the example through.\<close>

definition spare :: "(approval_store, example_transport, incident_store) gateway \<Rightarrow> nat \<Rightarrow> bool" where
  "spare s n \<longleftrightarrow> sk_pending (gw_audit s) = [] \<and> 0 < sk_maxlen (gw_audit s)
     \<and> rl_limit (gw_identity_quota s) = 600 \<and> rl_limit (gw_tenant_quota s) = 3000
     \<and> rl_max_keys (gw_identity_quota s) = DEFAULT_MAX_KEYS \<and> rl_max_keys (gw_tenant_quota s) = DEFAULT_MAX_KEYS
     \<and> rl_windows (gw_identity_quota s) = (if n = 0 then [] else [((lit ''acme'', lit ''ann''), (0, int n))])
     \<and> rl_windows (gw_tenant_quota s) = (if n = 0 then [] else [(lit ''acme'', (0, int n))])
     \<and> eb_spent (gw_budget s) = (if n = 0 then [] else [((lit ''acme'', 2), int n)])
     \<and> eb_max_keys (gw_budget s) = DEFAULT_MAX_KEYS \<and> eb_max_actions (gw_budget s) = 25
     \<and> rl_window (gw_identity_quota s) = 60 \<and> rl_window (gw_tenant_quota s) = 60"

lemma example_now [simp]: "ce_now example_env = 0"
  by (simp add: example_env_def)

lemma spare_fresh: "spare fresh_gateway 0"
  by (simp add: spare_def fresh_gateway_def example_defs)

lemma spare_inspect:
  assumes "spare s n" and "n < 20" and "r \<in> {example_proposal, example_action}"
  shows "\<exists>s1. inspect_action example_ports example_env r example_operator s
      = Inr (settle_approval example_ports example_env r example_operator s1 (digest_of example_ports r)
          REQUIRE_APPROVAL (lit ''risky_action_requires_approval''))
    \<and> gw_approvals s1 = gw_approvals s \<and> gw_next s1 = gw_next s \<and> spare s1 (Suc n)"
proof -
  have acc: "accepting example_ports s = (True, s)"
    using assms(1) by (simp add: accepting_def sk_accepting_def sk_flush_def spare_def)
  obtain s0 where q: "within_quota example_env s example_operator = Inr (True, s0)"
    and s0: "s0 = s\<lparr>gw_identity_quota := (gw_identity_quota s)\<lparr>rl_windows := [((lit ''acme'', lit ''ann''), (0, int (Suc n)))]\<rparr>,
         gw_tenant_quota := (gw_tenant_quota s)\<lparr>rl_windows := [(lit ''acme'', (0, int (Suc n)))]\<rparr>\<rparr>"
    using assms(1,2)
    by (auto simp: within_quota_def rl_allow_def rl_current_def od_move_to_end_def od_evict_drop spare_def
        DEFAULT_MAX_KEYS_def)
  obtain b where b: "eb_consume (gw_budget s0) (pr_tenant_id example_operator, ar_trace_id r) = Inr (True, b)"
    and b': "b = (gw_budget s)\<lparr>eb_spent := [((lit ''acme'', 2), int (Suc n))]\<rparr>"
    using assms s0
    by (auto simp: eb_consume_def eb_spent_of_def od_move_to_end_def od_evict_drop DEFAULT_MAX_KEYS_def spare_def)
  have "\<not> asserts_another_identity (ar_identity r) (ar_tenant_id r) example_operator"
    using assms(3) by (auto simp: asserts_another_identity_def)
  from inspect_action_eval [OF this acc q b] show ?thesis
    using assms(1,3) s0 b' example_story_policy
    by (intro exI [of _ "s0\<lparr>gw_budget := b\<rparr>"]) (auto simp: decide_by_policy_def spare_def)
qed
lemma spare_decide:
  "spare s n \<Longrightarrow> decide_action example_ports example_env r p s v reason digest a = (d, s') \<Longrightarrow>
    spare s' n \<and> gw_approvals s' = gw_approvals s \<and> sd_verdict d = v"
  by (auto simp: decide_action_def Let_def case_prod_unfold spare_def sk_publish_def sk_deliver_def sk_flush_def
      recorded_def mt_send_def)

lemma spare_approvals [simp]: "spare (s\<lparr>gw_approvals := a\<rparr>) n = spare s n" "spare (snd (fresh_id s)) n = spare s n"
  by (simp_all add: spare_def fresh_id_def)

text \<open>The store along the story: proposed, approved.\<close>

definition story_store :: "approval_status \<Rightarrow> str option \<Rightarrow> str option \<Rightarrow> approval_store" where
  "story_store status reviewer rationale = (new_approval_store 300)\<lparr>as_records :=
     [(0, (new_approval 300 0 0 (digest_of example_ports example_delete) (lit ''acme'') (lit ''ann''))
        \<lparr>ap_status := status, ap_reviewer := reviewer, ap_rationale := rationale\<rparr>)]\<rparr>"

lemma story_create:
  "as_create (new_approval_store 300) 0 0 (digest_of example_ports example_delete) (lit ''acme'') (lit ''ann'')
   = (Inr (new_approval 300 0 0 (digest_of example_ports example_delete) (lit ''acme'') (lit ''ann'')),
      story_store PENDING None None)"
  by (simp add: as_create_def Let_def new_approval_store_def evict_records.simps DEFAULT_MAX_RECORDS_def story_store_def
      new_approval_def)

lemma story_read: "as_get (story_store PENDING None None) 0 0
   = (Inr (Some (snd (hd (as_records (story_store PENDING None None))))), story_store PENDING None None)"
  by (simp add: as_get_def Let_def story_store_def new_approval_store_def new_approval_def expire_def approval_open_def)

lemma story_approve: "\<exists>a. as_approve (story_store PENDING None None) 0 0 (lit ''eve'') (lit ''ok'')
   = (Inr (Some a), story_store APPROVED (Some (lit ''eve'')) (Some (lit ''ok''))) \<and> ap_status a = APPROVED"
  by (simp add: as_approve_def Let_def as_adjudicate_def adjudicate_record_def story_store_def new_approval_store_def
      new_approval_def expire_def approval_open_def)

lemma story_consume: "\<exists>a. as_consume (story_store APPROVED (Some (lit ''eve'')) (Some (lit ''ok''))) 0 0
    (digest_of example_ports example_delete) (lit ''acme'') = (Inr True, a)"
  by (simp add: as_consume_def Let_def story_store_def new_approval_store_def new_approval_def expire_def approval_open_def)

lemma story_proposed:
  "\<exists>d s. inspect_action example_ports example_env example_proposal example_operator fresh_gateway = Inr (d, s)
    \<and> spare s 1 \<and> gw_approvals s = story_store PENDING None None"
proof -
  obtain s1 where s1: "inspect_action example_ports example_env example_proposal example_operator fresh_gateway
      = Inr (settle_approval example_ports example_env example_proposal example_operator s1
          (digest_of example_ports example_delete) REQUIRE_APPROVAL (lit ''risky_action_requires_approval''))"
    "gw_approvals s1 = new_approval_store 300" "gw_next s1 = 0" "spare s1 1"
    using spare_inspect [OF spare_fresh, of example_proposal] by (auto simp: fresh_gateway_def new_gateway_def Let_def)
  then show ?thesis
    using spare_decide [of "(snd (fresh_id s1))\<lparr>gw_approvals := story_store PENDING None None\<rparr>" 1]
    by (simp add: settle_approval_def Let_def case_prod_unfold story_create memory_repo_def)
      (metis prod.collapse gateway.select_convs gateway.simps)
qed

lemma story_approved:
  assumes "spare s n" and "gw_approvals s = story_store PENDING None None"
  shows "\<exists>a s'. approve_action example_ports example_env 0 (lit ''ok'') example_reviewer s = (Inr a, s')
    \<and> spare s' n \<and> gw_approvals s' = story_store APPROVED (Some (lit ''eve'')) (Some (lit ''ok''))"
  using story_approve assms
  by (auto simp: approve_action_def adjudicate_action_def adjudicable_def approval_read_def memory_repo_def
      has_role_def story_read adjudicated_def)
    (simp_all add: story_store_def new_approval_def lit_def)

lemma story_allowed:
  assumes "spare s 1" and "gw_approvals s = story_store APPROVED (Some (lit ''eve'')) (Some (lit ''ok''))"
  shows "\<exists>d s'. inspect_action example_ports example_env example_action example_operator s = Inr (d, s')
    \<and> sd_verdict d = ALLOW"
proof -
  obtain s1 where s1: "inspect_action example_ports example_env example_action example_operator s
      = Inr (settle_approval example_ports example_env example_action example_operator s1
          (digest_of example_ports example_delete) REQUIRE_APPROVAL (lit ''risky_action_requires_approval''))"
    "gw_approvals s1 = story_store APPROVED (Some (lit ''eve'')) (Some (lit ''ok''))"
    using spare_inspect [OF assms(1), of example_action] assms(2) by auto
  with story_consume show ?thesis
    by (auto simp: settle_approval_def Let_def case_prod_unfold memory_repo_def decide_action_def)
qed

definition example_history :: "exchange list" where
  "example_history = [(example_env, InspectAction example_proposal, example_operator),
     (example_env, ApproveAction 0 (lit ''ok''), example_reviewer)]"

lemma example_story:
  "\<exists>s d s'. served example_ports fresh_gateway
      example_history s 0
    \<and> inspect_action example_ports example_env example_action example_operator s = Inr (d, s') \<and> sd_verdict d = ALLOW"
proof -
  obtain d s1 where s1: "inspect_action example_ports example_env example_proposal example_operator fresh_gateway = Inr (d, s1)"
    "spare s1 1" "gw_approvals s1 = story_store PENDING None None"
    using story_proposed by blast
  obtain a s2 where s2: "approve_action example_ports example_env 0 (lit ''ok'') example_reviewer s1 = (Inr a, s2)"
    "spare s2 1" "gw_approvals s2 = story_store APPROVED (Some (lit ''eve'')) (Some (lit ''ok''))"
    using story_approved [OF s1(2,3)] by blast
  have "served example_ports fresh_gateway [(example_env, InspectAction example_proposal, example_operator)] s1 0"
    using served.request [OF served.start, of 0 example_env example_ports "InspectAction example_proposal" example_operator
        fresh_gateway] s1(1) by (simp add: raising_def)
  from served.request [OF this, of example_env "ApproveAction 0 (lit ''ok'')" example_reviewer] s2(1)
  have "served example_ports fresh_gateway
      example_history s2 0"
    by (simp add: body_def example_history_def)
  with story_allowed [OF s2(2,3)] show ?thesis by blast
qed

section \<open>Claims\<close>

text \<open>
  C16: An action with a side effect takes two people. Take any history of requests that a new
  gateway with the in-memory approval store served, whoever made them and whatever the policy
  decision point and the clock answered. If a request for an action with a side effect is then
  allowed under the built-in policy, the history has a request by someone of the caller's tenant
  that proposed an action of exactly the same digest, and an approval, of the token presented, by a
  reviewer of that tenant who is not the proposer.
\<close>

theorem risky_action_four_eyes:
  assumes "po_approvals P = memory_repo"
    and "served P (new_gateway P (new_approval_store ttl) transport incidents) h s t" and "t \<le> ce_wall E"
    and "ce_policy E = local_policy_engine (po_parsers P) (po_settings P)"
    and "inspect_action P E r p s = Inr (d, s')" and "sd_verdict d = ALLOW" and "ar_side_effect r \<in> APPROVAL_EFFECTS"
  shows "\<exists>token E1 q1 r1 proposer E2 rationale reviewer. ar_approval_token r = Some token
    \<and> (E1, q1, proposer) \<in> set h \<and> (q1 = InspectAction r1 \<or> q1 = ExecuteAction r1) \<and> digest_of P r1 = digest_of P r
    \<and> pr_tenant_id proposer = pr_tenant_id p
    \<and> (E2, ApproveAction token rationale, reviewer) \<in> set h \<and> REVIEWER \<in> pr_roles reviewer
    \<and> pr_tenant_id reviewer = pr_tenant_id p \<and> pr_identity reviewer \<noteq> pr_identity proposer"
proof -
  let ?s0 = "new_gateway P (new_approval_store ttl) transport incidents"
  have "mem.history_ok P {} ?s0 t" for t
    by (simp add: mem.history_ok_def mem.four_eyes_def new_gateway_def Let_def as_seen_def as_inv_def
        new_approval_store_def DEFAULT_MAX_RECORDS_def)
  from mem.history_ok_later [OF mem.served_history_ok [OF assms(2,1) this] assms(3)]
  have ok: "as_inv (gw_approvals s)" "mem.four_eyes P (set h) (gw_approvals s) (ce_wall E)"
    by (simp_all add: mem.history_ok_def)
  have "ar_side_effect r \<notin> {SE_NONE, SE_READ}" using assms(7) by (auto simp: APPROVAL_EFFECTS_def)
  from local.allowed_action [OF assms(4-6) this] obtain token where
    token: "ar_approval_token r = Some token"
    "repo_consume memory_repo (gw_approvals s) (ce_wall E) token (digest_of P r) (pr_tenant_id p) = (Inr True, gw_approvals s')"
    using assms(1) by auto
  obtain a where a: "as_seen (gw_approvals s) (ce_wall E) token = Some a" "consumable (digest_of P r) (pr_tenant_id p) a"
    using mem.consume_result [OF ok(1) token(2)] by auto
  have "proposed P (set h) a" "reviewed (set h) token a"
    using ok(2) a by (auto simp: mem.four_eyes_def consumable_def)
  then show ?thesis
    using token(1) a(2) unfolding proposed_def reviewed_def consumable_def by fastforce
qed

theorem risky_action_four_eyes_witness:
  "\<exists>s d s'. inspect_action example_ports example_env example_action example_operator s = Inr (d, s') \<and> sd_verdict d = ALLOW
    \<and> (\<exists>token E1 q1 r1 proposer E2 rationale reviewer. ar_approval_token example_action = Some token
    \<and> (E1, q1, proposer) \<in> set example_history
    \<and> (q1 = InspectAction r1 \<or> q1 = ExecuteAction r1) \<and> digest_of example_ports r1 = digest_of example_ports example_action
    \<and> pr_tenant_id proposer = pr_tenant_id example_operator
    \<and> (E2, ApproveAction token rationale, reviewer) \<in> set example_history \<and> REVIEWER \<in> pr_roles reviewer
    \<and> pr_tenant_id reviewer = pr_tenant_id example_operator \<and> pr_identity reviewer \<noteq> pr_identity proposer)"
  (is "\<exists>s d s'. ?allowed s d s' \<and> _ d \<and> ?people")
proof -
  obtain s d s' where story: "served example_ports fresh_gateway example_history s 0" "?allowed s d s'" "sd_verdict d = ALLOW"
    using example_story by blast
  have ?people
    by (rule risky_action_four_eyes [OF _ story(1) [unfolded fresh_gateway_def] _ _ story(2,3)])
      (simp_all add: APPROVAL_EFFECTS_def)
  with story(2,3) show ?thesis by blast
qed

end
