(* ===== verification/Stores.thy ===== *)
theory Stores
  imports Incidents "HOL-Library.Product_Lexorder"
begin

text \<open>
  The SQL stores of \<^verbatim>\<open>stores.py\<close>: the \<^verbatim>\<open>Database\<close> with its connection, schema and failures,
  and over it the approval store, which interprets the contract of the approval repository, and the
  incident store. A table is the list of its rows in the order of insertion, and every statement of
  the source is a function on the tables: an \<^verbatim>\<open>UPDATE ... WHERE\<close> maps the rows that match and
  counts them, an \<^verbatim>\<open>INSERT\<close> appends unless the key is taken, a \<^verbatim>\<open>SELECT\<close> filters and
  sorts. What the database server does is not known, so each call of the driver draws an outcome
  from \<open>db_outcomes\<close>, which nothing is assumed about: it may fail, before or after the
  statement took effect. Rows that \<^verbatim>\<open>ORDER BY\<close> leaves tied come in the order of insertion here.

  Times are in microseconds, and \<^verbatim>\<open>_millis\<close> is the floor to milliseconds: the source computes it in
  floating point, which gives that floor for every moment from 2004 to 2038, where a double holds
  the seconds to a quarter of a microsecond. Every operation reads the clock once.
\<close>

section \<open>Tables\<close>

record approval_row =
  ra_id :: uuid
  ra_digest :: str
  ra_tenant :: str
  ra_requested_by :: str
  ra_reviewer :: "str option"
  ra_rationale :: "str option"
  ra_status :: approval_status
  ra_issued_at :: int
  ra_expires_at :: int

record incident_row =
  ri_id :: uuid
  ri_tenant :: str
  ri_title :: str
  ri_severity :: severity
  ri_status :: incident_status
  ri_disposition :: disposition
  ri_remediation :: "str option"
  ri_opened_by :: str
  ri_created_at :: int
  ri_updated_at :: int

record decision_row =
  rd_incident :: uuid
  rd_decision :: uuid
  rd_added_at :: int
  rd_position :: nat

record trace_row =
  rt_incident :: uuid
  rt_trace :: uuid
  rt_position :: nat

record tables =
  tb_approvals :: "approval_row list"
  tb_incidents :: "incident_row list"
  tb_decisions :: "decision_row list"
  tb_traces :: "trace_row list"

definition no_tables :: tables where
  "no_tables = \<lparr>tb_approvals = [], tb_incidents = [], tb_decisions = [], tb_traces = []\<rparr>"

section \<open>Database\<close>

text \<open>
  What the server does with one call of the driver. \<open>Lost\<close>: the call took effect and then the
  connection failed, so the caller sees an error.
\<close>

datatype outcome = Done | Refused | Lost

record database =
  db_connected :: bool
  db_schema_ready :: bool
  db_tables :: tables
  db_outcomes :: "outcome list"

definition new_database :: "tables \<Rightarrow> outcome list \<Rightarrow> database" where
  "new_database t outcomes =
     \<lparr>db_connected = False, db_schema_ready = False, db_tables = t, db_outcomes = outcomes\<rparr>"

text \<open>Past the end of the list every call succeeds.\<close>

definition draw :: "database \<Rightarrow> outcome \<times> database" where
  "draw db = (case db_outcomes db of [] \<Rightarrow> (Done, db) | x # xs \<Rightarrow> (x, db\<lparr>db_outcomes := xs\<rparr>))"

text \<open>A statement answers and changes the tables, or violates a constraint.\<close>

type_synonym 'r statement = "tables \<Rightarrow> ('r \<times> tables) option"

type_synonym 'r query = "database \<Rightarrow> (store_error + 'r) \<times> database"

text \<open>\<^verbatim>\<open>except self._errors\<close>: the connection is dropped and the error translated.\<close>

definition db_failed :: "'r query" where
  "db_failed db = (Inl StoreUnavailableError, db\<lparr>db_connected := False\<rparr>)"

definition db_then :: "'a query \<Rightarrow> ('a \<Rightarrow> 'b query) \<Rightarrow> 'b query" where
  "db_then m f db = (case m db of (Inl e, db) \<Rightarrow> (Inl e, db) | (Inr x, db) \<Rightarrow> f x db)"

definition db_return :: "'r \<Rightarrow> 'r query" where
  "db_return x db = (Inr x, db)"

definition db_connect :: "unit query" where
  "db_connect db =
     (if db_connected db then (Inr (), db)
      else let (x, db) = draw db
           in if x = Done then (Inr (), db\<lparr>db_connected := True\<rparr>) else db_failed db)"

text \<open>
  The definitions of \<^verbatim>\<open>_SCHEMA\<close>, each a call of its own. A table that exists is left as it is,
  and one that does not is created empty, which is what the model has for it already.
\<close>

definition SCHEMA :: nat where "SCHEMA = 6"

fun define_schema :: "nat \<Rightarrow> unit query" where
  "define_schema 0 db = (Inr (), db\<lparr>db_schema_ready := True\<rparr>)"
| "define_schema (Suc n) db = (let (x, db) = draw db in if x = Done then define_schema n db else db_failed db)"

definition run_statement :: "'r statement \<Rightarrow> 'r query" where
  "run_statement st db =
     (let (x, db) = draw db in
      if x = Refused then db_failed db
      else (case st (db_tables db) of
              None \<Rightarrow> db_failed db
            | Some (r, t) \<Rightarrow>
                let db = db\<lparr>db_tables := t\<rparr> in if x = Done then (Inr r, db) else db_failed db))"

definition db_execute :: "'r statement \<Rightarrow> 'r query" where
  "db_execute st =
     db_then db_connect (\<lambda>_.
     db_then (\<lambda>db. if db_schema_ready db then (Inr (), db) else define_schema SCHEMA db) (\<lambda>_.
     run_statement st))"

text \<open>\<^verbatim>\<open>rows\<close> is a statement that leaves the tables as they are, \<^verbatim>\<open>change\<close> one that counts rows.\<close>

definition db_rows :: "(tables \<Rightarrow> 'r) \<Rightarrow> 'r query" where
  "db_rows f = db_execute (\<lambda>t. Some (f t, t))"

definition db_change :: "nat statement \<Rightarrow> nat query" where
  "db_change st = db_execute st"

definition db_available :: "database \<Rightarrow> bool \<times> database" where
  "db_available db = (case db_rows (\<lambda>_. ()) db of (Inl _, db) \<Rightarrow> (False, db) | (Inr _, db) \<Rightarrow> (True, db))"

definition db_close :: "database \<Rightarrow> database" where
  "db_close db = db\<lparr>db_connected := False\<rparr>"

text \<open>\<^verbatim>\<open>UPDATE ... WHERE\<close> and \<^verbatim>\<open>DELETE ... WHERE\<close> on one table: the rows changed, and the table.\<close>

definition update_where :: "('r \<Rightarrow> bool) \<Rightarrow> ('r \<Rightarrow> 'r) \<Rightarrow> 'r list \<Rightarrow> nat \<times> 'r list" where
  "update_where c f rows = (length (filter c rows), map (\<lambda>r. if c r then f r else r) rows)"

definition delete_where :: "('r \<Rightarrow> bool) \<Rightarrow> 'r list \<Rightarrow> nat \<times> 'r list" where
  "delete_where c rows = (length (filter c rows), filter (\<lambda>r. \<not> c r) rows)"

text \<open>\<^verbatim>\<open>ON CONFLICT DO NOTHING\<close>, for a table whose key is \<open>key\<close>.\<close>

definition insert_or_ignore :: "('r \<Rightarrow> 'k) \<Rightarrow> 'r \<Rightarrow> 'r list \<Rightarrow> nat \<times> 'r list" where
  "insert_or_ignore key r rows = (if key r \<in> key ` set rows then (0, rows) else (1, rows @ [r]))"

subsection \<open>What a call can leave\<close>

text \<open>
  A statement either ran, and its answer may have been lost, or had no effect and failed. A
  composition is followed one call at a time.
\<close>

lemma draw_tables: "db_tables (snd (draw db)) = db_tables db"
  by (simp add: draw_def split: list.split)

lemma db_failed_result [simp]:
  "fst (db_failed db) = Inl StoreUnavailableError" "db_tables (snd (db_failed db)) = db_tables db"
  by (simp_all add: db_failed_def)

lemma define_schema_tables: "db_tables (snd (define_schema n db)) = db_tables db"
  using draw_tables by (induction n arbitrary: db) (simp_all add: case_prod_unfold Let_def)

lemma db_connect_tables: "db_tables (snd (db_connect db)) = db_tables db"
  using draw_tables by (simp add: db_connect_def case_prod_unfold Let_def)

lemma db_then_cases:
  assumes "db_then m f db = (x, db')"
  obtains (failed) e where "m db = (Inl e, db')" "x = Inl e"
    | (on) y db1 where "m db = (Inr y, db1)" "f y db1 = (x, db')"
  using assms by (cases "m db") (auto simp: db_then_def split: sum.splits)

lemma run_statement_cases:
  assumes "run_statement st db = (x, db')"
  obtains (unchanged) e where "x = Inl e" "db_tables db' = db_tables db"
    | (ran) r t where "st (db_tables db) = Some (r, t)" "db_tables db' = t" "x = Inr r \<or> x = Inl StoreUnavailableError"
proof (cases "fst (draw db) = Refused \<or> st (db_tables db) = None")
  case True
  then show thesis
    using assms draw_tables [of db] unchanged
    by (cases "draw db") (auto simp: run_statement_def db_failed_def split: if_splits)
next
  case False
  then obtain r t where "st (db_tables db) = Some (r, t)" by auto
  moreover obtain o' db1 where "draw db = (o', db1)" by fastforce
  ultimately show thesis
    using False assms draw_tables [of db] ran [of r t]
    by (auto simp: run_statement_def db_failed_def Let_def split: if_splits)
qed

lemma db_execute_cases:
  assumes "db_execute st db = (x, db')"
  obtains (unchanged) e where "x = Inl e" "db_tables db' = db_tables db"
    | (ran) r t where "st (db_tables db) = Some (r, t)" "db_tables db' = t" "x = Inr r \<or> x = Inl StoreUnavailableError"
  using assms unfolding db_execute_def
proof (cases rule: db_then_cases)
  case (failed e)
  then show thesis using db_connect_tables [of db] unchanged by simp
next
  case (on y db1)
  have db1: "db_tables db1 = db_tables db" using db_connect_tables [of db] on(1) by simp
  from on(2) show thesis
  proof (cases rule: db_then_cases)
    case (failed e)
    then have "db_tables db' = db_tables db1"
      using define_schema_tables [of SCHEMA db1] by (simp split: if_splits)
    then show thesis using failed db1 unchanged by simp
  next
    case (on z db2)
    then have "db_tables db2 = db_tables db"
      using define_schema_tables [of SCHEMA db1] db1 by (auto split: if_splits)
    then show thesis using run_statement_cases [OF on(2)] unchanged ran by metis
  qed
qed

lemma db_rows_cases:
  assumes "db_rows f db = (x, db')"
  shows "db_tables db' = db_tables db \<and> (x = Inr (f (db_tables db)) \<or> (\<exists>e. x = Inl e))"
  using assms unfolding db_rows_def by (cases rule: db_execute_cases) auto

text \<open>Nothing fails when the server refuses nothing.\<close>

lemma define_schema_done: "db_outcomes db = [] \<Longrightarrow> define_schema n db = (Inr (), db\<lparr>db_schema_ready := True\<rparr>)"
  by (induction n) (simp_all add: draw_def)

lemma db_execute_done:
  assumes "db_outcomes db = []" and "st (db_tables db) = Some (r, t)"
  shows "db_execute st db = (Inr r, db\<lparr>db_connected := True, db_schema_ready := True, db_tables := t\<rparr>)"
  using assms
  by (simp add: db_execute_def db_then_def db_connect_def draw_def define_schema_done run_statement_def)

section \<open>Times\<close>

definition millis :: "int \<Rightarrow> int" where "millis t = t div 1000"

definition moment :: "int \<Rightarrow> int" where "moment ms = ms * 1000"

lemma millis_before [simp]: "millis t < e \<longleftrightarrow> t < moment e"
proof -
  have "t = 1000 * (t div 1000) + t mod 1000" "0 \<le> t mod 1000" "t mod 1000 < 1000" by simp_all
  then show ?thesis unfolding millis_def moment_def by linarith
qed

section \<open>SqlApprovalStore\<close>

definition on_approvals :: "(approval_row list \<Rightarrow> nat \<times> approval_row list) \<Rightarrow> nat statement" where
  "on_approvals f t = (let (n, rows) = f (tb_approvals t) in Some (n, t\<lparr>tb_approvals := rows\<rparr>))"

definition insert_approval :: "approval_row \<Rightarrow> nat statement" where
  "insert_approval r t =
     (if ra_id r \<in> ra_id ` set (tb_approvals t) then None
      else Some (1, t\<lparr>tb_approvals := tb_approvals t @ [r]\<rparr>))"

definition new_row :: "int \<Rightarrow> int \<Rightarrow> uuid \<Rightarrow> str \<Rightarrow> str \<Rightarrow> str \<Rightarrow> approval_row" where
  "new_row ttl now i digest tenant requested_by =
     (let issued = millis now in
      \<lparr>ra_id = i, ra_digest = digest, ra_tenant = tenant, ra_requested_by = requested_by,
       ra_reviewer = None, ra_rationale = None, ra_status = PENDING, ra_issued_at = issued,
       ra_expires_at = issued + ttl * 1000\<rparr>)"

text \<open>The record \<^verbatim>\<open>get\<close> builds from a row; one still open is expired by the gateway's own clock.\<close>

definition approval_of :: "approval_row \<Rightarrow> approval" where
  "approval_of r =
     \<lparr>ap_approval_id = ra_id r, ap_action_digest = ra_digest r, ap_tenant_id = ra_tenant r,
      ap_requested_by = ra_requested_by r, ap_reviewer = ra_reviewer r, ap_rationale = ra_rationale r,
      ap_status = ra_status r, ap_issued_at = moment (ra_issued_at r), ap_expires_at = moment (ra_expires_at r)\<rparr>"

definition sq_create :: "int \<Rightarrow> database \<Rightarrow> int \<Rightarrow> uuid \<Rightarrow> str \<Rightarrow> str \<Rightarrow> str \<Rightarrow> (store_error + approval) \<times> database" where
  "sq_create ttl db now i digest tenant requested_by =
     (let r = new_row ttl now i digest tenant requested_by
      in db_then (db_change (insert_approval r)) (\<lambda>_. db_return (approval_of r)) db)"

definition sq_get :: "database \<Rightarrow> int \<Rightarrow> uuid \<Rightarrow> (store_error + approval option) \<times> database" where
  "sq_get db now i =
     db_then (db_rows (\<lambda>t. filter (\<lambda>r. ra_id r = i) (tb_approvals t))) (\<lambda>rows.
       db_return (case rows of [] \<Rightarrow> None | r # _ \<Rightarrow> Some (expire now (approval_of r)))) db"

definition adjudicated_row :: "str \<Rightarrow> str \<Rightarrow> approval_status \<Rightarrow> approval_row \<Rightarrow> approval_row" where
  "adjudicated_row reviewer rationale outcome r =
     r\<lparr>ra_status := outcome, ra_reviewer := Some reviewer, ra_rationale := Some rationale\<rparr>"

definition sq_adjudicate ::
  "approval_status \<Rightarrow> database \<Rightarrow> int \<Rightarrow> uuid \<Rightarrow> str \<Rightarrow> str \<Rightarrow> (store_error + approval option) \<times> database" where
  "sq_adjudicate outcome db now i reviewer rationale =
     db_then (db_change (on_approvals (update_where
         (\<lambda>r. ra_id r = i \<and> ra_status r = PENDING \<and> ra_expires_at r > millis now)
         (adjudicated_row reviewer rationale outcome)))) (\<lambda>_.
       \<lambda>db. sq_get db now i) db"

definition sq_approve :: "database \<Rightarrow> int \<Rightarrow> uuid \<Rightarrow> str \<Rightarrow> str \<Rightarrow> (store_error + approval option) \<times> database" where
  "sq_approve = sq_adjudicate APPROVED"

definition sq_reject :: "database \<Rightarrow> int \<Rightarrow> uuid \<Rightarrow> str \<Rightarrow> str \<Rightarrow> (store_error + approval option) \<times> database" where
  "sq_reject = sq_adjudicate REJECTED"

definition sq_consume :: "database \<Rightarrow> int \<Rightarrow> uuid \<Rightarrow> str \<Rightarrow> str \<Rightarrow> (store_error + bool) \<times> database" where
  "sq_consume db now i digest tenant =
     db_then (db_change (on_approvals (update_where
         (\<lambda>r. ra_id r = i \<and> ra_status r = APPROVED \<and> ra_digest r = digest \<and> ra_tenant r = tenant
              \<and> ra_expires_at r > millis now)
         (\<lambda>r. r\<lparr>ra_status := CONSUMED\<rparr>)))) (\<lambda>changed. db_return (changed = 1)) db"

text \<open>The status a row has reached, as the \<^verbatim>\<open>CASE\<close> of the statement has it.\<close>

definition reached :: "int \<Rightarrow> approval_row \<Rightarrow> approval_status" where
  "reached ms r = (if ra_status r \<in> {PENDING, APPROVED} \<and> ra_expires_at r \<le> ms then EXPIRED else ra_status r)"

definition sq_counts :: "database \<Rightarrow> int \<Rightarrow> (store_error + (approval_status \<times> nat) list) \<times> database" where
  "sq_counts db now =
     db_then (db_rows (\<lambda>t. map (reached (millis now)) (tb_approvals t))) (\<lambda>statuses.
       db_return (map (\<lambda>st. (st, count_list statuses st)) approval_statuses)) db"

definition sq_purge :: "database \<Rightarrow> int \<Rightarrow> int \<Rightarrow> (store_error + nat) \<times> database" where
  "sq_purge db now older_than =
     db_change (on_approvals (delete_where (\<lambda>r. ra_expires_at r < millis (now - older_than)))) db"

definition sql_repo :: "int \<Rightarrow> database approval_repo" where
  "sql_repo ttl = \<lparr>repo_create = sq_create ttl, repo_get = sq_get, repo_approve = sq_approve,
     repo_reject = sq_reject, repo_consume = sq_consume\<rparr>"

subsection \<open>It keeps the contract of the repository\<close>

definition row_of :: "database \<Rightarrow> uuid \<Rightarrow> approval_row option" where
  "row_of db i = find (\<lambda>r. ra_id r = i) (tb_approvals (db_tables db))"

definition sq_seen :: "database \<Rightarrow> int \<Rightarrow> uuid \<Rightarrow> approval option" where
  "sq_seen db t i = map_option (expire t \<circ> approval_of) (row_of db i)"

definition sq_inv :: "database \<Rightarrow> bool" where
  "sq_inv db \<longleftrightarrow> distinct (map ra_id (tb_approvals (db_tables db)))"

lemma find_map_same:
  assumes "\<And>r. k (f r) = k r"
  shows "find (\<lambda>r. k r = i) (map f xs) = map_option f (find (\<lambda>r. k r = i) xs)"
  using assms by (induction xs) auto

lemma found_key: "find (\<lambda>r. k r = i) xs = Some r \<Longrightarrow> k r = i \<and> r \<in> set xs"
  by (induction xs) (auto split: if_splits)

lemma filter_unique:
  assumes "distinct (map k xs)"
  shows "filter (\<lambda>r. k r = i) xs = (case find (\<lambda>r. k r = i) xs of None \<Rightarrow> [] | Some r \<Rightarrow> [r])"
  using assms
proof (induction xs)
  case (Cons a xs)
  have "filter (\<lambda>r. k r = k a) xs = []" using Cons.prems by (auto simp: filter_empty_conv image_iff)
  then show ?case using Cons by (auto split: option.split dest: found_key)
qed simp

text \<open>An update of the row of one identifier, by what was found there.\<close>

lemma update_row:
  assumes "sq_inv db" and "\<And>r. ra_id (f r) = ra_id r" and "\<And>r. c r \<Longrightarrow> ra_id r = i"
    and "db_change (on_approvals (update_where c f)) db = (x, db')"
  shows "sq_inv db'" and "j \<noteq> i \<Longrightarrow> row_of db' j = row_of db j"
    and "x = Inr n \<Longrightarrow> n = (case row_of db i of None \<Rightarrow> 0 | Some r \<Rightarrow> if c r then 1 else 0)"
    and "row_of db' i = map_option (\<lambda>r. if c r then f r else r) (row_of db i)
      \<or> row_of db' i = row_of db i \<and> (\<exists>e. x = Inl e)"
proof -
  let ?rows = "tb_approvals (db_tables db)" and ?f = "\<lambda>r. if c r then f r else r"
  have id: "ra_id (?f r) = ra_id r" for r using assms(2) by simp
  have same: "find (\<lambda>r. ra_id r = j) (map ?f xs) = map_option ?f (find (\<lambda>r. ra_id r = j) xs)" for j xs
    by (rule find_map_same) (rule id)
  have other: "row_of db' j = row_of db j" if "j \<noteq> i" "tb_approvals (db_tables db') = map ?f ?rows"
  proof -
    have "map_option ?f (find (\<lambda>r. ra_id r = j) ?rows) = find (\<lambda>r. ra_id r = j) ?rows"
      using assms(3) that(1) by (cases "find (\<lambda>r. ra_id r = j) ?rows") (auto dest: found_key)
    then show ?thesis using that(2) by (simp add: row_of_def same)
  qed
  have count: "length (filter c ?rows) = (case row_of db i of None \<Rightarrow> 0 | Some r \<Rightarrow> if c r then 1 else 0)"
  proof -
    have "filter c ?rows = filter c (filter (\<lambda>r. ra_id r = i) ?rows)"
      using assms(3) by (auto intro: filter_cong)
    also have "filter (\<lambda>r. ra_id r = i) ?rows = (case row_of db i of None \<Rightarrow> [] | Some r \<Rightarrow> [r])"
      using filter_unique [of ra_id ?rows i] assms(1) by (simp add: sq_inv_def row_of_def)
    finally show ?thesis by (simp split: option.split)
  qed
  from assms(4) show "sq_inv db'" "j \<noteq> i \<Longrightarrow> row_of db' j = row_of db j"
    "x = Inr n \<Longrightarrow> n = (case row_of db i of None \<Rightarrow> 0 | Some r \<Rightarrow> if c r then 1 else 0)"
    "row_of db' i = map_option ?f (row_of db i) \<or> row_of db' i = row_of db i \<and> (\<exists>e. x = Inl e)"
    unfolding db_change_def
    by (cases rule: db_execute_cases;
        use assms(1) other count in \<open>auto simp: sq_inv_def on_approvals_def update_where_def row_of_def id comp_def same\<close>)+
qed

lemma sq_create_result:
  assumes "sq_create ttl db now i d tn rq = (x, db')"
  shows "db_tables db' = db_tables db \<or> row_of db i = None
    \<and> tb_approvals (db_tables db') = tb_approvals (db_tables db) @ [new_row ttl now i d tn rq]"
proof -
  have ran: "db_tables db1 = db_tables db \<or> row_of db i = None
      \<and> tb_approvals (db_tables db1) = tb_approvals (db_tables db) @ [new_row ttl now i d tn rq]"
    if "db_change (insert_approval (new_row ttl now i d tn rq)) db = (y, db1)" for y db1
    using that unfolding db_change_def
    by (cases rule: db_execute_cases)
      (auto simp: insert_approval_def row_of_def new_row_def Let_def image_iff find_None_iff
          eq_commute [of _ "db_tables db1"] split: if_splits)
  from assms show ?thesis
    unfolding sq_create_def Let_def by (cases rule: db_then_cases) (use ran in \<open>auto simp: db_return_def\<close>)
qed

lemma find_in_append: "find P (xs @ ys) = (case find P xs of None \<Rightarrow> find P ys | Some x \<Rightarrow> Some x)"
  by (induction xs) auto

lemma row_of_append:
  "tb_approvals (db_tables db') = tb_approvals (db_tables db) @ [r] \<Longrightarrow>
    row_of db' j = (case row_of db j of None \<Rightarrow> if ra_id r = j then Some r else None | Some r0 \<Rightarrow> Some r0)"
  by (auto simp: row_of_def find_in_append split: option.split)

lemma sq_get_result:
  assumes "sq_inv db" and "sq_get db now i = (x, db')"
  shows "db_tables db' = db_tables db" and "x = Inr y \<Longrightarrow> y = sq_seen db now i"
proof -
  have rows: "filter (\<lambda>r. ra_id r = i) (tb_approvals (db_tables db))
      = (case row_of db i of None \<Rightarrow> [] | Some r \<Rightarrow> [r])"
    using filter_unique [of ra_id "tb_approvals (db_tables db)" i] assms(1) by (simp add: sq_inv_def row_of_def)
  from assms(2) have "db_tables db' = db_tables db \<and> (x = Inr y \<longrightarrow> y = sq_seen db now i)"
    unfolding sq_get_def
    by (cases rule: db_then_cases)
      (use rows in \<open>auto dest!: db_rows_cases simp: db_return_def sq_seen_def split: option.splits\<close>)
  then show "db_tables db' = db_tables db" "x = Inr y \<Longrightarrow> y = sq_seen db now i" by simp_all
qed

lemma same_tables:
  assumes "db_tables db' = db_tables db"
  shows "sq_seen db' t i = sq_seen db t i" and "sq_inv db' = sq_inv db" and "row_of db' i = row_of db i"
  using assms by (simp_all add: sq_seen_def sq_inv_def row_of_def)

lemma approval_of_fields [simp]:
  "ap_status (approval_of r) = ra_status r" "ap_action_digest (approval_of r) = ra_digest r"
  "ap_tenant_id (approval_of r) = ra_tenant r" "ap_requested_by (approval_of r) = ra_requested_by r"
  "ap_expires_at (approval_of r) = moment (ra_expires_at r)" "ap_reviewer (approval_of r) = ra_reviewer r"
  by (simp_all add: approval_of_def)

text \<open>The conditional updates do to the record what the repository's operations are meant to do.\<close>

lemma adjudicated_as_meant:
  assumes "now \<le> t"
  shows "expire t (approval_of (if ra_status r = PENDING \<and> ra_expires_at r > millis now
      then adjudicated_row rv ra outcome r else r))
    = expire t (adjudicate_record rv ra outcome (expire now (approval_of r)))"
proof -
  have row: "approval_of (adjudicated_row rv ra outcome r)
      = (approval_of r)\<lparr>ap_reviewer := Some rv, ap_rationale := Some ra, ap_status := outcome\<rparr>"
    by (simp add: approval_of_def adjudicated_row_def)
  consider (pending) "ra_status r = PENDING" "now < moment (ra_expires_at r)"
    | (late) "ra_status r = PENDING" "moment (ra_expires_at r) \<le> now" | (other) "ra_status r \<noteq> PENDING"
    by linarith
  then show ?thesis
  proof cases
    case pending
    then show ?thesis using row by (simp add: adjudicate_record_def expire_def)
  next
    case late
    then show ?thesis using assms by (simp add: adjudicate_record_def expire_def approval_open_def)
  next
    case other
    then have "ap_status (expire now (approval_of r)) \<noteq> PENDING" by (simp add: expire_status)
    then show ?thesis using assms other by (simp add: adjudicate_record_def)
  qed
qed

lemma sq_adjudicate_result:
  assumes "sq_inv db" and "sq_adjudicate outcome db now i rv ra = (x, db')" and "now \<le> t"
  shows "sq_inv db'" and "j \<noteq> i \<Longrightarrow> sq_seen db' t j = sq_seen db t j"
    and "sq_seen db' t i \<in> {map_option (expire t \<circ> adjudicate_record rv ra outcome) (sq_seen db now i), sq_seen db t i}"
    and "x = Inr y \<Longrightarrow> y = sq_seen db' now i"
proof -
  let ?c = "\<lambda>r. ra_id r = i \<and> ra_status r = PENDING \<and> ra_expires_at r > millis now"
    and ?f = "adjudicated_row rv ra outcome"
  have id: "ra_id (?f r) = ra_id r" for r by (simp add: adjudicated_row_def)
  have meant: "map_option (expire t \<circ> approval_of) (map_option (\<lambda>r. if ?c r then ?f r else r) (row_of db i))
      = map_option (expire t \<circ> adjudicate_record rv ra outcome) (sq_seen db now i)"
  proof (cases "row_of db i")
    case (Some r)
    then have "ra_id r = i" by (auto simp: row_of_def dest: found_key)
    then show ?thesis using Some adjudicated_as_meant [OF assms(3), of r rv ra outcome] by (simp add: sq_seen_def)
  qed (simp add: sq_seen_def)
  have "sq_inv db' \<and> (j \<noteq> i \<longrightarrow> sq_seen db' t j = sq_seen db t j)
    \<and> sq_seen db' t i \<in> {map_option (expire t \<circ> adjudicate_record rv ra outcome) (sq_seen db now i), sq_seen db t i}
    \<and> (x = Inr y \<longrightarrow> y = sq_seen db' now i)"
    using assms(2) unfolding sq_adjudicate_def
  proof (cases rule: db_then_cases)
    case (failed e)
    note u = update_row [OF assms(1) id _ failed(1), of i]
    show ?thesis using u(1,2,4) failed(2) meant by (auto simp: sq_seen_def)
  next
    case (on n db1)
    note u = update_row [OF assms(1) id _ on(1), of i]
    have inv1: "sq_inv db1" using u(1) by blast
    note g = sq_get_result [OF inv1 on(2)]
    have "row_of db1 i = map_option (\<lambda>r. if ?c r then ?f r else r) (row_of db i)"
      using u(4) by auto
    then show ?thesis
      using inv1 u(2) meant same_tables [OF g(1)] g(2) by (auto simp: sq_seen_def)
  qed
  then show "sq_inv db'" "j \<noteq> i \<Longrightarrow> sq_seen db' t j = sq_seen db t j"
    "sq_seen db' t i \<in> {map_option (expire t \<circ> adjudicate_record rv ra outcome) (sq_seen db now i), sq_seen db t i}"
    "x = Inr y \<Longrightarrow> y = sq_seen db' now i" by simp_all
qed

lemma sq_consume_result:
  assumes "sq_inv db" and "sq_consume db now i d tn = (x, db')" and "now \<le> t"
  shows "sq_inv db'" and "j \<noteq> i \<Longrightarrow> sq_seen db' t j = sq_seen db t j"
    and "x = Inr b \<Longrightarrow> b = (\<exists>r. sq_seen db now i = Some r \<and> consumable d tn r)"
    and "sq_seen db' t i = sq_seen db t i \<and> x \<noteq> Inr True
      \<or> x \<noteq> Inr False \<and> (\<exists>r. sq_seen db now i = Some r \<and> consumable d tn r
          \<and> sq_seen db' t i = Some (r\<lparr>ap_status := CONSUMED\<rparr>))"
proof -
  let ?c = "\<lambda>r. ra_id r = i \<and> ra_status r = APPROVED \<and> ra_digest r = d \<and> ra_tenant r = tn \<and> ra_expires_at r > millis now"
    and ?f = "\<lambda>r. r\<lparr>ra_status := CONSUMED\<rparr>"
  have id: "ra_id (?f r) = ra_id r" for r by simp
  obtain y where y: "db_change (on_approvals (update_where ?c ?f)) db = (y, db')" "x = map_sum id (\<lambda>n. n = 1) y"
    using assms(2) unfolding sq_consume_def by (cases rule: db_then_cases) (auto simp: db_return_def)
  have one: "ra_id r = i \<Longrightarrow> row_of db j = Some r \<Longrightarrow> j = i" for j r
    by (auto simp: row_of_def dest: found_key)
  note u = update_row [OF assms(1) id _ y(1), of i]
  show "sq_inv db'" using u(1) by blast
  show "sq_seen db' t j = sq_seen db t j" if "j \<noteq> i" using u(2) that by (simp add: sq_seen_def)
  have ready: "?c r \<longleftrightarrow> consumable d tn (expire now (approval_of r))" if "row_of db i = Some r" for r
  proof -
    have "ra_id r = i" using that by (auto simp: row_of_def dest: found_key)
    then show ?thesis by (auto simp: consumable_def expire_status approval_open_def)
  qed
  have taken: "approval_of (?f r) = (expire now (approval_of r))\<lparr>ap_status := CONSUMED\<rparr>" for r
    by (simp add: approval_of_def expire_def)
  have count: "n = (case row_of db i of None \<Rightarrow> 0 | Some r \<Rightarrow> if ?c r then 1 else 0)" if "y = Inr n" for n
    using u(3) that by blast
  show "b = (\<exists>r. sq_seen db now i = Some r \<and> consumable d tn r)" if "x = Inr b"
  proof -
    from that y(2) have "\<exists>n. y = Inr n \<and> b = (n = 1)" by (cases y) auto
    then obtain n where n: "y = Inr n" "b = (n = 1)" by blast
    show ?thesis
    proof (cases "row_of db i")
      case (Some r)
      then show ?thesis using count [OF n(1)] n(2) ready [OF Some] by (simp add: sq_seen_def)
    qed (use count [OF n(1)] n(2) in \<open>simp add: sq_seen_def\<close>)
  qed
  have unchanged: "sq_seen db' t i = sq_seen db t i" if "row_of db' i = row_of db i"
    using that by (simp add: sq_seen_def)
  show "sq_seen db' t i = sq_seen db t i \<and> x \<noteq> Inr True
      \<or> x \<noteq> Inr False \<and> (\<exists>r. sq_seen db now i = Some r \<and> consumable d tn r
          \<and> sq_seen db' t i = Some (r\<lparr>ap_status := CONSUMED\<rparr>))"
  proof (cases "\<exists>r. row_of db i = Some r \<and> ?c r")
    case True
    then obtain r where r: "row_of db i = Some r" "?c r" by blast
    then have "x \<noteq> Inr False" using count y(2) by (cases y) auto
    moreover have "row_of db' i = Some (?f r) \<or> row_of db' i = row_of db i \<and> (\<exists>e. x = Inl e)"
      using u(4) r y(2) by (cases y) auto
    moreover have "sq_seen db now i = Some (expire now (approval_of r))" using r(1) by (simp add: sq_seen_def)
    ultimately show ?thesis
      using ready [OF r(1)] r(2) unchanged by (auto simp: sq_seen_def taken simp del: millis_before)
  next
    case False
    then have "row_of db' i = row_of db i" using u(4) by (cases "row_of db i") auto
    moreover have "x \<noteq> Inr True" using count False y(2) by (cases y; cases "row_of db i") auto
    ultimately show ?thesis using unchanged by simp
  qed
qed

interpretation sql: approval_repository "sql_repo ttl" sq_seen sq_inv for ttl
proof (unfold_locales, unfold sql_repo_def approval_repo.simps)
  fix s :: database and t t' :: int and i i' d tn rq r rv ra s' x y b
  show "sq_seen s t' i = map_option (expire t') (sq_seen s t i)" if "t \<le> t'"
    using that by (cases "row_of s i") (simp_all add: sq_seen_def)
  assume inv: "sq_inv s"
  obtain z db where z: "sq_create ttl s t i d tn rq = (z, db)" by fastforce
  note created = sq_create_result [OF z]
  have fresh: "row_of s i = None" if "sq_seen s t i = None" using that by (simp add: sq_seen_def)
  show "ap_status r \<in> {PENDING, EXPIRED} \<and> ap_action_digest r = d \<and> ap_tenant_id r = tn \<and> ap_requested_by r = rq"
    if "sq_seen s t i = None" "sq_seen (snd (sq_create ttl s t i d tn rq)) t' i = Some r"
    using created fresh [OF that(1)] that(2) z same_tables [of db s]
    by (auto simp: sq_seen_def row_of_append expire_status new_row_def Let_def)
  show "sq_seen s t' i' = Some r"
    if "i' \<noteq> i" "sq_seen (snd (sq_create ttl s t i d tn rq)) t' i' = Some r"
    using created that z same_tables [of db s]
    by (auto simp: sq_seen_def row_of_append new_row_def Let_def split: option.splits)
  show "sq_inv (snd (sq_create ttl s t i d tn rq))"
    using created inv z same_tables [of db s]
    by (auto simp: sq_inv_def row_of_def find_None_iff new_row_def Let_def)
  show "x = sq_seen s t i" if "sq_get s t i = (Inr x, s')"
    using sq_get_result(2) [OF inv that] by simp
  show "sq_seen (snd (sq_get s t i)) t' i' = sq_seen s t' i'" "sq_inv (snd (sq_get s t i))"
    using sq_get_result(1) [OF inv, of t i] same_tables inv by (metis prod.collapse)+
  note approve = sq_adjudicate_result [OF inv, of APPROVED t i rv ra, folded sq_approve_def]
  note reject = sq_adjudicate_result [OF inv, of REJECTED t i rv ra, folded sq_reject_def]
  show "sq_inv (snd (sq_approve s t i rv ra))" "sq_inv (snd (sq_reject s t i rv ra))"
    using approve(1) reject(1) by (metis order_refl prod.collapse)+
  show "sq_seen (snd (sq_approve s t i rv ra)) t' i' = sq_seen s t' i'" if "t \<le> t'" "i' \<noteq> i"
    using approve(2) that by (metis prod.collapse)
  show "sq_seen (snd (sq_reject s t i rv ra)) t' i' = sq_seen s t' i'" if "t \<le> t'" "i' \<noteq> i"
    using reject(2) that by (metis prod.collapse)
  show "sq_seen (snd (sq_approve s t i rv ra)) t' i
      \<in> {map_option (expire t' \<circ> adjudicate_record rv ra APPROVED) (sq_seen s t i), sq_seen s t' i}" if "t \<le> t'"
    using approve(3) that by (metis prod.collapse)
  show "sq_seen (snd (sq_reject s t i rv ra)) t' i
      \<in> {map_option (expire t' \<circ> adjudicate_record rv ra REJECTED) (sq_seen s t i), sq_seen s t' i}" if "t \<le> t'"
    using reject(3) that by (metis prod.collapse)
  show "x = sq_seen s' t i" if "sq_approve s t i rv ra = (Inr x, s')" for x :: "approval option"
    using approve(4) [OF that order_refl] by simp
  show "x = sq_seen s' t i" if "sq_reject s t i rv ra = (Inr x, s')" for x :: "approval option"
    using reject(4) [OF that order_refl] by simp
  show "b = (\<exists>r. sq_seen s t i = Some r \<and> consumable d tn r)" if "sq_consume s t i d tn = (Inr b, s')"
    using sq_consume_result(3) [OF inv that order_refl] by simp
  show "sq_seen s' t' i = map_option (\<lambda>r. r\<lparr>ap_status := CONSUMED\<rparr>) (sq_seen s t i)"
    if "t \<le> t'" "sq_consume s t i d tn = (Inr True, s')"
    using sq_consume_result(4) [OF inv that(2,1)] by auto
  show "sq_seen s' t' i = sq_seen s t' i \<or> y \<noteq> Inr False \<and> (\<exists>r. sq_seen s t i = Some r \<and> consumable d tn r
      \<and> sq_seen s' t' i = Some (r\<lparr>ap_status := CONSUMED\<rparr>))"
    if "t \<le> t'" "sq_consume s t i d tn = (y, s')" "y \<noteq> Inr True"
    using sq_consume_result(4) [OF inv that(2,1)] by auto
  show "sq_seen (snd (sq_consume s t i d tn)) t' i' = sq_seen s t' i'" if "t \<le> t'" "i' \<noteq> i"
    using sq_consume_result(2) [OF inv] that by (metis prod.collapse)
  show "sq_inv (snd (sq_consume s t i d tn))"
    using sq_consume_result(1) [OF inv] by (metis order_refl prod.collapse)
qed

section \<open>SqlIncidentStore\<close>

definition insert_decision :: "decision_row \<Rightarrow> nat statement" where
  "insert_decision r t =
     (let (n, rows) = insert_or_ignore (\<lambda>r. (rd_incident r, rd_decision r)) r (tb_decisions t)
      in Some (n, t\<lparr>tb_decisions := rows\<rparr>))"

definition insert_trace :: "trace_row \<Rightarrow> nat statement" where
  "insert_trace r t =
     (let (n, rows) = insert_or_ignore (\<lambda>r. (rt_incident r, rt_trace r)) r (tb_traces t)
      in Some (n, t\<lparr>tb_traces := rows\<rparr>))"

definition insert_incident :: "incident_row \<Rightarrow> nat statement" where
  "insert_incident r t =
     (if ri_id r \<in> ri_id ` set (tb_incidents t) then None
      else Some (1, t\<lparr>tb_incidents := tb_incidents t @ [r]\<rparr>))"

definition on_incidents :: "(incident_row list \<Rightarrow> nat \<times> incident_row list) \<Rightarrow> nat statement" where
  "on_incidents f t = (let (n, rows) = f (tb_incidents t) in Some (n, t\<lparr>tb_incidents := rows\<rparr>))"

text \<open>\<^verbatim>\<open>_attach\<close>: whether the decision was new to the case.\<close>

definition si_attach_row :: "uuid \<Rightarrow> uuid \<Rightarrow> int \<Rightarrow> nat \<Rightarrow> bool query" where
  "si_attach_row i d now position =
     db_then (db_change (insert_decision
       \<lparr>rd_incident = i, rd_decision = d, rd_added_at = now, rd_position = position\<rparr>))
       (\<lambda>changed. db_return (changed = 1))"

text \<open>The decisions and traces of a case, in the order of the statements, and the case itself.\<close>

definition decisions_of :: "uuid \<Rightarrow> tables \<Rightarrow> uuid list" where
  "decisions_of i t = map rd_decision
     (sort_key (\<lambda>r. (rd_added_at r, rd_position r, rd_decision r)) (filter (\<lambda>r. rd_incident r = i) (tb_decisions t)))"

definition traces_of :: "uuid \<Rightarrow> tables \<Rightarrow> uuid list" where
  "traces_of i t = map rt_trace (sort_key rt_position (filter (\<lambda>r. rt_incident r = i) (tb_traces t)))"

definition incident_of :: "incident_row \<Rightarrow> uuid list \<Rightarrow> uuid list \<Rightarrow> incident" where
  "incident_of r decisions traces =
     \<lparr>in_incident_id = ri_id r, in_tenant_id = ri_tenant r, in_title = ri_title r, in_severity = ri_severity r,
      in_status = ri_status r, in_disposition = ri_disposition r, in_decision_ids = decisions,
      in_trace_ids = traces, in_remediation = ri_remediation r, in_opened_by = ri_opened_by r,
      in_created_at = moment (ri_created_at r), in_updated_at = moment (ri_updated_at r)\<rparr>"

definition si_case :: "incident_row \<Rightarrow> incident query" where
  "si_case r =
     db_then (db_rows (decisions_of (ri_id r))) (\<lambda>decisions.
     db_then (db_rows (traces_of (ri_id r))) (\<lambda>traces.
     db_return (incident_of r decisions traces)))"

definition si_get :: "database \<Rightarrow> uuid \<Rightarrow> str \<Rightarrow> (store_error + incident option) \<times> database" where
  "si_get db i tenant =
     db_then (db_rows (\<lambda>t. filter (\<lambda>r. ri_id r = i \<and> ri_tenant r = tenant) (tb_incidents t))) (\<lambda>rows.
       case rows of
         [] \<Rightarrow> db_return None
       | r # _ \<Rightarrow> db_then (si_case r) (\<lambda>c. db_return (Some c))) db"

text \<open>The loops of \<^verbatim>\<open>open\<close> over the decisions and over the traces they name.\<close>

fun attach_all :: "uuid \<Rightarrow> int \<Rightarrow> nat \<Rightarrow> uuid list \<Rightarrow> unit query" where
  "attach_all i now n [] = db_return ()"
| "attach_all i now n (d # ds) = db_then (si_attach_row i d now n) (\<lambda>_. attach_all i now (Suc n) ds)"

fun insert_traces :: "uuid \<Rightarrow> nat \<Rightarrow> uuid list \<Rightarrow> unit query" where
  "insert_traces i n [] = db_return ()"
| "insert_traces i n (x # xs) =
     db_then (db_change (insert_trace \<lparr>rt_incident = i, rt_trace = x, rt_position = n\<rparr>))
       (\<lambda>_. insert_traces i (Suc n) xs)"

definition new_incident_row :: "int \<Rightarrow> uuid \<Rightarrow> str \<Rightarrow> str \<Rightarrow> severity \<Rightarrow> str \<Rightarrow> incident_row" where
  "new_incident_row ms i tenant title sev opened_by =
     \<lparr>ri_id = i, ri_tenant = tenant, ri_title = title, ri_severity = sev, ri_status = IS_OPEN,
      ri_disposition = UNDETERMINED, ri_remediation = None, ri_opened_by = opened_by,
      ri_created_at = ms, ri_updated_at = ms\<rparr>"

definition si_open ::
  "database \<Rightarrow> int \<Rightarrow> uuid \<Rightarrow> str \<Rightarrow> str \<Rightarrow> severity \<Rightarrow> str \<Rightarrow> security_decision list
    \<Rightarrow> (store_error + incident) \<times> database" where
  "si_open db now i tenant title sev opened_by ds =
     (let ms = millis now; traces = rev (remdups (rev (map sd_trace_id ds))) in
      db_then (attach_all i ms 0 (map sd_decision_id ds)) (\<lambda>_.
      db_then (insert_traces i 0 traces) (\<lambda>_.
      db_then (db_change (insert_incident (new_incident_row ms i tenant title sev opened_by))) (\<lambda>_.
      db_then (\<lambda>db. si_get db i tenant) (\<lambda>found.
      case found of None \<Rightarrow> (\<lambda>db. (Inl StoreUnavailableError, db)) | Some c \<Rightarrow> db_return c)))) db)"

definition covering :: "uuid \<Rightarrow> str \<Rightarrow> str \<Rightarrow> tables \<Rightarrow> incident_row list" where
  "covering trace tenant title t =
     sort_key ri_created_at (filter (\<lambda>r. ri_tenant r = tenant \<and> ri_title r = title
       \<and> ri_status r \<in> {IS_OPEN, IS_INVESTIGATING}
       \<and> list_ex (\<lambda>x. rt_incident x = ri_id r \<and> rt_trace x = trace) (tb_traces t)) (tb_incidents t))"

definition si_open_for_trace ::
  "database \<Rightarrow> uuid \<Rightarrow> str \<Rightarrow> str \<Rightarrow> (store_error + incident option) \<times> database" where
  "si_open_for_trace db trace tenant title =
     db_then (db_rows (covering trace tenant title)) (\<lambda>rows.
       case rows of [] \<Rightarrow> db_return None | r # _ \<Rightarrow> (\<lambda>db. si_get db (ri_id r) tenant)) db"

definition si_attach ::
  "database \<Rightarrow> int \<Rightarrow> uuid \<Rightarrow> security_decision \<Rightarrow> (store_error + unit) \<times> database" where
  "si_attach db now i d =
     db_then (si_attach_row i (sd_decision_id d) (millis now) 0) (\<lambda>new.
       if new
       then db_then (db_change (on_incidents (update_where (\<lambda>r. ri_id r = i)
              (\<lambda>r. r\<lparr>ri_updated_at := millis now\<rparr>)))) (\<lambda>_. db_return ())
       else db_return ()) db"

fun si_cases :: "incident_row list \<Rightarrow> incident list query" where
  "si_cases [] = db_return []"
| "si_cases (r # rs) = db_then (si_case r) (\<lambda>c. db_then (si_cases rs) (\<lambda>cs. db_return (c # cs)))"

definition si_list :: "database \<Rightarrow> str \<Rightarrow> (store_error + incident list) \<times> database" where
  "si_list db tenant =
     db_then (db_rows (\<lambda>t. sort_key (\<lambda>r. (- ri_created_at r, ri_id r))
         (filter (\<lambda>r. ri_tenant r = tenant) (tb_incidents t)))) si_cases db"

definition updated_row :: "int \<Rightarrow> incident_update \<Rightarrow> incident_row \<Rightarrow> incident_row" where
  "updated_row ms u r =
     r\<lparr>ri_status := (case iu_status u of None \<Rightarrow> ri_status r | Some x \<Rightarrow> x),
       ri_disposition := (case iu_disposition u of None \<Rightarrow> ri_disposition r | Some x \<Rightarrow> x),
       ri_remediation := (case iu_remediation u of None \<Rightarrow> ri_remediation r | Some x \<Rightarrow> Some x),
       ri_updated_at := ms\<rparr>"

definition si_update ::
  "database \<Rightarrow> int \<Rightarrow> uuid \<Rightarrow> str \<Rightarrow> incident_update \<Rightarrow> (store_error + incident option) \<times> database" where
  "si_update db now i tenant u =
     db_then (db_change (on_incidents (update_where (\<lambda>r. ri_id r = i \<and> ri_tenant r = tenant)
         (updated_row (millis now) u)))) (\<lambda>_.
       \<lambda>db. si_get db i tenant) db"

definition si_open_count :: "database \<Rightarrow> (store_error + nat) \<times> database" where
  "si_open_count =
     db_rows (\<lambda>t. length (filter (\<lambda>r. ri_status r \<in> {IS_OPEN, IS_INVESTIGATING}) (tb_incidents t)))"

definition sql_incidents :: "database incident_repo" where
  "sql_incidents = \<lparr>irepo_open = si_open, irepo_open_for_trace = si_open_for_trace, irepo_attach = si_attach,
     irepo_get = si_get, irepo_list = si_list, irepo_update = si_update\<rparr>"

subsection \<open>What a reader sees\<close>

text \<open>The case a read by its identifier and tenant would return.\<close>

definition case_seen :: "tables \<Rightarrow> uuid \<Rightarrow> str \<Rightarrow> incident option" where
  "case_seen t i tenant =
     map_option (\<lambda>r. incident_of r (decisions_of i t) (traces_of i t))
       (find (\<lambda>r. ri_id r = i \<and> ri_tenant r = tenant) (tb_incidents t))"

lemma filter_find: "filter P xs = [] \<longleftrightarrow> find P xs = None" "filter P xs = r # rs \<Longrightarrow> find P xs = Some r"
  by (induction xs) (auto split: if_splits)

lemma si_case_result:
  assumes "si_case r db = (x, db')"
  shows "db_tables db' = db_tables db"
    and "x = Inr c \<Longrightarrow> c = incident_of r (decisions_of (ri_id r) (db_tables db)) (traces_of (ri_id r) (db_tables db))"
proof -
  have "db_tables db' = db_tables db
    \<and> (x = Inr c \<longrightarrow> c = incident_of r (decisions_of (ri_id r) (db_tables db)) (traces_of (ri_id r) (db_tables db)))"
    using assms unfolding si_case_def
    by (auto elim!: db_then_cases simp: db_return_def dest!: db_rows_cases)
  then show "db_tables db' = db_tables db"
    "x = Inr c \<Longrightarrow> c = incident_of r (decisions_of (ri_id r) (db_tables db)) (traces_of (ri_id r) (db_tables db))" by auto
qed

lemma si_get_result:
  assumes "si_get db i tenant = (x, db')"
  shows "db_tables db' = db_tables db" and "x = Inr y \<Longrightarrow> y = case_seen (db_tables db) i tenant"
proof -
  let ?P = "\<lambda>r. ri_id r = i \<and> ri_tenant r = tenant"
  have "db_tables db' = db_tables db \<and> (x = Inr y \<longrightarrow> y = case_seen (db_tables db) i tenant)"
    using assms unfolding si_get_def
  proof (cases rule: db_then_cases)
    case (failed e)
    then show ?thesis using db_rows_cases by blast
  next
    case (on rows db1)
    have rows: "db_tables db1 = db_tables db" "rows = filter ?P (tb_incidents (db_tables db))"
      using db_rows_cases [OF on(1)] by auto
    show ?thesis
    proof (cases rows)
      case Nil
      then have "find ?P (tb_incidents (db_tables db)) = None" using rows(2) filter_find(1) by metis
      then show ?thesis using on(2) rows(1) Nil by (auto simp: db_return_def case_seen_def)
    next
      case (Cons r rs)
      have found: "find ?P (tb_incidents (db_tables db)) = Some r" using Cons rows(2) filter_find(2) by metis
      then have "ri_id r = i" by (auto simp: find_Some_iff)
      then show ?thesis
        using on(2) Cons rows(1) found
        by (auto elim!: db_then_cases dest: si_case_result(1) si_case_result(2) [OF _ refl] simp: db_return_def case_seen_def)
    qed
  qed
  then show "db_tables db' = db_tables db" "x = Inr y \<Longrightarrow> y = case_seen (db_tables db) i tenant" by auto
qed

lemma case_seen_tenant: "case_seen t i tenant = Some c \<Longrightarrow> in_tenant_id c = tenant \<and> in_incident_id c = i"
  by (auto simp: case_seen_def incident_of_def find_Some_iff)

lemma si_cases_result:
  assumes "si_cases rs db = (Inr cs, db')" and "c \<in> set cs"
  shows "\<exists>r \<in> set rs. in_tenant_id c = ri_tenant r"
  using assms
proof (induction rs arbitrary: db cs)
  case (Cons r rs)
  from Cons.prems(1) obtain c0 db1 cs1 where "si_case r db = (Inr c0, db1)" "si_cases rs db1 = (Inr cs1, db')"
    "cs = c0 # cs1"
    by (auto elim!: db_then_cases simp: db_return_def)
  then show ?case
    using Cons.IH [of db1 cs1] Cons.prems(2) si_case_result(2) [of r db "Inr c0" db1 c0]
    by (auto simp: incident_of_def)
qed (simp add: db_return_def)

interpretation sql_cases: tenant_cases sql_incidents
proof (unfold_locales, unfold sql_incidents_def incident_repo.simps)
  fix s s' :: database and now i tn ti sev who ds c cs u
  have got: "in_tenant_id c = tn" if "si_get db i tn = (Inr (Some c), s')" for db
    using si_get_result(2) [OF that refl] case_seen_tenant [of "db_tables db" i tn c] by simp
  show "in_tenant_id c = tn" if "si_open s now i tn ti sev who ds = (Inr c, s')"
    using that got unfolding si_open_def Let_def
    by (auto elim!: db_then_cases simp: db_return_def split: option.splits)
  show "in_tenant_id c = tn" if "si_get s i tn = (Inr (Some c), s')" using got [OF that] .
  show "in_tenant_id c = tn" if "si_update s now i tn u = (Inr (Some c), s')"
    using that got unfolding si_update_def by (auto elim!: db_then_cases)
  show "in_tenant_id c = tn" if "si_list s tn = (Inr cs, s')" "c \<in> set cs"
    using that(1) unfolding si_list_def
  proof (cases rule: db_then_cases)
    case (on rows db1)
    have "\<forall>r \<in> set rows. ri_tenant r = tn" using db_rows_cases [OF on(1)] by auto
    then show ?thesis using si_cases_result [OF on(2) that(2)] by auto
  qed simp
qed

subsection \<open>A case appears whole\<close>

definition link_rows :: "uuid \<Rightarrow> int \<Rightarrow> nat \<Rightarrow> uuid list \<Rightarrow> decision_row list" where
  "link_rows i ms n ds =
     map (\<lambda>(p, d). \<lparr>rd_incident = i, rd_decision = d, rd_added_at = ms, rd_position = p\<rparr>) (enumerate n ds)"

definition trace_rows :: "uuid \<Rightarrow> nat \<Rightarrow> uuid list \<Rightarrow> trace_row list" where
  "trace_rows i n xs = map (\<lambda>(p, x). \<lparr>rt_incident = i, rt_trace = x, rt_position = p\<rparr>) (enumerate n xs)"

text \<open>However far the loops get, they leave the rows of the first few.\<close>

lemma attach_all_result:
  assumes "attach_all i ms n ds db = (x, db')" and "distinct ds"
    and "\<forall>r \<in> set (tb_decisions (db_tables db)). rd_incident r = i \<longrightarrow> rd_decision r \<notin> set ds"
  shows "\<exists>m. db_tables db' = (db_tables db)\<lparr>tb_decisions := tb_decisions (db_tables db) @ link_rows i ms n (take m ds)\<rparr>
    \<and> (x = Inr () \<longrightarrow> length ds \<le> m)"
  using assms
proof (induction ds arbitrary: n db)
  case Nil
  then show ?case by (simp add: db_return_def link_rows_def)
next
  case (Cons d ds)
  let ?row = "\<lparr>rd_incident = i, rd_decision = d, rd_added_at = ms, rd_position = n\<rparr>"
  have added: "db_tables db1 = db_tables db
      \<or> db_tables db1 = (db_tables db)\<lparr>tb_decisions := tb_decisions (db_tables db) @ [?row]\<rparr>"
    "y = Inr b \<Longrightarrow> db_tables db1 = (db_tables db)\<lparr>tb_decisions := tb_decisions (db_tables db) @ [?row]\<rparr>"
    if "si_attach_row i d ms n db = (y, db1)" for y b db1
  proof -
    have "insert_decision ?row (db_tables db)
        = Some (1, (db_tables db)\<lparr>tb_decisions := tb_decisions (db_tables db) @ [?row]\<rparr>)"
      using Cons.prems(3) by (auto simp: insert_decision_def insert_or_ignore_def)
    then have "(db_tables db1 = db_tables db \<and> (\<exists>e. y = Inl e))
        \<or> db_tables db1 = (db_tables db)\<lparr>tb_decisions := tb_decisions (db_tables db) @ [?row]\<rparr>"
      using that unfolding si_attach_row_def db_change_def
      by (auto elim!: db_then_cases db_execute_cases simp: db_return_def)
    then show "db_tables db1 = db_tables db
      \<or> db_tables db1 = (db_tables db)\<lparr>tb_decisions := tb_decisions (db_tables db) @ [?row]\<rparr>"
      "y = Inr b \<Longrightarrow> db_tables db1 = (db_tables db)\<lparr>tb_decisions := tb_decisions (db_tables db) @ [?row]\<rparr>" by auto
  qed
  have one: "link_rows i ms n (take (Suc m) (d # ds)) = ?row # link_rows i ms (Suc n) (take m ds)" for m
    by (simp add: link_rows_def)
  show ?case using Cons.prems(1) unfolding attach_all.simps
  proof (cases rule: db_then_cases)
    case (failed e)
    then show ?thesis
      using added(1) [OF failed(1)] one [of 0]
      by (auto intro!: exI [of _ "if db_tables db' = db_tables db then 0 else 1"] simp: link_rows_def)
  next
    case (on y db1)
    note t1 = added(2) [OF on(1) refl]
    from Cons.IH [OF on(2)] Cons.prems(2,3) t1 obtain m where
      "db_tables db' = (db_tables db1)\<lparr>tb_decisions := tb_decisions (db_tables db1) @ link_rows i ms (Suc n) (take m ds)\<rparr>"
      "x = Inr () \<longrightarrow> length ds \<le> m" by auto
    then show ?thesis using t1 one [of m] by (intro exI [of _ "Suc m"]) simp
  qed
qed

lemma insert_traces_result:
  assumes "insert_traces i n xs db = (x, db')" and "distinct xs"
    and "\<forall>r \<in> set (tb_traces (db_tables db)). rt_incident r = i \<longrightarrow> rt_trace r \<notin> set xs"
  shows "\<exists>m. db_tables db' = (db_tables db)\<lparr>tb_traces := tb_traces (db_tables db) @ trace_rows i n (take m xs)\<rparr>
    \<and> (x = Inr () \<longrightarrow> length xs \<le> m)"
  using assms
proof (induction xs arbitrary: n db)
  case Nil
  then show ?case by (simp add: db_return_def trace_rows_def)
next
  case (Cons d xs)
  let ?row = "\<lparr>rt_incident = i, rt_trace = d, rt_position = n\<rparr>"
  have ins: "insert_trace ?row (db_tables db)
      = Some (1, (db_tables db)\<lparr>tb_traces := tb_traces (db_tables db) @ [?row]\<rparr>)"
    using Cons.prems(3) by (auto simp: insert_trace_def insert_or_ignore_def)
  have added: "(db_tables db1 = db_tables db \<and> (\<exists>e. y = Inl e))
      \<or> db_tables db1 = (db_tables db)\<lparr>tb_traces := tb_traces (db_tables db) @ [?row]\<rparr>"
    if "db_change (insert_trace ?row) db = (y, db1)" for y db1
    using that ins unfolding db_change_def by (auto elim!: db_execute_cases)
  have one: "trace_rows i n (take (Suc m) (d # xs)) = ?row # trace_rows i (Suc n) (take m xs)" for m
    by (simp add: trace_rows_def)
  show ?case using Cons.prems(1) unfolding insert_traces.simps
  proof (cases rule: db_then_cases)
    case (failed e)
    then show ?thesis
      using added [OF failed(1)] one [of 0]
      by (auto intro!: exI [of _ "if db_tables db' = db_tables db then 0 else 1"] simp: trace_rows_def)
  next
    case (on y db1)
    have t1: "db_tables db1 = (db_tables db)\<lparr>tb_traces := tb_traces (db_tables db) @ [?row]\<rparr>"
      using added [OF on(1)] by auto
    from Cons.IH [OF on(2)] Cons.prems(2,3) t1 obtain m where
      "db_tables db' = (db_tables db1)\<lparr>tb_traces := tb_traces (db_tables db1) @ trace_rows i (Suc n) (take m xs)\<rparr>"
      "x = Inr () \<longrightarrow> length xs \<le> m" by auto
    then show ?thesis using t1 one [of m] by (intro exI [of _ "Suc m"]) simp
  qed
qed

definition unlinked :: "uuid \<Rightarrow> tables \<Rightarrow> bool" where
  "unlinked i t \<longleftrightarrow> i \<notin> ri_id ` set (tb_incidents t) \<and> i \<notin> rd_incident ` set (tb_decisions t)
     \<and> i \<notin> rt_incident ` set (tb_traces t)"

definition with_links :: "uuid \<Rightarrow> int \<Rightarrow> uuid list \<Rightarrow> uuid list \<Rightarrow> tables \<Rightarrow> tables" where
  "with_links i ms ds xs t =
     t\<lparr>tb_decisions := tb_decisions t @ link_rows i ms 0 ds, tb_traces := tb_traces t @ trace_rows i 0 xs\<rparr>"

lemma link_rows_incident: "r \<in> set (link_rows i ms n ds) \<Longrightarrow> rd_incident r = i"
  "q \<in> set (trace_rows i n xs) \<Longrightarrow> rt_incident q = i"
  by (auto simp: link_rows_def trace_rows_def)

lemma link_rows_order:
  "sorted (map (\<lambda>r. (rd_added_at r, rd_position r, rd_decision r)) (link_rows i ms n ds))"
proof (induction ds arbitrary: n)
  case (Cons d ds)
  have "n < rd_position r \<and> rd_added_at r = ms" if "r \<in> set (link_rows i ms (Suc n) ds)" for r
    using that by (auto simp: link_rows_def in_set_enumerate_eq)
  then have "(ms, n, d) \<le> (rd_added_at r, rd_position r, rd_decision r)" if "r \<in> set (link_rows i ms (Suc n) ds)" for r
    using that by (simp add: less_eq_prod_def)
  moreover have "link_rows i ms n (d # ds)
      = \<lparr>rd_incident = i, rd_decision = d, rd_added_at = ms, rd_position = n\<rparr> # link_rows i ms (Suc n) ds"
    by (simp add: link_rows_def)
  ultimately show ?case using Cons by simp
qed (simp add: link_rows_def)

lemma trace_rows_order: "sorted (map rt_position (trace_rows i n xs))"
proof -
  have "map rt_position (trace_rows i n xs) = [n..<n + length xs]"
    by (simp add: trace_rows_def comp_def case_prod_unfold)
  then show ?thesis by simp
qed

lemma links_of:
  assumes "unlinked i t"
  shows "decisions_of i (with_links i ms ds xs t) = ds" and "traces_of i (with_links i ms ds xs t) = xs"
    and "j \<noteq> i \<Longrightarrow> decisions_of j (with_links i ms ds xs t) = decisions_of j t"
    and "j \<noteq> i \<Longrightarrow> traces_of j (with_links i ms ds xs t) = traces_of j t"
proof -
  have d: "filter (\<lambda>r. rd_incident r = i) (tb_decisions t) = []" "filter (\<lambda>r. rt_incident r = i) (tb_traces t) = []"
    using assms by (auto simp: unlinked_def filter_empty_conv)
  have l: "filter (\<lambda>r. rd_incident r = j) (link_rows i ms 0 ds) = (if j = i then link_rows i ms 0 ds else [])"
    "filter (\<lambda>r. rt_incident r = j) (trace_rows i 0 xs) = (if j = i then trace_rows i 0 xs else [])" for j
    by (auto simp: filter_empty_conv filter_id_conv dest: link_rows_incident)
  have m: "map rd_decision (link_rows i ms 0 ds) = ds" "map rt_trace (trace_rows i 0 xs) = xs"
    by (simp_all add: link_rows_def trace_rows_def comp_def case_prod_unfold)
  show "decisions_of i (with_links i ms ds xs t) = ds" "traces_of i (with_links i ms ds xs t) = xs"
    using d l [of i] m sort_key_id_if_sorted [OF link_rows_order [of i ms 0 ds]]
      sort_key_id_if_sorted [OF trace_rows_order [of i 0 xs]]
    by (simp_all add: decisions_of_def traces_of_def with_links_def)
  show "j \<noteq> i \<Longrightarrow> decisions_of j (with_links i ms ds xs t) = decisions_of j t"
    "j \<noteq> i \<Longrightarrow> traces_of j (with_links i ms ds xs t) = traces_of j t"
    using l [of j] by (simp_all add: decisions_of_def traces_of_def with_links_def)
qed

lemma links_invisible:
  assumes "unlinked i t"
  shows "case_seen (with_links i ms ds xs t) j tn = case_seen t j tn" and "case_seen t i tn = None"
proof -
  show none: "case_seen t i tn = None"
    using assms by (auto simp: case_seen_def unlinked_def find_None_iff)
  have "tb_incidents (with_links i ms ds xs t) = tb_incidents t" by (simp add: with_links_def)
  then show "case_seen (with_links i ms ds xs t) j tn = case_seen t j tn"
    using links_of(3,4) [OF assms, of j ms ds xs] none
    by (cases "j = i") (auto simp: case_seen_def)
qed

lemma case_added:
  assumes "unlinked i t" and "t1 = with_links i ms ds xs t"
    and "t' = t1\<lparr>tb_incidents := tb_incidents t1 @ [new_incident_row ms i tn ti sev who]\<rparr>"
  shows "j \<noteq> i \<Longrightarrow> case_seen t' j tn' = case_seen t j tn'"
    and "case_seen t' i tn' = (if tn' = tn then Some (incident_of (new_incident_row ms i tn ti sev who) ds xs) else None)"
proof -
  have same: "decisions_of j t' = decisions_of j t1" "traces_of j t' = traces_of j t1" for j
    using assms(3) by (simp_all add: decisions_of_def traces_of_def)
  have inc: "tb_incidents t1 = tb_incidents t" using assms(2) by (simp add: with_links_def)
  have inc': "tb_incidents t' = tb_incidents t @ [new_incident_row ms i tn ti sev who]" using assms(3) inc by simp
  have old: "find (\<lambda>r. ri_id r = i \<and> ri_tenant r = tn') (tb_incidents t) = None"
    using links_invisible(2) [OF assms(1), of tn'] by (simp add: case_seen_def)
  have row: "ri_id (new_incident_row ms i tn ti sev who) = i" "ri_tenant (new_incident_row ms i tn ti sev who) = tn"
    by (simp_all add: new_incident_row_def)
  show "case_seen t' i tn' = (if tn' = tn then Some (incident_of (new_incident_row ms i tn ti sev who) ds xs) else None)"
    using links_of(1,2) [OF assms(1), of ms ds xs] old inc
    by (cases "tn' = tn") (simp_all add: case_seen_def same assms(2) inc' find_in_append row)
  show "case_seen t' j tn' = case_seen t j tn'" if "j \<noteq> i"
    using links_of(3,4) [OF assms(1) that, of ms ds xs] inc that
    by (simp add: case_seen_def same assms(2) inc' find_in_append row split: option.split)
qed

lemma si_open_result:
  assumes "unlinked i (db_tables db)" and "distinct (map sd_decision_id ds)"
    and "si_open db now i tn ti sev who ds = (x, db')"
  shows "(\<exists>m k. db_tables db' = with_links i (millis now) (take m (map sd_decision_id ds))
        (take k (rev (remdups (rev (map sd_trace_id ds))))) (db_tables db) \<and> (\<exists>e. x = Inl e))
    \<or> (\<exists>t1. t1 = with_links i (millis now) (map sd_decision_id ds) (rev (remdups (rev (map sd_trace_id ds)))) (db_tables db)
        \<and> db_tables db' = t1\<lparr>tb_incidents := tb_incidents t1 @ [new_incident_row (millis now) i tn ti sev who]\<rparr>
        \<and> (\<forall>c. x = Inr c \<longrightarrow> case_seen (db_tables db') i tn = Some c))"
proof -
  let ?ms = "millis now" and ?ds = "map sd_decision_id ds" and ?xs = "rev (remdups (rev (map sd_trace_id ds)))"
  let ?t = "db_tables db" and ?row = "new_incident_row (millis now) i tn ti sev who"
  have free: "\<forall>r \<in> set (tb_decisions ?t). rd_incident r = i \<longrightarrow> rd_decision r \<notin> set ?ds"
    "\<forall>r \<in> set (tb_traces ?t). rt_incident r = i \<longrightarrow> rt_trace r \<notin> set ?xs" "i \<notin> ri_id ` set (tb_incidents ?t)"
    using assms(1) by (auto simp: unlinked_def)
  have trace_rows_Nil: "trace_rows i 0 [] = []" by (simp add: trace_rows_def)
  from assms(3) show ?thesis
    unfolding si_open_def Let_def
  proof (cases rule: db_then_cases)
    case (failed e)
    obtain m where "db_tables db' = ?t\<lparr>tb_decisions := tb_decisions ?t @ link_rows i ?ms 0 (take m ?ds)\<rparr>"
      using attach_all_result [OF failed(1) assms(2) free(1)] by blast
    then have "db_tables db' = with_links i ?ms (take m ?ds) (take 0 ?xs) ?t"
      by (simp add: with_links_def trace_rows_Nil)
    then show ?thesis using failed(2) by blast
  next
    case (on y db1)
    then obtain m where m: "db_tables db1 = ?t\<lparr>tb_decisions := tb_decisions ?t @ link_rows i ?ms 0 (take m ?ds)\<rparr>"
      "length ?ds \<le> m"
      using attach_all_result [OF on(1) assms(2) free(1)] by auto
    then have t1: "db_tables db1 = ?t\<lparr>tb_decisions := tb_decisions ?t @ link_rows i ?ms 0 ?ds\<rparr>" by simp
    have free1: "\<forall>r \<in> set (tb_traces (db_tables db1)). rt_incident r = i \<longrightarrow> rt_trace r \<notin> set ?xs"
      using free(2) t1 by simp
    from on(2) show ?thesis
    proof (cases rule: db_then_cases)
      case (failed e)
      obtain k where "db_tables db' = (db_tables db1)\<lparr>tb_traces := tb_traces (db_tables db1) @ trace_rows i 0 (take k ?xs)\<rparr>"
        using insert_traces_result [OF failed(1) _ free1] by auto
      then have "db_tables db' = with_links i ?ms (take (length ?ds) ?ds) (take k ?xs) ?t"
        using t1 by (simp add: with_links_def)
      then show ?thesis using failed(2) by blast
    next
      case (on z db2)
      then obtain k where "db_tables db2 = (db_tables db1)\<lparr>tb_traces := tb_traces (db_tables db1) @ trace_rows i 0 (take k ?xs)\<rparr>"
        "length ?xs \<le> k"
        using insert_traces_result [OF on(1) _ free1] by auto
      then have t2: "db_tables db2 = with_links i ?ms ?ds ?xs ?t" using t1 by (simp add: with_links_def)
      then have ins: "insert_incident ?row (db_tables db2)
          = Some (1, (db_tables db2)\<lparr>tb_incidents := tb_incidents (db_tables db2) @ [?row]\<rparr>)"
        using free(3) by (simp add: insert_incident_def with_links_def new_incident_row_def)
      have inserted: "(db_tables db3 = db_tables db2 \<and> (\<exists>e. w = Inl e))
          \<or> db_tables db3 = (db_tables db2)\<lparr>tb_incidents := tb_incidents (db_tables db2) @ [?row]\<rparr>"
        if "db_change (insert_incident ?row) db2 = (w, db3)" for w db3
        using that ins unfolding db_change_def by (auto elim!: db_execute_cases)
      from on(2) show ?thesis
      proof (cases rule: db_then_cases)
        case (failed e)
        show ?thesis
        proof (cases "db_tables db' = db_tables db2")
          case True
          then have "db_tables db' = with_links i ?ms (take (length ?ds) ?ds) (take (length ?xs) ?xs) ?t"
            using t2 by simp
          then show ?thesis using failed(2) by blast
        next
          case False
          then show ?thesis using inserted [OF failed(1)] failed(2) t2 by auto
        qed
      next
        case (on w db3)
        then have t3: "db_tables db3 = (db_tables db2)\<lparr>tb_incidents := tb_incidents (db_tables db2) @ [?row]\<rparr>"
          using inserted [OF on(1)] by auto
        have got: "case_seen (db_tables db') i tn = Some c" if "si_get db3 i tn = (Inr (Some c), db')" for c db'
          using si_get_result(1) [OF that] si_get_result(2) [OF that refl] by simp
        have "db_tables db' = db_tables db3 \<and> (\<forall>c. x = Inr c \<longrightarrow> case_seen (db_tables db') i tn = Some c)"
          using on(2) got
          by (auto elim!: db_then_cases dest: si_get_result(1) simp: db_return_def split: option.splits)
        then show ?thesis using t2 t3 by auto
      qed
    qed
  qed
qed

section \<open>Claims\<close>

text \<open>
  C29: Single use and prior authorisation hold in the database too. For any history of calls on an
  SQL approval store that starts without approvals, whatever of its statements the server refuses,
  applies, or applies without answering: at most one consumption of an approval succeeds, and one
  that succeeds presented the digest and tenant the approval was created with, after a reviewer
  approved it.
\<close>

theorem sql_approvals_sound:
  assumes "fair_history cs" and "tb_approvals t0 = []"
  shows "length (consumptions i (consumed_in (sql_repo ttl) (new_database t0 outcomes) cs)) \<le> 1
    \<and> ((t, Consume i d tn) \<in> set (consumed_in (sql_repo ttl) (new_database t0 outcomes) cs) \<longrightarrow>
        (\<exists>pre post rq rv ra. cs = pre @ (t, Consume i d tn) # post
          \<and> Create i d tn rq \<in> snd ` set pre \<and> Approve i rv ra \<in> snd ` set pre))"
proof (rule sql.empty_store_sound [OF _ _ assms(1)])
  show "sq_inv (new_database t0 outcomes)" using assms(2) by (simp add: sq_inv_def new_database_def)
qed (simp add: sq_seen_def row_of_def new_database_def assms(2))

text \<open>A server that loses the answer to the first consumption and refuses a connection once.\<close>

definition flaky :: "outcome list" where
  "flaky = replicate 10 Done @ [Lost, Refused]"

theorem sql_approvals_sound_witness:
  "fair_history race
   \<and> length (consumptions 7 (consumed_in (sql_repo 300) (new_database no_tables flaky) race)) \<le> 1"
  using sql_approvals_sound [of race no_tables 7 300 flaky]
  by (simp add: fair_history_def race_def no_tables_def)

text \<open>
  C30: A case appears whole or not at all. Opening a case under a new identifier on distinct decisions,
  however many of its statements fail and wherever, changes what is read of no other case; of the
  new one a reader of any tenant sees either nothing, or, for its own tenant only, the complete case
  with all its decisions and traces, at the moment in milliseconds; and when the call answers, it
  answers with that.
\<close>

theorem sql_case_all_or_nothing:
  assumes "unlinked i (db_tables db)" and "distinct (map sd_decision_id ds)"
    and "si_open db now i tn ti sev who ds = (x, db')"
  shows "(\<forall>j tn'. j \<noteq> i \<longrightarrow> case_seen (db_tables db') j tn' = case_seen (db_tables db) j tn')
    \<and> ((\<forall>tn'. case_seen (db_tables db') i tn' = None) \<and> (\<forall>c. x \<noteq> Inr c)
      \<or> (\<forall>tn'. case_seen (db_tables db') i tn'
            = (if tn' = tn then Some (new_incident i (moment (millis now)) tn ti sev who ds) else None))
        \<and> (\<forall>c. x = Inr c \<longrightarrow> c = new_incident i (moment (millis now)) tn ti sev who ds))"
  using si_open_result [OF assms]
proof (elim disjE exE conjE)
  fix m k e
  assume t: "db_tables db' = with_links i (millis now) (take m (map sd_decision_id ds))
      (take k (rev (remdups (rev (map sd_trace_id ds))))) (db_tables db)" and "x = Inl e"
  then show ?thesis using links_invisible [OF assms(1)] by simp
next
  let ?ds = "map sd_decision_id ds" and ?xs = "rev (remdups (rev (map sd_trace_id ds)))"
  fix t1 assume t1: "t1 = with_links i (millis now) ?ds ?xs (db_tables db)"
    and t': "db_tables db' = t1\<lparr>tb_incidents := tb_incidents t1 @ [new_incident_row (millis now) i tn ti sev who]\<rparr>"
    and x: "\<forall>c. x = Inr c \<longrightarrow> case_seen (db_tables db') i tn = Some c"
  have "incident_of (new_incident_row (millis now) i tn ti sev who) ?ds ?xs
      = new_incident i (moment (millis now)) tn ti sev who ds"
    by (simp add: incident_of_def new_incident_row_def new_incident_def)
  then show ?thesis using case_added [OF assms(1) t1 t'] x by simp
qed

definition example_database :: database where
  "example_database = new_database no_tables []"

theorem sql_case_all_or_nothing_witness:
  "\<exists>x db'. si_open example_database 5000 9 (lit ''acme'') (lit ''leak'') CRITICAL (lit ''eve'') [] = (x, db')
    \<and> case_seen (db_tables db') 9 (lit ''acme'')
      \<in> {None, Some (new_incident 9 (moment (millis 5000)) (lit ''acme'') (lit ''leak'') CRITICAL (lit ''eve'') [])}"
proof -
  obtain x db' where open_case:
    "si_open example_database 5000 9 (lit ''acme'') (lit ''leak'') CRITICAL (lit ''eve'') [] = (x, db')" by fastforce
  have "unlinked 9 (db_tables example_database)"
    by (simp add: unlinked_def example_database_def new_database_def no_tables_def)
  from sql_case_all_or_nothing [OF this _ open_case] open_case show ?thesis by auto
qed

end
