(* ===== verification/Opa.thy ===== *)
theory Opa
  imports Policy Identity
begin

text \<open>
  The policy decision point over an OPA server, \<^verbatim>\<open>opa.py\<close>. The server is outside the program: an
  \<open>opa_client\<close> is what it answers to a document, and the JSON of the documents and of the answers is
  \<open>py_value\<close>. What holds of every decision point, this one and the built-in one, whatever its
  rules are, is the locale \<open>guarded_engine\<close>.
\<close>

section \<open>The server\<close>

record opa_client =
  oc_post :: "str \<Rightarrow> py_value \<Rightarrow> py_value option" \<comment> \<open>\<open>None\<close>: an \<^verbatim>\<open>HTTPError\<close>, or no JSON\<close>
  oc_health :: "nat option" \<comment> \<open>the status of \<^verbatim>\<open>/health\<close>; \<open>None\<close>: an \<^verbatim>\<open>HTTPError\<close>\<close>

definition CONTENT_PATH :: str where "CONTENT_PATH = lit ''/v1/data/guardrail/content/decision''"

definition ACTION_PATH :: str where "ACTION_PATH = lit ''/v1/data/guardrail/action/decision''"

definition reason_code :: regex where
  "reason_code = Cat (Cls (\<lambda>c. 97 \<le> c \<and> c \<le> 122))
     (Rep True 2 (Some 61) (Cls (\<lambda>c. 97 \<le> c \<and> c \<le> 122 \<or> ascii_digit c \<or> c = 95)))"

definition CONTENT_VERDICTS :: "verdict list" where "CONTENT_VERDICTS = [ALLOW, DENY, TRANSFORM]"

definition ACTION_VERDICTS :: "verdict list" where "ACTION_VERDICTS = [ALLOW, DENY, REQUIRE_APPROVAL]"

text \<open>\<^verbatim>\<open>Verdict(value)\<close>; \<open>None\<close> is its \<^verbatim>\<open>ValueError\<close>.\<close>

definition verdict_of :: "py_value \<Rightarrow> verdict option" where
  "verdict_of v = find (\<lambda>x. PStr (verdict_value x) = v) [ALLOW, DENY, TRANSFORM, REQUIRE_APPROVAL]"

section \<open>The registry as data\<close>

definition sorted_values :: "str set \<Rightarrow> py_value" where
  "sorted_values xs = PList (map PStr (sorted_list_of_set xs))"

definition tool_registry_data :: py_value where
  "tool_registry_data = PDict
     [(lit ''approval_effects'', sorted_values (side_effect_value ` APPROVAL_EFFECTS)),
      (lit ''tools'', PDict (map (\<lambda>(name, spec). (name, PDict
         [(lit ''effects'', sorted_values (side_effect_value ` ts_effects spec)),
          (lit ''roles'', sorted_values (role_value ` ts_roles spec))])) (sort_key fst TOOLS)))]"

section \<open>OpaPolicyEngine\<close>

text \<open>
  \<^verbatim>\<open>_decide\<close>: every exception of reading the answer is one the code catches, so each is the
  same error.
\<close>

definition opa_decide :: "opa_client \<Rightarrow> str \<Rightarrow> py_value \<Rightarrow> verdict list \<Rightarrow> policy_error + verdict \<times> str" where
  "opa_decide c path document permitted =
     (case oc_post c path (PDict [(lit ''input'', document)]) of
        None \<Rightarrow> Inl PolicyEngineUnavailableError
      | Some answer \<Rightarrow>
          (case subscript answer (lit ''result'') of
             Inl _ \<Rightarrow> Inl PolicyEngineUnavailableError
           | Inr result \<Rightarrow>
               (case subscript result (lit ''verdict'') of
                  Inl _ \<Rightarrow> Inl PolicyEngineUnavailableError
                | Inr value \<Rightarrow>
                    (case verdict_of value of
                       None \<Rightarrow> Inl PolicyEngineUnavailableError
                     | Some v \<Rightarrow>
                         (case subscript result (lit ''reason_code'') of
                            Inl _ \<Rightarrow> Inl PolicyEngineUnavailableError
                          | Inr reason \<Rightarrow>
                              if v \<notin> set permitted then Inl PolicyEngineUnavailableError
                              else (case reason of
                                      PStr r \<Rightarrow> if fullmatch reason_code r then Inr (v, r)
                                                else Inl PolicyEngineUnavailableError
                                    | _ \<Rightarrow> Inl PolicyEngineUnavailableError))))))"

definition content_document ::
  "settings \<Rightarrow> enforcement_point \<Rightarrow> trust_level \<Rightarrow> str option \<Rightarrow> str \<Rightarrow> evidence list \<Rightarrow> py_value" where
  "content_document s point trust source_tenant tenant evidence =
     (let resolve = action_resolver s tenant;
          categories = sorted_list_of_set (ev_category ` set evidence)
      in PDict
        [(lit ''enforcement_point'', PStr (point_value point)), (lit ''trust_level'', PStr (trust_value trust)),
         (lit ''source_tenant_id'', case source_tenant of None \<Rightarrow> PNone | Some t \<Rightarrow> PStr t),
         (lit ''tenant_id'', PStr tenant),
         (lit ''evidence'', PList (map (\<lambda>e. PDict [(lit ''category'', PStr (ev_category e)),
            (lit ''obfuscated'', PBool (ev_detector e = DECODED_DETECTOR))]) evidence)),
         (lit ''entity_actions'', PDict (map (\<lambda>c. (c, PStr (entity_action_value (resolve c)))) categories))])"

definition opa_content_verdict ::
  "settings \<Rightarrow> opa_client \<Rightarrow> enforcement_point \<Rightarrow> trust_level \<Rightarrow> str option \<Rightarrow> str \<Rightarrow> evidence list
    \<Rightarrow> policy_error + verdict \<times> str" where
  "opa_content_verdict s c point trust source_tenant tenant evidence =
     opa_decide c CONTENT_PATH (content_document s point trust source_tenant tenant evidence) CONTENT_VERDICTS"

text \<open>\<open>digest\<close> is \<^verbatim>\<open>action_digest(request)\<close>.\<close>

definition action_document :: "(action_request \<Rightarrow> str) \<Rightarrow> action_request \<Rightarrow> role set \<Rightarrow> str option \<Rightarrow> py_value" where
  "action_document digest r roles violation = PDict
     [(lit ''enforcement_point'', PStr (point_value ACTION)), (lit ''identity'', PStr (ar_identity r)),
      (lit ''tenant_id'', PStr (ar_tenant_id r)), (lit ''roles'', sorted_values (role_value ` roles)),
      (lit ''tool'', PStr (ar_tool r)), (lit ''resource'', PStr (ar_resource r)),
      (lit ''side_effect'', PStr (side_effect_value (ar_side_effect r))),
      (lit ''argument_digest'', PStr (digest r)),
      (lit ''facts'', PDict [(lit ''argument_violation'', case violation of None \<Rightarrow> PNone | Some v \<Rightarrow> PStr v)])]"

definition opa_action_verdict ::
  "parsers \<Rightarrow> settings \<Rightarrow> (action_request \<Rightarrow> str) \<Rightarrow> opa_client \<Rightarrow> action_request \<Rightarrow> role set
    \<Rightarrow> policy_error + verdict \<times> str" where
  "opa_action_verdict ps s digest c r roles =
     (let violation = argument_violation ps r (local_config (pa_unicode ps) s) in
      (case opa_decide c ACTION_PATH (action_document digest r roles violation) ACTION_VERDICTS of
         Inl e \<Rightarrow> Inl e
       | Inr (v, reason) \<Rightarrow>
           (case violation of
              Some x \<Rightarrow> if v \<noteq> DENY then Inr (DENY, x) else Inr (v, reason)
            | None \<Rightarrow> Inr (v, reason))))"

definition opa_policy_engine :: "parsers \<Rightarrow> settings \<Rightarrow> (action_request \<Rightarrow> str) \<Rightarrow> opa_client \<Rightarrow> policy_engine" where
  "opa_policy_engine ps s digest c =
     \<lparr>pe_content = opa_content_verdict s c, pe_action = opa_action_verdict ps s digest c\<rparr>"

definition opa_available :: "opa_client \<Rightarrow> bool" where
  "opa_available c = (oc_health c = Some 200)"

section \<open>What every engine guarantees\<close>

text \<open>
  Whatever the rules are: content is never put up for approval, an action never transformed, and an
  action whose arguments the gateway found wrong is denied.
\<close>

locale guarded_engine =
  fixes engine :: policy_engine and ps :: parsers and s :: settings
  assumes content_kind: "pe_content engine point trust src tenant es = Inr (v, reason) \<Longrightarrow> v \<noteq> REQUIRE_APPROVAL"
    and action_kind: "pe_action engine r roles = Inr (v, reason) \<Longrightarrow> v \<noteq> TRANSFORM"
    and argument_floor: "pe_action engine r roles = Inr (v, reason) \<Longrightarrow> v \<noteq> DENY \<Longrightarrow>
      argument_violation ps r (local_config (pa_unicode ps) s) = None"
begin

lemma code_is_there:
  assumes "pe_action engine r roles = Inr (v, reason)" and "v \<noteq> DENY" and "ar_tool r = CODE_TOOL"
  shows "\<exists>code. map_of (ar_arguments r) (lit ''code'') = Some (PStr code)"
  using argument_code [OF argument_floor [OF assms(1,2)] assms(3)] by blast

end

lemma content_verdict_kind: "fst (content_verdict point trust src tenant es f) \<noteq> REQUIRE_APPROVAL"
  by (simp add: content_verdict_def Let_def)

interpretation builtin: guarded_engine "local_policy_engine ps s" ps s for ps s
proof unfold_locales
  fix point trust src tenant es v reason
  assume "pe_content (local_policy_engine ps s) point trust src tenant es = Inr (v, reason)"
  then show "v \<noteq> REQUIRE_APPROVAL"
    using content_verdict_kind [of point trust src tenant es "Some (action_resolver s tenant)"]
    by (auto simp: local_policy_engine_def local_content_verdict_def)
next
  fix r roles v reason
  assume "pe_action (local_policy_engine ps s) r roles = Inr (v, reason)"
  then have v: "action_verdict ps r roles (local_config (pa_unicode ps) s) = (v, reason)"
    by (simp add: local_policy_engine_def local_action_verdict_def)
  then show "v \<noteq> TRANSFORM" by (auto simp: action_verdict_def split: option.splits if_splits)
  show "argument_violation ps r (local_config (pa_unicode ps) s) = None" if "v \<noteq> DENY"
    using action_not_denied [of ps r roles "local_config (pa_unicode ps) s"] v that by auto
qed

lemma opa_decide_permitted:
  assumes "opa_decide c path document permitted = Inr (v, reason)"
  shows "v \<in> set permitted" and "fullmatch reason_code reason"
    and "\<exists>answer result. oc_post c path (PDict [(lit ''input'', document)]) = Some answer
      \<and> subscript answer (lit ''result'') = Inr result
      \<and> subscript result (lit ''verdict'') = Inr (PStr (verdict_value v))
      \<and> subscript result (lit ''reason_code'') = Inr (PStr reason)"
proof -
  have "verdict_of x = Some v \<Longrightarrow> x = PStr (verdict_value v)" for x
    by (auto simp: verdict_of_def split: if_splits)
  then show "v \<in> set permitted" "fullmatch reason_code reason"
    "\<exists>answer result. oc_post c path (PDict [(lit ''input'', document)]) = Some answer
      \<and> subscript answer (lit ''result'') = Inr result
      \<and> subscript result (lit ''verdict'') = Inr (PStr (verdict_value v))
      \<and> subscript result (lit ''reason_code'') = Inr (PStr reason)"
    using assms by (auto simp: opa_decide_def split: option.splits sum.splits py_value.splits if_splits)
qed

interpretation opa: guarded_engine "opa_policy_engine ps s digest c" ps s for ps s digest c
proof unfold_locales
  fix point trust src tenant es v reason
  assume "pe_content (opa_policy_engine ps s digest c) point trust src tenant es = Inr (v, reason)"
  then show "v \<noteq> REQUIRE_APPROVAL"
    using opa_decide_permitted(1)
    by (fastforce simp: opa_policy_engine_def opa_content_verdict_def CONTENT_VERDICTS_def)
next
  fix r roles v reason
  assume v: "pe_action (opa_policy_engine ps s digest c) r roles = Inr (v, reason)"
  let ?violation = "argument_violation ps r (local_config (pa_unicode ps) s)"
  obtain v0 reason0 where d: "opa_decide c ACTION_PATH (action_document digest r roles ?violation) ACTION_VERDICTS
      = Inr (v0, reason0)" "v = v0 \<or> v = DENY" "v \<noteq> DENY \<longrightarrow> ?violation = None"
    using v by (auto simp: opa_policy_engine_def opa_action_verdict_def Let_def split: sum.splits option.splits if_splits)
  then show "v \<noteq> TRANSFORM" using opa_decide_permitted(1) [OF d(1)] by (auto simp: ACTION_VERDICTS_def)
  show "?violation = None" if "v \<noteq> DENY" using d(3) that by simp
qed

section \<open>Claims\<close>

text \<open>
  C25: An OPA server can restrict the gateway and not open it. Whatever the server answers, an action is let
  through, plainly or for approval, only if the server answered the gateway's question with exactly
  that verdict and a well-formed reason, and the gateway's own parsers found nothing wrong with the
  arguments; and of the arguments the question carries only their digest.
\<close>

theorem opa_floor:
  assumes "pe_action (opa_policy_engine ps s digest c) r roles = Inr (v, reason)" and "v \<noteq> DENY"
  shows "argument_violation ps r (local_config (pa_unicode ps) s) = None \<and> v \<in> {ALLOW, REQUIRE_APPROVAL}
    \<and> fullmatch reason_code reason
    \<and> (\<exists>answer result. oc_post c ACTION_PATH (PDict [(lit ''input'', action_document digest r roles None)]) = Some answer
        \<and> subscript answer (lit ''result'') = Inr result
        \<and> subscript result (lit ''verdict'') = Inr (PStr (verdict_value v))
        \<and> subscript result (lit ''reason_code'') = Inr (PStr reason))
    \<and> (\<forall>args. digest (r\<lparr>ar_arguments := args\<rparr>) = digest r \<longrightarrow>
        action_document digest (r\<lparr>ar_arguments := args\<rparr>) roles None = action_document digest r roles None)"
proof -
  have floor: "argument_violation ps r (local_config (pa_unicode ps) s) = None"
    using assms by (rule opa.argument_floor)
  then have d: "opa_decide c ACTION_PATH (action_document digest r roles None) ACTION_VERDICTS = Inr (v, reason)"
    using assms(1) by (auto simp: opa_policy_engine_def opa_action_verdict_def Let_def split: sum.splits)
  have "v \<in> {ALLOW, REQUIRE_APPROVAL}"
    using opa_decide_permitted(1) [OF d] assms(2) by (auto simp: ACTION_VERDICTS_def)
  moreover have "action_document digest (r\<lparr>ar_arguments := args\<rparr>) roles None = action_document digest r roles None"
    if "digest (r\<lparr>ar_arguments := args\<rparr>) = digest r" for args
    using that by (simp add: action_document_def)
  ultimately show ?thesis using floor opa_decide_permitted(2,3) [OF d] by blast
qed

text \<open>A server that permits everything.\<close>

definition lax_server :: opa_client where
  "lax_server = \<lparr>oc_post = (\<lambda>path document. Some (PDict [(lit ''result'', PDict
     [(lit ''verdict'', PStr (lit ''allow'')), (lit ''reason_code'', PStr (lit ''all''))])])), oc_health = Some 200\<rparr>"

lemma lax_answer: "opa_decide lax_server path document ACTION_VERDICTS = Inr (ALLOW, lit ''all'')"
proof -
  have "fullmatch reason_code (lit ''all'')"
    by (simp add: fullmatch_def reason_code_def lit_def ascii_digit_def numeral_eq_Suc)
  then show ?thesis
    by (simp add: opa_decide_def lax_server_def subscript_def verdict_of_def ACTION_VERDICTS_def)
qed

theorem opa_floor_witness:
  "argument_violation example_parsers example_read (local_config (pa_unicode example_parsers) default_settings) = None
   \<and> fullmatch reason_code (lit ''all'')"
proof -
  have "argument_violation example_parsers example_read (local_config (pa_unicode example_parsers) default_settings) = None"
    by (simp add: example_read_def TOOLS_def argument_violation_def
      validate_arguments_def only_fields_def both_def str_field_def limit_field_def sized_def)
  then have "pe_action (opa_policy_engine example_parsers default_settings (\<lambda>_. []) lax_server) example_read {CALLER}
      = Inr (ALLOW, lit ''all'')"
    by (simp add: opa_policy_engine_def opa_action_verdict_def lax_answer)
  from opa_floor [OF this] show ?thesis by simp
qed

end
