(* ===== verification/Answers.thy ===== *)
theory Answers
  imports Access Stores Opa
begin

text \<open>
  What an answer of the application can be, for any request to a gateway in any state its requests
  can bring it to: it is never an exception, and what it shows belongs to the caller's tenant.
\<close>

section \<open>No request raises\<close>

lemma gateway_ok_incidents [simp]: "gateway_ok s \<Longrightarrow> gateway_ok (s\<lparr>gw_incidents := n\<rparr>)"
  by (simp add: gateway_ok_def log_fresh_def)

lemma approval_answers_ok:
  assumes "gateway_ok s"
  shows "gateway_ok (snd (get_approval P E i p s))" and "gateway_ok (snd (adjudicate_action f outcome P E i ra p s))"
proof -
  have read: "gateway_ok (snd (approval_read P E i s))"
    using assms by (simp add: approval_read_def case_prod_unfold Let_def)
  then show "gateway_ok (snd (get_approval P E i p s))"
    by (auto simp: get_approval_def split: prod.split sum.split option.split)
  have "gateway_ok (snd (adjudicable P E i p s))"
    using read assms by (auto simp: adjudicable_def split: prod.split sum.split option.split)
  then show "gateway_ok (snd (adjudicate_action f outcome P E i ra p s))"
    by (auto simp: adjudicate_action_def split: prod.split sum.split)
qed

lemma incident_answers_ok:
  assumes "gateway_ok s"
  shows "gateway_ok (snd (open_incident P E r p s))" and "gateway_ok (snd (list_incidents P p s))"
    and "gateway_ok (snd (get_incident P i p s))" and "gateway_ok (snd (update_incident P E i u p s))"
proof -
  have answer: "gateway_ok s1 \<Longrightarrow> gateway_ok (snd (incident_answer s1 y))"
    for s1 :: "('a, 'b, 'c) gateway" and y :: "(store_error + 'x) \<times> 'c"
    by (auto simp: incident_answer_def split: prod.split sum.split)
  have found: "snd (found_or_404 z) = snd z" for z :: "(incident option, ('a, 'b, 'c) gateway) answer"
    by (auto simp: found_or_404_def split: prod.split sum.split option.split)
  show "gateway_ok (snd (open_incident P E r p s))" "gateway_ok (snd (list_incidents P p s))"
    "gateway_ok (snd (get_incident P i p s))" "gateway_ok (snd (update_incident P E i u p s))"
    using assms by (simp_all add: open_incident_def list_incidents_def get_incident_def update_incident_def
        found answer case_prod_unfold Let_def)
qed

lemma restore_endpoint_ok: "gateway_ok s \<Longrightarrow> gateway_ok (snd (restore_endpoint P E r p s))"
  using restore_pseudonyms_ok [of s P E r p] by (auto simp: restore_endpoint_def split: prod.split option.split)

text \<open>Code that is run was allowed, so the gateway's parsers have seen that it is there.\<close>

lemma guarded_allows:
  assumes "guarded_engine (ce_policy E) (po_parsers P) (po_settings P)"
    and "inspect_action P E r p s = Inr (d, s')" and "sd_verdict d = ALLOW"
  shows "argument_violation (po_parsers P) r (local_config (pa_unicode (po_parsers P)) (po_settings P)) = None"
proof -
  have policy: "argument_violation (po_parsers P) r (local_config (pa_unicode (po_parsers P)) (po_settings P)) = None"
    if "action_policy P E r p = Inr (v, reason)" "v \<noteq> DENY" for v reason
  proof (cases "pe_action (ce_policy E) r (pr_roles p)")
    case (Inl e)
    then have "fst (local_action_verdict (po_parsers P) (po_settings P) r (pr_roles p)) \<noteq> DENY"
      using that by (auto simp: action_policy_def Let_def split: if_splits prod.splits)
    then show ?thesis
      using action_not_denied by (metis local_action_verdict_def)
  next
    case (Inr x)
    then have "pe_action (ce_policy E) r (pr_roles p) = Inr (v, reason)"
      using that by (cases x) (simp add: action_policy_def)
    then show ?thesis using guarded_engine.argument_floor [OF assms(1)] that(2) by blast
  qed
  from assms(2) show ?thesis
  proof (cases rule: inspect_action_cases)
    case (denied s1 reason digest)
    then show ?thesis using decided_verdict(1) [OF denied(1)] assms(3) by simp
  next
    case (decided s1 v reason)
    then show ?thesis using policy [OF decided(3)] decided_verdict(1) [OF decided(5)] assms(3) by simp
  next
    case (settled s1 reason)
    then show ?thesis using policy [OF settled(3)] by simp
  qed
qed

lemma execute_action_total:
  assumes "gateway_ok s" and "guarded_engine (ce_policy E) (po_parsers P) (po_settings P)"
  shows "returns (execute_action P E r p s) (\<lambda>x. gateway_ok (snd x))"
proof (cases "ar_tool r = CODE_TOOL")
  case True
  obtain d s1 where run: "inspect_action P E r p s = Inr (d, s1)" "gateway_ok s1"
    using inspect_action_total [OF assms(1), of P E r p] by (auto simp: returns_def)
  have "\<exists>code. map_of (ar_arguments r) (lit ''code'') = Some (PStr code)" if "sd_verdict d = ALLOW"
    using argument_code [OF guarded_allows [OF assms(2) run(1) that] True] by blast
  then have "returns (execute P E r p s) (\<lambda>x. gateway_ok (snd x))"
    using run assms(1) by (auto simp: execute_def Let_def publish_operation_ok split: option.split sum.split)
  then show ?thesis
    unfolding execute_action_def using True
    by (auto simp: returns_def split: option.split)
qed (use assms in \<open>simp add: execute_action_def\<close>)

lemma serve_total:
  assumes "gateway_ok s" and "guarded_engine (ce_policy E) (po_parsers P) (po_settings P)"
  shows "returns (serve P E q p s) (\<lambda>x. gateway_ok (snd x))"
proof -
  have raising: "returns (raising f m) (\<lambda>x. gateway_ok (snd x))"
    if "returns m (\<lambda>x. gateway_ok (snd x))" for f :: "'x \<Rightarrow> response" and m :: "py_error + 'x \<times> ('a, 'b, 'c) gateway"
    using that by (auto simp: returns_def raising_def)
  have content: "returns (inspect_content P E call point p s) (\<lambda>x. gateway_ok (snd x))" for call point
    using inspect_content_total [OF assms(1)] by (rule returns_mono) simp
  have action: "returns (inspect_action P E r p s) (\<lambda>x. gateway_ok (snd x))" for r
    using inspect_action_total [OF assms(1)] by (rule returns_mono) simp
  have execute: "returns (case execute_action P E r p s of Inl e \<Rightarrow> Inl e | Inr x \<Rightarrow> Inr (body ExecutionBody x))
      (\<lambda>x. gateway_ok (snd x))" for r
    by (rule returns_bind [OF execute_action_total [OF assms]]) simp
  show ?thesis
    using assms(1) content action execute inspect_context_batch_total [OF assms(1)]
    by (cases q) (auto simp: raising approval_answers_ok incident_answers_ok restore_endpoint_ok approve_action_def
        reject_action_def)
qed

text \<open>Every request of a history leaves the gateway well formed, whatever decides its policy.\<close>

lemma serve_keeps_ok:
  assumes "gateway_ok s" and "serve P E q p s = Inr (x, s')"
  shows "gateway_ok s'"
proof -
  have raising: "gateway_ok s'"
    if "returns m (\<lambda>x. gateway_ok (snd x))" "raising f m = Inr (x, s')"
    for f :: "'x \<Rightarrow> response" and m :: "py_error + 'x \<times> ('a, 'b, 'c) gateway"
    using that by (auto simp: returns_def raising_def)
  have content: "returns (inspect_content P E call point p s) (\<lambda>x. gateway_ok (snd x))" for call point
    using inspect_content_total [OF assms(1)] by (rule returns_mono) simp
  have action: "returns (inspect_action P E r p s) (\<lambda>x. gateway_ok (snd x))" for r
    using inspect_action_total [OF assms(1)] by (rule returns_mono) simp
  have execute: "gateway_ok s'"
    if "(case execute_action P E r p s of Inl e \<Rightarrow> Inl e | Inr x \<Rightarrow> Inr (body ExecutionBody x)) = Inr (x, s')" for r
    using that action [of r] assms(1)
    by (auto simp: execute_action_def execute_def returns_def body_def Let_def publish_operation_ok
        split: sum.splits if_splits option.splits prod.splits)
  have state: "gateway_ok s'" if "body f y = (x, s')" "gateway_ok (snd y)"
    for f :: "'x \<Rightarrow> response" and y :: "('x, ('a, 'b, 'c) gateway) answer"
    using that body_result by metis
  show ?thesis
    using assms
    by (cases q) (auto intro: raising [OF content] raising [OF action] raising [OF inspect_context_batch_total [OF assms(1)]]
        execute state approval_answers_ok incident_answers_ok restore_endpoint_ok
        simp: approve_action_def reject_action_def)
qed

lemma served_ok:
  assumes "served P s0 h s t" and "gateway_ok s0"
  shows "gateway_ok s"
  using assms by (induction rule: served.induct) (auto intro: serve_keeps_ok)

section \<open>Answers stay in the caller's tenant\<close>

text \<open>The tenants whose decisions, approvals and cases a body shows.\<close>

fun tenants_shown :: "response \<Rightarrow> str set" where
  "tenants_shown (DecisionBody d) = {sd_tenant_id d}"
| "tenants_shown (BatchBody b) = {bd_tenant_id b}"
| "tenants_shown (ExecutionBody x) = {sd_tenant_id (er_decision x)}"
| "tenants_shown (RestoredBody x) = {}"
| "tenants_shown (ApprovalBody a) = {ap_tenant_id a}"
| "tenants_shown (DecisionsBody ds) = sd_tenant_id ` set ds"
| "tenants_shown (IncidentBody c) = {in_tenant_id c}"
| "tenants_shown (IncidentsBody cs) = in_tenant_id ` set cs"

lemma inspect_content_tenant:
  assumes "inspect_content P E call point p s = Inr (d, s')"
  shows "sd_tenant_id d = pr_tenant_id p"
  using assms
proof (cases rule: inspect_content_cases)
  case (judged s1 v reason fs)
  from conclude_content_published [OF judged(8)] show ?thesis by simp
qed

lemma inspect_action_tenant:
  assumes "inspect_action P E r p s = Inr (d, s')"
  shows "sd_tenant_id d = pr_tenant_id p"
  using assms
proof (cases rule: inspect_action_cases)
  case (denied s1 reason digest)
  then show ?thesis using decided_verdict(5) by metis
next
  case (decided s1 v reason)
  then show ?thesis using decided_verdict(5) by metis
next
  case (settled s1 reason)
  then show ?thesis using settle_approval_published by metis
qed

lemma batch_tenant: "inspect_context_batch P E r p s = Inr (b, s') \<Longrightarrow> bd_tenant_id b = pr_tenant_id p"
  by (erule inspect_context_batch_cases) (auto simp: conclude_batch_def case_prod_unfold Let_def)

lemma execute_tenant:
  "execute P E r p s = Inr ((Some x, how), s') \<Longrightarrow> sd_tenant_id (er_decision x) = pr_tenant_id p"
  unfolding execute_def Let_def
  by (auto split: option.splits sum.splits if_splits) (erule inspect_action_tenant)+

context approval_repository
begin

lemma get_tenant:
  assumes "po_approvals P = repo" and "get_approval P E i p s = (Inr a, s')"
  shows "ap_tenant_id a = pr_tenant_id p"
  using assms by (auto simp: get_approval_def split: prod.splits sum.splits option.splits if_splits)

lemma adjudicated_tenant:
  assumes "po_approvals P = repo" and "inv (gw_approvals s)"
    and "adjudicate_action f outcome P E i ra p s = (Inr a, s')"
    and f: "f = repo_approve repo \<or> f = repo_reject repo"
  shows "ap_tenant_id a = pr_tenant_id p"
proof -
  let ?t = "ce_wall E"
  obtain s1 where one: "adjudicable P E i p s = (Inr (), s1)"
    using assms(3) by (cases "adjudicable P E i p s"; cases "fst (adjudicable P E i p s)")
      (auto simp: adjudicate_action_def)
  obtain r b where get: "repo_get repo (gw_approvals s) ?t i = (Inr (Some r), b)" "ap_tenant_id r = pr_tenant_id p"
    and s1: "gw_approvals s1 = b"
    using one assms(1)
    by (auto simp: adjudicable_def approval_read_def split: if_splits prod.splits sum.splits option.splits)
  have b: "inv b" "seen b ?t i = Some r"
    using get_result [OF assms(2) get(1)] get_state [OF assms(2) order_refl, of ?t i i] get_inv [OF assms(2), of ?t i] get(1)
    by simp_all
  obtain c where op: "f b ?t i (pr_identity p) ra = (Inr (Some a), c)"
    using assms(3) one s1
    by (auto simp: adjudicate_action_def adjudicated_def split: prod.splits sum.splits option.splits if_splits)
  have "seen c ?t i = Some a"
    using f op approve_answer [OF b(1)] reject_answer [OF b(1)] by metis
  moreover have "seen c ?t i \<in> {map_option (expire ?t \<circ> adjudicate_record (pr_identity p) ra o') (Some r), Some r}"
    if "f = (if o' = APPROVED then repo_approve repo else repo_reject repo)" "o' = APPROVED \<or> o' = REJECTED" for o'
    using that op b approve_self [OF b(1) order_refl, of ?t i "pr_identity p" ra]
      reject_self [OF b(1) order_refl, of ?t i "pr_identity p" ra] by auto
  moreover have "ap_tenant_id (expire ?t (adjudicate_record (pr_identity p) ra o' r)) = ap_tenant_id r" for o'
    by (simp add: adjudicate_record_def)
  ultimately have "ap_tenant_id a = ap_tenant_id r" using f by (metis approval_status.distinct(9) comp_apply insertE option.inject option.map(2) singletonD)
  then show ?thesis using get(2) by simp
qed

end

context tenant_cases
begin

lemma shown_cases:
  assumes "po_incidents P = R"
  shows "open_incident P E r p s = (Inr c, s') \<Longrightarrow> in_tenant_id c = pr_tenant_id p"
    and "list_incidents P p s = (Inr cs, s') \<Longrightarrow> c \<in> set cs \<Longrightarrow> in_tenant_id c = pr_tenant_id p"
    and "get_incident P i p s = (Inr c, s') \<Longrightarrow> in_tenant_id c = pr_tenant_id p"
    and "update_incident P E i u p s = (Inr c, s') \<Longrightarrow> in_tenant_id c = pr_tenant_id p"
  using assms open_tenant list_tenant get_tenant update_tenant
  by (auto simp: open_incident_def list_incidents_def get_incident_def update_incident_def incident_answer_def
      found_or_404_def Let_def fresh_id_def split: if_splits prod.splits sum.splits option.splits)

end

lemma body_Inr: "body f y = (Inr z, s') \<longleftrightarrow> (\<exists>r. y = (Inr r, s') \<and> z = f r)"
  by (auto simp: body_def split: prod.splits sum.splits)

lemma raising_Inr: "raising f m = Inr (Inr z, s') \<longleftrightarrow> (\<exists>r. m = Inr (r, s') \<and> z = f r)"
  by (auto simp: raising_def split: sum.splits)

lemma map_sum_Inr: "map_sum id f y = Inr z \<longleftrightarrow> (\<exists>r. y = Inr r \<and> z = f r)"
  by (cases y) auto

lemma decisions_tenant:
  "get_decision i p s = Inr d \<Longrightarrow> sd_tenant_id d = pr_tenant_id p"
  "list_decisions tr p s = Inr ds \<Longrightarrow> d \<in> set ds \<Longrightarrow> sd_tenant_id d = pr_tenant_id p"
  by (auto simp: get_decision_def list_decisions_def dl_get_def dl_for_trace_def split: if_splits option.splits)

lemma execute_action_tenant:
  assumes "execute_action P E r p s = Inr (Inr x, s')"
  shows "sd_tenant_id (er_decision x) = pr_tenant_id p"
proof -
  obtain how where "execute P E r p s = Inr ((Some x, how), s')"
    using assms by (auto simp: execute_action_def split: if_splits sum.splits option.splits prod.splits)
  then show ?thesis by (rule execute_tenant)
qed

section \<open>Claims\<close>



lemma shown_in_tenant:
  assumes "approval_repository (po_approvals P) seen ok" and "tenant_cases (po_incidents P)"
    and "ok (gw_approvals s)" and "serve P E q p s = Inr (Inr shown, s')"
  shows "tenants_shown shown \<subseteq> {pr_tenant_id p}"
proof -
  note repo = approval_repository.get_tenant [OF assms(1) refl]
    approval_repository.adjudicated_tenant [OF assms(1) refl assms(3)]
  note cases = tenant_cases.shown_cases [OF assms(2) refl]
  show ?thesis
    using assms(4) inspect_content_tenant inspect_action_tenant batch_tenant execute_action_tenant decisions_tenant
    by (cases q) (auto simp: body_Inr raising_Inr map_sum_Inr approve_action_def reject_action_def repo cases
        split: sum.splits dest: repo cases)
qed

text \<open>
  C27: What an answer shows is the caller's tenant's own. Over any approval store that keeps the
  contract of the repository and any incident store that keeps tenants apart, both of which the
  in-memory and the SQL stores do, every decision, approval and case in the body of an answer belongs to
  the caller's tenant, whichever identifiers the request names.
\<close>

theorem answers_stay_in_tenant:
  assumes "approval_repository (po_approvals P) seen ok" and "tenant_cases (po_incidents P)"
    and "ok (gw_approvals s)" and "serve P E q p s = Inr (Inr shown, s')"
  shows "tenants_shown shown \<subseteq> {pr_tenant_id p}"
  by (rule shown_in_tenant [OF assms])

text \<open>Asking for the approval of the example shows it.\<close>

theorem answers_stay_in_tenant_witness:
  "\<exists>shown s'. serve example_ports example_env (GetApproval 7) example_operator example_gateway = Inr (Inr shown, s')
    \<and> tenants_shown shown \<subseteq> {lit ''acme''} \<and> tenants_shown shown \<noteq> {}"
proof -
  have "\<exists>a. as_get (gw_approvals example_gateway) 0 7 = (Inr (Some a), gw_approvals example_gateway)
      \<and> ap_tenant_id a = lit ''acme''"
    by (simp add: example_gateway_def new_gateway_def Let_def as_get_def example_approval_def expire_def)
  then obtain a s' where shown: "serve example_ports example_env (GetApproval 7) example_operator example_gateway
      = Inr (Inr (ApprovalBody a), s')"
    by (auto simp: get_approval_def approval_read_def memory_repo_def body_def)
  have "approval_repository (po_approvals example_ports) as_seen as_inv"
    using mem.approval_repository_axioms by simp
  moreover have "tenant_cases (po_incidents example_ports)"
    using mem_cases.tenant_cases_axioms by (simp add: example_ports_def)
  moreover have "as_inv (gw_approvals example_gateway)"
    by (simp add: example_gateway_def new_gateway_def Let_def as_inv_def od_wf_def new_approval_store_def DEFAULT_MAX_RECORDS_def)
  ultimately have "tenants_shown (ApprovalBody a) \<subseteq> {pr_tenant_id example_operator}"
    by (rule answers_stay_in_tenant) (rule shown)
  then show ?thesis using shown by auto
qed

end
