(* ===== verification/Detectors.thy ===== *)
theory Detectors
  imports Readings Service
begin

text \<open>
  The local detectors of \<^verbatim>\<open>detectors.py\<close>: the match rules, the findings in the content and in
  its readings, and the canaries.
\<close>

section \<open>The rules\<close>

record match_rule =
  mr_category :: str
  mr_pattern :: regex
  mr_score :: real
  mr_explanation :: str

text \<open>Under \<^verbatim>\<open>re.IGNORECASE\<close> a literal or a set of letters matches either case.\<close>

definition words :: "unicode_db \<Rightarrow> string list \<Rightarrow> regex" where
  "words u ws = choice (map (nocase_literal u \<circ> lit) ws)"

definition plural :: "unicode_db \<Rightarrow> string \<Rightarrow> regex" where
  "plural u w = Cat (words u [w]) (optional (words u [''s'']))"

definition nocase_class :: "unicode_db \<Rightarrow> nat list \<Rightarrow> regex" where
  "nocase_class u ls = Cls (\<lambda>c. list_ex (\<lambda>l. u_same_letter u l c) ls)"

definition any_char :: regex where "any_char = Cls (\<lambda>_. True)"

definition space :: "unicode_db \<Rightarrow> regex" where "space u = Cls (u_space u)"

definition quoted :: "regex \<Rightarrow> regex" where "quoted r = sequence [char 34, r, char 34]"

definition override_pattern :: "unicode_db \<Rightarrow> regex" where
  "override_pattern u =
     (let b = word_boundary u
      in sequence [b, words u [''ignore'', ''disregard'', ''override'', ''forget''], b, up_to 40 any_char, b,
           choice [words u [''previous'', ''prior'', ''system'', ''developer'', ''security'', ''policy''], plural u ''instruction''], b])"

definition extraction_pattern :: "unicode_db \<Rightarrow> regex" where
  "extraction_pattern u =
     (let b = word_boundary u
      in sequence [b, words u [''reveal'', ''print'', ''show'', ''extract'', ''exfiltrate''], b, up_to 40 any_char, b,
           choice [words u [''system prompt'', ''hidden context'', ''secret''], plural u ''credential'', plural u ''api key''], b])"

definition boundary_pattern :: "unicode_db \<Rightarrow> regex" where
  "boundary_pattern u = choice
     [sequence [char 60, char 124, words u [''im_start'', ''im_end'', ''system'', ''assistant'', ''user'', ''endoftext''],
        char 124, char 62],
      sequence [char 91, optional (char 47), words u [''INST''], char 93],
      sequence [char 60, char 60, at_least 0 (space u), optional (char 47), words u [''SYS''], at_least 0 (space u),
        char 62, char 62],
      sequence [char 60, optional (char 47), at_least 0 (space u), words u [''untrusted_evidence''], word_boundary u]]"

definition persona_pattern :: "unicode_db \<Rightarrow> regex" where
  "persona_pattern u =
     (let b = word_boundary u; gap = at_least 1 (space u)
      in choice
       [sequence [b, words u [''with'', ''having''], gap, words u [''no''], gap,
          up_to 2 (Cat (at_least 1 (Cls (u_word u))) gap),
          choice [plural u ''restriction'', plural u ''rule'', plural u ''limit'', plural u ''filter'', plural u ''guardrail''], b],
        sequence [b, words u [''stay in character''], b],
        sequence [b, words u [''you are ''], optional (words u [''now '']), words u [''dan'', ''do anything now''], b]])"

definition LETTERS :: "nat list" where "LETTERS = [65..<91] @ [97..<123]"

definition tool_call_pattern :: "unicode_db \<Rightarrow> regex" where
  "tool_call_pattern u =
     (let gap = at_least 0 (space u)
      in choice
       [sequence [char 60, gap, optional (char 47), gap,
          words u [''tool_call'', ''tool_use'', ''function_call'', ''function_calls'', ''invoke''], word_boundary u],
        sequence [quoted (words u [''tool'', ''tool_name'', ''function'', ''name'']), gap, char 58, gap,
          quoted (Cat (nocase_class u (LETTERS @ [95])) (at_least 0 (Cls (\<lambda>c. u_word u c \<or> c = 46 \<or> c = 45)))),
          Rep False 0 (Some 200) (Cls (\<lambda>c. c \<noteq> 123 \<and> c \<noteq> 125)),
          quoted (words u [''arguments'', ''parameters'', ''args'', ''input'']), gap, char 58],
        sequence [word_boundary u, choice (map (nocase_literal u) (sort (map fst TOOLS))), gap, char 40]])"

definition credential_pattern :: "unicode_db \<Rightarrow> regex" where
  "credential_pattern u =
     sequence [word_boundary u, choice (map text_of [''sk'', ''ghp'', ''github_pat'']), char 95,
       at_least 16 (Cls (\<lambda>c. ascii_letter c \<or> ascii_digit c \<or> c = 95 \<or> c = 45)), word_boundary u]"

definition private_key_pattern :: regex where
  "private_key_pattern =
     sequence [text_of ''-----BEGIN '', optional (choice (map text_of [''RSA '', ''EC '', ''OPENSSH ''])),
       text_of ''PRIVATE KEY-----'']"

definition email_pattern :: "unicode_db \<Rightarrow> regex" where
  "email_pattern u =
     (let local = (\<lambda>c. u_word u c \<or> c = 46 \<or> c = 43 \<or> c = 45)
      in sequence [not_after local, at_least 1 (Cls local), char 64,
           at_least 1 (Cls (\<lambda>c. ascii_letter c \<or> ascii_digit c \<or> c = 46 \<or> c = 45)), char 46,
           at_least 2 (Cls ascii_letter), not_followed_by (\<lambda>c. u_word u c \<or> c = 46 \<or> c = 45)])"

definition phone_pattern :: "unicode_db \<Rightarrow> regex" where
  "phone_pattern u =
     sequence [not_after (u_word u), optional (char 43), Cls (u_digit u),
       at_least 7 (Cls (\<lambda>c. u_digit u c \<or> c \<in> {32, 46, 40, 41, 45})), Cls (u_digit u), not_followed_by (u_word u)]"

definition RULES :: "unicode_db \<Rightarrow> match_rule list" where
  "RULES u = map (\<lambda>(category, pattern, score, explanation).
       \<lparr>mr_category = lit category, mr_pattern = pattern, mr_score = score, mr_explanation = lit explanation\<rparr>)
     [(''prompt_injection'', override_pattern u, 95 / 100,
       ''Instruction attempts to override a higher-trust instruction or policy.''),
      (''prompt_injection'', extraction_pattern u, 98 / 100,
       ''Instruction requests protected context or credentials.''),
      (''prompt_injection'', boundary_pattern u, 97 / 100,
       ''Content carries chat-template control tokens that forge a message boundary.''),
      (''jailbreak'', persona_pattern u, 88 / 100, ''Content attempts to install an unrestricted persona.''),
      (''embedded_action'', tool_call_pattern u, 9 / 10,
       ''Content carries a tool call instead of proposing it to the action broker.''),
      (''secret'', credential_pattern u, 99 / 100, ''A value resembles a service credential.''),
      (''secret'', private_key_pattern, 1, ''Private key material was detected.''),
      (''pii_email'', email_pattern u, 92 / 100, ''An email address was detected.''),
      (''pii_phone'', phone_pattern u, 82 / 100, ''A phone-number-like value was detected.'')]"

section \<open>Findings\<close>

definition CONTEXT_CHARS :: nat where "CONTEXT_CHARS = 18"

definition DECODED_NOTE :: str where "DECODED_NOTE = lit '' Found only after decoding embedded content.''"

definition excerpt :: "str \<Rightarrow> nat \<Rightarrow> nat \<Rightarrow> str" where
  "excerpt content start stop =
     (let left = start - CONTEXT_CHARS; right = min (length content) (stop + CONTEXT_CHARS)
      in (if left \<noteq> 0 then [8230] else []) @ py_slice content left start @ lit ''[MATCH]''
         @ py_slice content stop right @ (if right < length content then [8230] else []))"

definition finding_of :: "str \<Rightarrow> match_rule \<Rightarrow> nat \<times> nat \<Rightarrow> finding" where
  "finding_of content rule m =
     \<lparr>fi_evidence = \<lparr>ev_detector = lit ''deterministic_content'', ev_version = lit ''1.2.0'',
        ev_category = mr_category rule, ev_score = mr_score rule, ev_threshold = 8 / 10,
        ev_redacted_excerpt = excerpt content (fst m) (snd m), ev_explanation = mr_explanation rule\<rparr>,
      fi_start = Some (fst m), fi_end = Some (snd m)\<rparr>"

definition scan :: "unicode_db \<Rightarrow> str \<Rightarrow> finding list" where
  "scan u content =
     concat (map (\<lambda>rule. map (finding_of content rule) (finditer (mr_pattern rule) content)) (RULES u))"

definition as_decoded :: "finding \<Rightarrow> finding" where
  "as_decoded f =
     \<lparr>fi_evidence = (fi_evidence f)\<lparr>ev_detector := DECODED_DETECTOR,
        ev_explanation := ev_explanation (fi_evidence f) @ DECODED_NOTE\<rparr>, fi_start = None, fi_end = None\<rparr>"

definition category_of :: "finding \<Rightarrow> str" where "category_of f = ev_category (fi_evidence f)"

text \<open>The loop over the findings of the readings: the hidden categories and what was appended.\<close>

definition reveal_step :: "str set \<Rightarrow> finding \<Rightarrow> str set \<times> finding list \<Rightarrow> str set \<times> finding list" where
  "reveal_step plain f st =
     (if category_of f \<in> plain \<or> category_of f \<in> fst st then st
      else (insert (category_of f) (fst st), snd st @ [as_decoded f]))"

definition inspect_findings :: "unicode_db \<Rightarrow> str \<Rightarrow> finding list" where
  "inspect_findings u content =
     (let findings = scan u content; plain = set (map category_of findings)
      in findings @ snd (fold (reveal_step plain) (concat (map (scan u) (alternative_readings u content))) ({}, [])))"

definition deterministic_inspector :: "unicode_db \<Rightarrow> inspector" where
  "deterministic_inspector u content = Inr (inspect_findings u content)"

section \<open>Canaries\<close>

text \<open>\<^verbatim>\<open>content.find(value, start)\<close>.\<close>

definition find_sub :: "str \<Rightarrow> str \<Rightarrow> nat \<Rightarrow> nat option" where
  "find_sub content sub start = find (\<lambda>i. prefix sub (drop i content)) [start..<Suc (length content)]"

text \<open>
  The loop advances by the length of the value, so it ends for every value but the empty one,
  which the settings refuse; the fuel is one more than the characters there are.
\<close>

fun occurrences_from :: "nat \<Rightarrow> str \<Rightarrow> str \<Rightarrow> nat option \<Rightarrow> nat list" where
  "occurrences_from (Suc fuel) content sub (Some i) =
     i # occurrences_from fuel content sub (find_sub content sub (i + length sub))"
| "occurrences_from _ content sub _ = []"

definition occurrences :: "str \<Rightarrow> str \<Rightarrow> nat list" where
  "occurrences content sub = occurrences_from (Suc (length content)) content sub (find_sub content sub 0)"

definition canary_evidence :: "str \<Rightarrow> str \<Rightarrow> evidence" where
  "canary_evidence text note =
     \<lparr>ev_detector = lit ''canary'', ev_version = lit ''1.0.0'', ev_category = lit ''canary'',
      ev_score = 1, ev_threshold = 1, ev_redacted_excerpt = text,
      ev_explanation = lit ''A seeded canary secret was observed.'' @ note\<rparr>"

definition canary_sightings :: "str list \<Rightarrow> str \<Rightarrow> finding list" where
  "canary_sightings canaries content =
     concat (map (\<lambda>c. map (\<lambda>i. \<lparr>fi_evidence = canary_evidence (excerpt content i (i + length c)) [],
       fi_start = Some i, fi_end = Some (i + length c)\<rparr>) (occurrences content c)) canaries)"

definition canary_inspector :: "unicode_db \<Rightarrow> str list \<Rightarrow> inspector" where
  "canary_inspector u canaries content = Inr
     (let findings = canary_sightings canaries content
      in if findings \<noteq> [] then findings
         else if list_ex (\<lambda>reading. list_ex (\<lambda>c. sublist c reading) canaries) (alternative_readings u content)
         then [\<lparr>fi_evidence = canary_evidence (lit ''[MATCH]'') DECODED_NOTE, fi_start = None, fi_end = None\<rparr>]
         else [])"

text \<open>The inspectors the service is built with: its own and, when there are any, the canaries.\<close>

definition service_inspectors :: "unicode_db \<Rightarrow> settings \<Rightarrow> inspector list option \<Rightarrow> inspector list" where
  "service_inspectors u s given =
     (let base = (case given of None \<Rightarrow> [deterministic_inspector u] | Some [] \<Rightarrow> [deterministic_inspector u] | Some is \<Rightarrow> is)
      in if canary_secrets s = [] then base else base @ [canary_inspector u (canary_secrets s)])"

end
