(* ===== verification/Detection.thy ===== *)
theory Detection
  imports Detectors Screening
begin

text \<open>
  What the local detectors guarantee, alone and inside the gateway: where their findings lie, that
  a disguise hides neither a canary nor an injection, and what an excerpt can show.
\<close>

section \<open>Where findings lie\<close>

text \<open>What the rewriting of content asks of every inspector.\<close>

locale content_inspector =
  fixes inspect :: "str \<Rightarrow> detector_error + finding list"
  assumes located: "inspect content = Inr fs \<Longrightarrow> located_in content fs"

lemma located_in_append [simp]: "located_in content (fs @ gs) \<longleftrightarrow> located_in content fs \<and> located_in content gs"
  by (auto simp: located_in_def)

lemma located_in_Nil [simp]: "located_in content []"
  by (simp add: located_in_def)

lemma findings_located:
  assumes "\<forall>i \<in> set is. content_inspector i" and "findings_of is content = Inr fs"
  shows "located_in content fs"
  using assms
proof (induction "is" arbitrary: fs)
  case (Cons i rest)
  then obtain gs hs where "i content = Inr gs" "findings_of rest content = Inr hs" "fs = gs @ hs"
    by (auto split: sum.splits)
  moreover from this have "located_in content gs" using Cons.prems(1) content_inspector.located by fastforce
  ultimately show ?case using Cons by simp
qed simp

lemma finditer_bound: "(a, b) \<in> set (finditer r s) \<Longrightarrow> a \<le> b \<and> b \<le> length s"
proof -
  have "(a, b) \<in> set (find_from r s p) \<Longrightarrow> a \<le> b \<and> b \<le> length s" for p
  proof (induction r s p rule: find_from.induct)
    case (1 r s p)
    show ?case
    proof (cases "length s < p")
      case False
      show ?thesis
      proof (cases "match_at r s p")
        case None
        then show ?thesis using 1 False by (subst (asm) find_from.simps) simp
      next
        case (Some e)
        then have "e \<in> set (ends r s p)" by (auto simp: match_at_def split: list.splits)
        then have "p \<le> e" "e \<le> length s" using ends_bound False by (auto simp: not_less)
        then show ?thesis using 1 False Some by (subst (asm) (2) find_from.simps) auto
      qed
    qed (use 1 in \<open>subst (asm) find_from.simps, simp\<close>)
  qed
  then show "(a, b) \<in> set (finditer r s) \<Longrightarrow> a \<le> b \<and> b \<le> length s" by (simp add: finditer_def)
qed

lemma scan_located: "located_in content (scan u content)"
  by (auto simp: located_in_def scan_def finding_of_def dest: finditer_bound)

lemma fold_reveal_unlocated:
  "\<forall>f \<in> set (snd st). fi_start f = None \<Longrightarrow> \<forall>f \<in> set (snd (fold (reveal_step plain) fs st)). fi_start f = None"
proof (induction fs arbitrary: st)
  case (Cons f fs)
  have "\<forall>g \<in> set (snd (reveal_step plain f st)). fi_start g = None"
    using Cons.prems by (auto simp: reveal_step_def as_decoded_def)
  from Cons.IH [OF this] show ?case by simp
qed simp

interpretation local: content_inspector "deterministic_inspector u" for u
proof
  fix content fs assume "deterministic_inspector u content = Inr fs"
  then have fs: "fs = inspect_findings u content" by (simp add: deterministic_inspector_def)
  have "\<forall>f \<in> set (snd (fold (reveal_step plain) gs ({}, []))). fi_start f = None" for plain gs
    by (rule fold_reveal_unlocated) simp
  then show "located_in content fs"
    using scan_located [of content u] unfolding fs inspect_findings_def located_in_def Let_def by fastforce
qed

lemma find_sub_prefix: "find_sub content sub n = Some i \<Longrightarrow> n \<le> i \<and> prefix sub (drop i content) \<and> i + length sub \<le> length content"
proof -
  assume "find_sub content sub n = Some i"
  then have i: "prefix sub (drop i content)" "i \<in> set [n..<Suc (length content)]"
    by (auto simp: find_sub_def find_Some_iff intro: nth_mem simp del: upt_Suc)
  then show ?thesis using prefix_length_le [OF i(1)] by auto
qed

lemma occurrence:
  assumes "i \<in> set (occurrences content sub)"
  shows "prefix sub (drop i content) \<and> i + length sub \<le> length content"
proof -
  have "\<lbrakk>i \<in> set (occurrences_from n content sub st); \<And>j. st = Some j \<Longrightarrow> prefix sub (drop j content) \<and> j + length sub \<le> length content\<rbrakk>
      \<Longrightarrow> prefix sub (drop i content) \<and> i + length sub \<le> length content" for n st
    by (induction n content sub st rule: occurrences_from.induct) (auto dest: find_sub_prefix)
  then show ?thesis using assms find_sub_prefix unfolding occurrences_def by blast
qed

text \<open>One more step of fuel than characters never runs out, whatever the value but the empty one.\<close>

lemma occurrences_fuel:
  "sub \<noteq> [] \<Longrightarrow> (\<And>i. st = Some i \<Longrightarrow> length content < i + n \<and> i \<le> length content) \<Longrightarrow>
    occurrences_from (Suc n) content sub st = occurrences_from n content sub st"
proof (induction n arbitrary: st)
  case 0
  then show ?case by (cases st) auto
next
  case (Suc n)
  show ?case
  proof (cases st)
    case (Some i)
    have "length content < j + n \<and> j \<le> length content" if "find_sub content sub (i + length sub) = Some j" for j
      using find_sub_prefix [OF that] Suc.prems Some by (cases sub) auto
    then show ?thesis using Suc.IH Suc.prems(1) Some by simp
  qed simp
qed

lemma sightings_located: "located_in content (canary_sightings canaries content)"
proof -
  have "a \<le> b \<and> b \<le> length content" if "f \<in> set (canary_sightings canaries content)" "fi_start f = Some a" "fi_end f = Some b" for f a b
  proof -
    from that obtain c where "a \<in> set (occurrences content c)" "b = a + length c" by (auto simp: canary_sightings_def)
    with occurrence show ?thesis by simp
  qed
  then show ?thesis by (auto simp: located_in_def)
qed

interpretation canary: content_inspector "canary_inspector u canaries" for u canaries
proof
  fix content fs assume "canary_inspector u canaries content = Inr fs"
  then show "located_in content fs"
    using sightings_located by (auto simp: canary_inspector_def located_in_def Let_def split: if_splits)
qed

section \<open>A disguise hides nothing\<close>

lemma findings_member:
  "findings_of is content = Inr fs \<Longrightarrow> i \<in> set is \<Longrightarrow> \<exists>gs. i content = Inr gs \<and> set gs \<subseteq> set fs"
proof (induction "is" arbitrary: fs)
  case (Cons j rest)
  then obtain gs hs where split: "j content = Inr gs" "findings_of rest content = Inr hs" "fs = gs @ hs"
    by (auto split: sum.splits)
  show ?case
  proof (cases "i = j")
    case False
    then show ?thesis using Cons.IH [OF split(2)] Cons.prems(2) split(3) by auto
  qed (use split in auto)
qed simp

lemma occurrences_found:
  assumes "sublist c content"
  shows "occurrences content c \<noteq> []"
proof -
  from assms obtain ps ss where "content = ps @ c @ ss" by (auto simp: sublist_def)
  then have "length ps \<in> set [0..<Suc (length content)]" "prefix c (drop (length ps) content)" by (auto simp del: upt_Suc)
  then have "find_sub content c 0 \<noteq> None" unfolding find_sub_def find_None_iff by blast
  then show ?thesis by (auto simp: occurrences_def)
qed

text \<open>A canary in the content, or in a reading of it, is sighted.\<close>

lemma canary_sighted:
  assumes "c \<in> set canaries" and "sublist c text" and "text = content \<or> text \<in> set (alternative_readings u content)"
  obtains gs f where "canary_inspector u canaries content = Inr gs" "f \<in> set gs" "category_of f = lit ''canary''"
proof (cases "canary_sightings canaries content = []")
  case True
  then have "text \<noteq> content" using assms(1,2) occurrences_found by (fastforce simp: canary_sightings_def)
  then have *: "list_ex (\<lambda>r. list_ex (\<lambda>c. sublist c r) canaries) (alternative_readings u content)"
    using assms by (auto simp: list_ex_iff)
  let ?f = "\<lparr>fi_evidence = canary_evidence (lit ''[MATCH]'') DECODED_NOTE, fi_start = None, fi_end = None\<rparr>"
  from * have "canary_inspector u canaries content = Inr [?f]" using True by (simp add: canary_inspector_def)
  then show thesis by (rule that [of _ ?f]) (simp_all add: category_of_def canary_evidence_def)
next
  case False
  then obtain f where "f \<in> set (canary_sightings canaries content)" by (cases "canary_sightings canaries content") auto
  moreover from this have "category_of f = lit ''canary''"
    by (auto simp: canary_sightings_def category_of_def canary_evidence_def)
  ultimately show thesis using False that by (simp add: canary_inspector_def)
qed

text \<open>What a reading shows and the content does not is reported as decoded.\<close>

lemma fold_reveal:
  assumes "\<And>c. c \<in> fst st \<Longrightarrow> \<exists>g \<in> set (snd st). category_of g = c \<and> ev_detector (fi_evidence g) = DECODED_DETECTOR"
    and "f \<in> set fs \<or> category_of f \<in> fst st" and "category_of f \<notin> plain"
  shows "\<exists>g \<in> set (snd (fold (reveal_step plain) fs st)). category_of g = category_of f
    \<and> ev_detector (fi_evidence g) = DECODED_DETECTOR"
  using assms(1,2)
proof (induction fs arbitrary: st)
  case Nil
  then show ?case by auto
next
  case (Cons g fs)
  have "\<exists>h \<in> set (snd (reveal_step plain g st)). category_of h = c \<and> ev_detector (fi_evidence h) = DECODED_DETECTOR"
    if "c \<in> fst (reveal_step plain g st)" for c
    using that Cons.prems(1) by (auto simp: reveal_step_def as_decoded_def category_of_def split: if_splits)
  moreover have "f \<in> set fs \<or> category_of f \<in> fst (reveal_step plain g st)"
    using Cons.prems(2) assms(3) by (auto simp: reveal_step_def)
  ultimately show ?case using Cons.IH by simp
qed

lemma hidden_revealed:
  assumes "f \<in> set (scan u text)" and "text = content \<or> text \<in> set (alternative_readings u content)"
  obtains g where "g \<in> set (inspect_findings u content)" "category_of g = category_of f"
    "ev_detector (fi_evidence g) = DECODED_DETECTOR \<or> g \<in> set (scan u content)"
proof (cases "category_of f \<in> set (map category_of (scan u content))")
  case True
  then obtain g where "g \<in> set (scan u content)" "category_of g = category_of f" by auto
  then show thesis by (intro that [of g]) (simp_all add: inspect_findings_def Let_def)
next
  case False
  then have "f \<in> set (concat (map (scan u) (alternative_readings u content)))" using assms by auto
  from fold_reveal [OF _ disjI1 [OF this] False, of "({}, [])"] show thesis
    by (auto simp: inspect_findings_def Let_def intro: that)
qed

section \<open>Inside the gateway\<close>

lemma sighting_denied:
  assumes "local_or_down P (ce_policy E)" and "i \<in> set (ce_inspectors E)" and "i (cr_content (base_request call)) = Inr gs"
    and "g \<in> set gs" and "category_of g = lit ''canary'' \<or> ev_detector (fi_evidence g) = DECODED_DETECTOR
      \<or> (category_of g \<in> {lit ''prompt_injection'', lit ''jailbreak''}
          \<and> (point = CONTEXT \<or> cr_trust_level (base_request call) = UNTRUSTED))
      \<or> (category_of g = lit ''embedded_action'' \<and> point \<in> {OUTPUT, CONTEXT})"
    and "inspect_content P E call point p s = Inr (d, s')"
  shows "sd_verdict d = DENY"
proof (rule ccontr)
  assume "sd_verdict d \<noteq> DENY"
  with assms(1,6) obtain fs where fs: "findings_of (ce_inspectors E) (cr_content (base_request call)) = Inr fs"
    and clear: "\<not> denied_early point (cr_trust_level (base_request call)) (cr_source_tenant_id (base_request call)) (pr_tenant_id p)
        (map fi_evidence fs) (governed_actions (action_resolver (po_settings P) (pr_tenant_id p)) (map fi_evidence fs))"
    by (rule continuing_not_denied_early)
  have "fi_evidence g \<in> set (map fi_evidence fs)" using findings_member [OF fs assms(2)] assms(3,4) by auto
  moreover from this have "category_of g \<in> set (map ev_category (map fi_evidence fs))"
    unfolding category_of_def set_map by (rule imageI)
  ultimately show False
    using clear assms(5) unfolding denied_early_def list_ex_iff category_of_def by (auto simp only: insert_iff empty_iff)
qed

text \<open>
  C31: A canary does not pass in disguise. Under the built-in policy, reachable or not, with the
  canary inspector in place: a request whose content holds a canary is denied, and so is one whose
  content is a text holding it rotated, percent-encoded, or in hexadecimal or base64 of a text that is
  at least fifteen bytes long and mostly printable.
\<close>

theorem disguised_canary_denied:
  assumes "local_or_down P (ce_policy E)" and "canary_inspector u canaries \<in> set (ce_inspectors E)"
    and "c \<in> set canaries" and "sublist c hidden"
    and "cr_content (base_request call) = hidden
      \<or> recognisable u disguise hidden \<and> cr_content (base_request call) = disguised disguise hidden"
    and "inspect_content P E call point p s = Inr (d, s')"
  shows "sd_verdict d = DENY"
proof -
  let ?content = "cr_content (base_request call)"
  have "hidden = ?content \<or> hidden \<in> set (alternative_readings u ?content)" using assms(5) disguise_read by fastforce
  with assms(3,4) obtain gs g where "canary_inspector u canaries ?content = Inr gs" "g \<in> set gs" "category_of g = lit ''canary''"
    by (rule canary_sighted)
  then show ?thesis using sighting_denied [OF assms(1,2) _ _ _ assms(6)] by blast
qed


section \<open>Examples\<close>

definition watching_env :: "inspector \<Rightarrow> call_env" where
  "watching_env i = example_env\<lparr>ce_inspectors := [example_inspector, i]\<rparr>"

definition disguised_request :: "disguise \<Rightarrow> string \<Rightarrow> content_request" where
  "disguised_request d text = (example_content_request text)\<lparr>cr_content := disguised d (lit text), cr_trust_level := UNTRUSTED\<rparr>"

lemma watching:
  "local_or_down example_ports (ce_policy (watching_env i))" "i \<in> set (ce_inspectors (watching_env i))"
  "cr_content (disguised_request d text) = disguised d (lit text)" "cr_trust_level (disguised_request d text) = UNTRUSTED"
  using example_local by (simp_all add: watching_env_def disguised_request_def)

lemma watching_answers:
  obtains d s' where "inspect_content example_ports (watching_env i) (ContentCall r) INPUT example_operator example_gateway
    = Inr (d, s')"
  using inspect_content_total [OF example_gateway_ok] unfolding returns_def by (metis surj_pair)

theorem disguised_canary_denied_witness:
  "\<exists>d s'. inspect_content example_ports (watching_env (canary_inspector ascii_db [lit ''canary-4711-aa'']))
      (ContentCall (disguised_request Base64Encoded ''the key: canary-4711-aa'')) INPUT example_operator example_gateway = Inr (d, s')
    \<and> sd_verdict d = DENY"
proof -
  let ?i = "canary_inspector ascii_db [lit ''canary-4711-aa'']" and ?t = "lit ''the key: canary-4711-aa''"
  let ?call = "ContentCall (disguised_request Base64Encoded ''the key: canary-4711-aa'')"
  obtain d s' where run: "inspect_content example_ports (watching_env ?i) ?call INPUT example_operator example_gateway = Inr (d, s')"
    by (rule watching_answers)
  have "sublist (lit ''canary-4711-aa'') ?t"
    unfolding sublist_def by (rule exI [of _ "lit ''the key: ''"], rule exI [of _ "[]"]) (simp add: lit_def)
  moreover have ascii: "\<forall>c \<in> set ?t. c < 128" by (simp add: lit_def)
  have "recognisable ascii_db Base64Encoded ?t"
    using utf8_encode_ascii [OF ascii] scalar_ascii [OF ascii]
    by (simp add: recognisable_def) (simp add: lit_def ascii_db_def)
  ultimately have "sd_verdict d = DENY"
    using run by (intro disguised_canary_denied [OF watching(1,2), where call = "?call" and disguise = Base64Encoded and hidden = "?t"])
      (simp_all add: watching(3))
  then show ?thesis using run by blast
qed


section \<open>What a disguise can still hide\<close>

text \<open>
  C33: A canary of the least length the settings admit passes in base64. Its sixteen digits are
  fewer than the twenty a run must have, so no inspector decodes them: whatever the twelve characters
  are, when one of them is no base64 digit the canary inspector finds nothing.
\<close>

theorem shortest_canary_escapes:
  assumes "length c = MINIMUM_CANARY_CHARS" and "\<forall>x \<in> set c. x < 128" and "\<exists>x \<in> set c. \<not> is_base64 x"
    and "\<forall>s. u_nfkc u (base64_encode s) = base64_encode s"
  shows "canary_inspector u [c] (disguised Base64Encoded c) = Inr []"
proof -
  let ?s = "base64_encode c"
  have s: "disguised Base64Encoded c = ?s" using utf8_encode_ascii [OF assms(2)] by simp
  have twelve: "length c = 12" using assms(1) by (simp add: MINIMUM_CANARY_CHARS_def)
  have "length (base64_values xs) * 3 = length xs * 4" if "length xs mod 3 = 0" for xs
    using that by (induction xs rule: base64_values.induct) auto
  from this [of c] have quads: "?s = map base64_digit (base64_values c)" "length ?s = 16"
    using twelve by (simp_all add: base64_encode_def)
  have "\<forall>b \<in> set c. b < 256" using assms(2) by auto
  then have digits: "\<forall>x \<in> set ?s. is_base64 x"
    unfolding quads(1) using base64_values_small base64_digit by auto
  then have readings: "set (alternative_readings u ?s) \<subseteq> {rot13 ?s}"
    using quads(2) assms(4) by (intro short_base64_readings) auto
  have "\<not> sublist c r" if "\<forall>x \<in> set r. is_base64 x" for r
    using that assms(3) set_mono_sublist [of c r] by auto
  then have absent: "\<not> sublist c ?s" "\<not> sublist c (rot13 ?s)"
    using digits base64_plain(7) by (auto simp: rot13_def)
  have "occurrences ?s c = []"
  proof (rule ccontr)
    assume "occurrences ?s c \<noteq> []"
    then obtain i where "i \<in> set (occurrences ?s c)" by (meson last_in_set)
    from occurrence [OF this] have "prefix c (drop i ?s)" by simp
    then show False using absent(1) by (meson prefix_imp_sublist sublist_drop sublist_order.order_trans)
  qed
  then have "canary_sightings [c] ?s = []" by (simp add: canary_sightings_def)
  moreover have "\<not> list_ex (\<lambda>r. list_ex (\<lambda>c. sublist c r) [c]) (alternative_readings u ?s)"
    using readings absent(2) by (auto simp: list_ex_iff)
  ultimately show ?thesis unfolding s canary_inspector_def by simp
qed

theorem shortest_canary_escapes_witness:
  "canary_inspector ascii_db [lit ''canary-4711x''] (disguised Base64Encoded (lit ''canary-4711x'')) = Inr []"
proof (rule shortest_canary_escapes)
  show "\<exists>x \<in> set (lit ''canary-4711x''). \<not> is_base64 x"
    by (rule bexI [of _ 45]) (simp_all add: lit_def is_base64_def ascii_letter_def ascii_digit_def)
qed (simp_all add: MINIMUM_CANARY_CHARS_def lit_def ascii_db_def)

section \<open>What an excerpt shows\<close>

text \<open>
  An excerpt replaces its own match and nothing else. Where a match begins within the eighteen
  characters after another and ends in them, the evidence for the first shows the matched value of
  the second in full.
\<close>

theorem excerpt_shows_neighbour:
  assumes "rule \<in> set (RULES u)" and "(a, b) \<in> set (finditer (mr_pattern rule) content)"
    and "other \<in> set (RULES u)" and "(i, j) \<in> set (finditer (mr_pattern other) content)"
    and "b \<le> i" and "j \<le> b + 18"
  shows "\<exists>f \<in> set (inspect_findings u content). category_of f = mr_category rule
    \<and> sublist (py_slice content i j) (ev_redacted_excerpt (fi_evidence f))"
proof -
  let ?f = "finding_of content rule (a, b)"
  have bounds: "i \<le> j" "j \<le> length content" using finditer_bound [OF assms(4)] by simp_all
  let ?right = "min (length content) (b + CONTEXT_CHARS)"
  have right: "j \<le> ?right" using bounds assms(6) by (simp add: CONTEXT_CHARS_def)
  have "py_slice content b ?right = py_slice content b i @ py_slice content i j @ py_slice content j ?right"
    using assms(5) bounds right by (simp add: py_slice_append)
  then have "sublist (py_slice content i j) (py_slice content b ?right)" by (metis sublist_appendI)
  moreover have "sublist (py_slice content b ?right) (excerpt content a b)"
  proof -
    let ?left = "a - CONTEXT_CHARS" and ?rest = "if ?right < length content then [8230] else []"
    have "excerpt content a b = ((if ?left \<noteq> 0 then [8230] else []) @ py_slice content ?left a @ lit ''[MATCH]'')
        @ py_slice content b ?right @ ?rest"
      by (simp only: excerpt_def Let_def append.assoc)
    then show ?thesis by (metis sublist_appendI)
  qed
  ultimately have "sublist (py_slice content i j) (excerpt content a b)" by (rule sublist_order.order_trans)
  moreover have "?f \<in> set (inspect_findings u content)"
    using assms(1,2) by (force simp: inspect_findings_def scan_def Let_def)
  ultimately show ?thesis by (intro bexI [of _ ?f]) (simp_all add: finding_of_def category_of_def)
qed

lemma two_addresses:
  "finditer (email_pattern ascii_db) (lit ''a@b.co c@d.eu'') = [(0, 6), (7, 13)]"
proof -
  let ?r = "email_pattern ascii_db" and ?s = "lit ''a@b.co c@d.eu''"
  note defs = email_pattern_def sequence_def at_least_def char_def not_after_def not_followed_by_def Let_def ascii_db_def
    ascii_letter_def ascii_digit_def lit_def
  have "match_at ?r ?s 0 = Some 6" "match_at ?r ?s 6 = None" "match_at ?r ?s 7 = Some 13" "match_at ?r ?s 13 = None"
    by (simp_all add: match_at_def defs reps_numeral)
  then show ?thesis
    unfolding finditer_def
    by (simp add: find_from.simps [of ?r ?s 0] find_from.simps [of ?r ?s 6] find_from.simps [of ?r ?s 7]
      find_from.simps [of ?r ?s 13] find_from.simps [of ?r ?s 14])
qed

theorem excerpt_shows_neighbour_witness:
  "\<exists>f \<in> set (inspect_findings ascii_db (lit ''a@b.co c@d.eu'')). category_of f = lit ''pii_email''
    \<and> sublist (lit ''c@d.eu'') (ev_redacted_excerpt (fi_evidence f))"
proof -
  let ?rule = "\<lparr>mr_category = lit ''pii_email'', mr_pattern = email_pattern ascii_db, mr_score = 92 / 100,
    mr_explanation = lit ''An email address was detected.''\<rparr>"
  have rule: "?rule \<in> set (RULES ascii_db)" by (simp add: RULES_def)
  have "py_slice (lit ''a@b.co c@d.eu'') 7 13 = lit ''c@d.eu''" by (simp add: py_slice_def lit_def)
  with excerpt_shows_neighbour [OF rule _ rule, of 0 6 "lit ''a@b.co c@d.eu''" 7 13] show ?thesis
    by (simp add: two_addresses)
qed

end
