(* ===== verification/Remote.thy ===== *)
theory Remote
  imports Detection
begin

text \<open>
  The detectors behind a server: the injection classifier of \<^verbatim>\<open>classifier.py\<close> and the Presidio
  analyzer of \<^verbatim>\<open>presidio.py\<close>. The server is an argument: the document posted to it and the
  JSON it answers, or \<open>None\<close> for every failure of the exchange (\<^verbatim>\<open>httpx.HTTPError\<close>, a status
  that is an error, a body that is not JSON).
\<close>

type_synonym json_server = "py_value \<Rightarrow> py_value option"

section \<open>The classifier\<close>

definition WINDOW_CHARS :: nat where "WINDOW_CHARS = 1200"

definition OVERLAP_CHARS :: nat where "OVERLAP_CHARS = 200"

text \<open>\<^verbatim>\<open>range(0, stop, step)\<close> for a positive step: the multiples below the stop.\<close>

definition py_range :: "nat \<Rightarrow> nat \<Rightarrow> nat list" where
  "py_range stop step = map (\<lambda>k. k * step) [0..<(stop + step - 1) div step]"

definition windows :: "str \<Rightarrow> str list" where
  "windows content =
     (if length content \<le> WINDOW_CHARS then [content]
      else let step = WINDOW_CHARS - OVERLAP_CHARS
           in map (\<lambda>start. py_slice content start (start + WINDOW_CHARS)) (py_range (length content - OVERLAP_CHARS) step))"

record classifier =
  cl_labels :: "str set"
  cl_threshold :: real
  cl_post :: json_server

definition new_classifier :: "unicode_db \<Rightarrow> str list \<Rightarrow> real \<Rightarrow> json_server \<Rightarrow> classifier" where
  "new_classifier u labels threshold post = \<lparr>cl_labels = u_upper u ` set labels, cl_threshold = threshold, cl_post = post\<rparr>"

definition classifier_from_settings :: "unicode_db \<Rightarrow> settings \<Rightarrow> json_server \<Rightarrow> py_error + classifier" where
  "classifier_from_settings u s post =
     (if injection_classifier_url s = None then Inl ValueError
      else Inr (new_classifier u (injection_classifier_labels s) (injection_classifier_threshold s) post))"

text \<open>\<^verbatim>\<open>isinstance(x, int | float)\<close> of what is not a \<^verbatim>\<open>bool\<close>.\<close>

fun number :: "py_value \<Rightarrow> real option" where
  "number (PInt n) = Some (real_of_int n)"
| "number (PFloat x) = Some x"
| "number _ = None"

text \<open>\<open>None\<close> is a raised \<^verbatim>\<open>DetectorUnavailableError\<close>.\<close>

definition entry_score :: "unicode_db \<Rightarrow> str set \<Rightarrow> py_value \<Rightarrow> real option" where
  "entry_score u labels entry =
     (case entry of
        PDict kvs \<Rightarrow>
          (case (map_of kvs (lit ''label''), map_of kvs (lit ''score'')) of
             (Some (PStr name), Some score) \<Rightarrow>
               (case number score of
                  None \<Rightarrow> None
                | Some x \<Rightarrow> if \<not> (0 \<le> x \<and> x \<le> 1) then None
                            else Some (if u_upper u name \<in> labels then x else 0))
           | _ \<Rightarrow> None)
      | _ \<Rightarrow> None)"

fun best_score :: "unicode_db \<Rightarrow> str set \<Rightarrow> py_value list \<Rightarrow> real \<Rightarrow> real option" where
  "best_score u labels [] best = Some best"
| "best_score u labels (e # es) best =
     (case entry_score u labels e of None \<Rightarrow> None | Some x \<Rightarrow> best_score u labels es (max best x))"

definition injection_score :: "unicode_db \<Rightarrow> str set \<Rightarrow> py_value \<Rightarrow> real option" where
  "injection_score u labels result =
     (case (case result of PDict _ \<Rightarrow> PList [result] | _ \<Rightarrow> result) of
        PList (e # es) \<Rightarrow> best_score u labels (e # es) 0
      | _ \<Rightarrow> None)"

fun injection_scores :: "unicode_db \<Rightarrow> str set \<Rightarrow> py_value list \<Rightarrow> real list option" where
  "injection_scores u labels [] = Some []"
| "injection_scores u labels (r # rs) =
     (case injection_score u labels r of
        None \<Rightarrow> None
      | Some x \<Rightarrow> (case injection_scores u labels rs of None \<Rightarrow> None | Some xs \<Rightarrow> Some (x # xs)))"

definition classifier_question :: "str list \<Rightarrow> py_value" where
  "classifier_question pieces =
     PDict [(lit ''inputs'', PList (map (\<lambda>p. PList [PStr p]) pieces)), (lit ''truncate'', PBool True)]"

definition classifier_finding :: "real \<Rightarrow> real \<Rightarrow> finding" where
  "classifier_finding score threshold =
     \<lparr>fi_evidence = \<lparr>ev_detector = lit ''injection_classifier'', ev_version = lit ''1.0.0'',
        ev_category = lit ''prompt_injection'', ev_score = score, ev_threshold = threshold,
        ev_redacted_excerpt = lit ''[CLASSIFIED]'',
        ev_explanation = lit ''A classifier judged the content to be a prompt injection.''\<rparr>,
      fi_start = None, fi_end = None\<rparr>"

definition classifier_inspector :: "unicode_db \<Rightarrow> classifier \<Rightarrow> inspector" where
  "classifier_inspector u c content =
     (let pieces = windows content
      in case cl_post c (classifier_question pieces) of
           Some (PList results) \<Rightarrow>
             if length results \<noteq> length pieces then Inl DetectorUnavailableError
             else (case injection_scores u (cl_labels c) results of
                     None \<Rightarrow> Inl DetectorUnavailableError
                   | Some scores \<Rightarrow>
                       let score = foldl max (hd scores) (tl scores)
                       in Inr (if score < cl_threshold c then [] else [classifier_finding score (cl_threshold c)]))
         | _ \<Rightarrow> Inl DetectorUnavailableError)"

section \<open>Presidio\<close>

definition CATEGORIES :: "(str \<times> str) list" where
  "CATEGORIES = map (\<lambda>(entity, category). (lit entity, lit category))
     [(''EMAIL_ADDRESS'', ''pii_email''), (''PHONE_NUMBER'', ''pii_phone''), (''PERSON'', ''pii_person''),
      (''LOCATION'', ''pii_location''), (''CREDIT_CARD'', ''pii_financial''), (''IBAN_CODE'', ''pii_financial''),
      (''US_BANK_NUMBER'', ''pii_financial''), (''CRYPTO'', ''pii_financial''), (''US_SSN'', ''pii_government_id''),
      (''US_PASSPORT'', ''pii_government_id''), (''US_DRIVER_LICENSE'', ''pii_government_id''),
      (''US_ITIN'', ''pii_government_id''), (''UK_NHS'', ''pii_government_id''), (''IP_ADDRESS'', ''pii_network''),
      (''MEDICAL_LICENSE'', ''pii_medical''), (''DATE_TIME'', ''pii_date'')]"

record presidio =
  ps_threshold :: real
  ps_language :: str
  ps_post :: json_server

text \<open>In Python a \<^verbatim>\<open>bool\<close> is an \<^verbatim>\<open>int\<close>, so it passes both tests.\<close>

fun as_int :: "py_value \<Rightarrow> int option" where
  "as_int (PInt n) = Some n"
| "as_int (PBool b) = Some (if b then 1 else 0)"
| "as_int _ = None"

fun as_number :: "py_value \<Rightarrow> real option" where
  "as_number (PFloat x) = Some x"
| "as_number v = map_option real_of_int (as_int v)"

text \<open>
  \<^verbatim>\<open>float(score)\<close> raises \<^verbatim>\<open>OverflowError\<close> for an \<^verbatim>\<open>int\<close> that rounds past the largest
  double, which nothing on the way catches.
\<close>

datatype presidio_error = Unavailable | OverflowEscapes

definition FLOAT_LIMIT :: real where "FLOAT_LIMIT = 2 ^ 1024 - 2 ^ 970"

definition overflows :: "py_value \<Rightarrow> bool" where
  "overflows v = (case as_int v of None \<Rightarrow> False | Some n \<Rightarrow> FLOAT_LIMIT \<le> \<bar>real_of_int n\<bar>)"

definition presidio_finding :: "unicode_db \<Rightarrow> presidio \<Rightarrow> str \<Rightarrow> py_value \<Rightarrow> presidio_error + finding" where
  "presidio_finding u p content result =
     (case result of
        PDict kvs \<Rightarrow>
          (let field = (\<lambda>k. case map_of kvs (lit k) of None \<Rightarrow> PNone | Some v \<Rightarrow> v) in
           case (field ''entity_type'', as_number (field ''score''), as_int (field ''start''), as_int (field ''end'')) of
             (PStr entity, Some score, Some start, Some stop) \<Rightarrow>
               if \<not> (0 \<le> start \<and> start < stop \<and> stop \<le> int (length content)) then Inl Unavailable
               else if overflows (field ''score'') then Inl OverflowEscapes
               else
                 let a = nat start; b = nat stop;
                     category = (case map_of CATEGORIES entity of Some c \<Rightarrow> c | None \<Rightarrow> lit ''pii_'' @ u_lower u entity);
                     left = py_slice content (a - CONTEXT_CHARS) a; right = py_slice content b (b + CONTEXT_CHARS)
                 in Inr \<lparr>fi_evidence = \<lparr>ev_detector = lit ''presidio'', ev_version = lit ''1.0.0'', ev_category = category,
                           ev_score = min (max score 0) 1, ev_threshold = ps_threshold p,
                           ev_redacted_excerpt = left @ lit ''[MATCH]'' @ right,
                           ev_explanation = lit ''Presidio recognized '' @ entity @ lit ''.''\<rparr>,
                         fi_start = Some a, fi_end = Some b\<rparr>
           | _ \<Rightarrow> Inl Unavailable)
      | _ \<Rightarrow> Inl Unavailable)"

fun presidio_findings :: "unicode_db \<Rightarrow> presidio \<Rightarrow> str \<Rightarrow> py_value list \<Rightarrow> presidio_error + finding list" where
  "presidio_findings u p content [] = Inr []"
| "presidio_findings u p content (r # rs) =
     (case presidio_finding u p content r of
        Inl e \<Rightarrow> Inl e
      | Inr f \<Rightarrow> (case presidio_findings u p content rs of Inl e \<Rightarrow> Inl e | Inr fs \<Rightarrow> Inr (f # fs)))"

definition presidio_question :: "presidio \<Rightarrow> str \<Rightarrow> py_value" where
  "presidio_question p content =
     PDict [(lit ''text'', PStr content), (lit ''language'', PStr (ps_language p)),
            (lit ''score_threshold'', PFloat (ps_threshold p))]"

definition presidio_inspect :: "unicode_db \<Rightarrow> presidio \<Rightarrow> str \<Rightarrow> presidio_error + finding list" where
  "presidio_inspect u p content =
     (case ps_post p (presidio_question p content) of
        Some (PList results) \<Rightarrow> presidio_findings u p content results
      | _ \<Rightarrow> Inl Unavailable)"

section \<open>No window is left out\<close>

lemma py_range_mem: "0 < step \<Longrightarrow> k * step < stop \<Longrightarrow> k * step \<in> set (py_range stop step)"
proof -
  assume "0 < step" "k * step < stop"
  then have "Suc k * step \<le> stop + step - 1" by (simp add: algebra_simps)
  then have "Suc k \<le> (stop + step - 1) div step" using \<open>0 < step\<close> by (simp add: less_eq_div_iff_mult_less_eq)
  then show ?thesis by (auto simp: py_range_def)
qed

lemma windows_nonempty: "windows content \<noteq> []"
proof (cases "length content \<le> WINDOW_CHARS")
  case False
  then have "0 * 1000 \<in> set (py_range (length content - OVERLAP_CHARS) 1000)"
    by (intro py_range_mem) (simp_all add: WINDOW_CHARS_def OVERLAP_CHARS_def)
  then show ?thesis using False by (auto simp: windows_def WINDOW_CHARS_def OVERLAP_CHARS_def)
qed (simp add: windows_def)

lemma py_slice_inside:
  assumes "a \<le> i" and "i \<le> j" and "j \<le> b"
  shows "sublist (py_slice s i j) (py_slice s a b)"
proof -
  have "py_slice s a b = py_slice s a i @ py_slice s i j @ py_slice s j b"
    using assms by (simp add: py_slice_append)
  then show ?thesis by (metis sublist_appendI)
qed

text \<open>Every piece of text no longer than the overlap lies within one window.\<close>

lemma piece_in_window:
  assumes "i + n \<le> length content" and "n \<le> OVERLAP_CHARS"
  shows "\<exists>w \<in> set (windows content). sublist (py_slice content i (i + n)) w"
proof (cases "length content \<le> WINDOW_CHARS")
  case True
  have "sublist (py_slice content i (i + n)) (py_slice content 0 (length content))"
    using assms(1) by (intro py_slice_inside) simp_all
  then show ?thesis using True by (simp add: windows_def)
next
  case False
  let ?len = "length content"
  have window: "py_slice content (k * 1000) (k * 1000 + 1200) \<in> set (windows content)" if "k * 1000 < ?len - 200" for k
    using py_range_mem [OF _ that] False by (simp add: windows_def WINDOW_CHARS_def OVERLAP_CHARS_def)
  obtain k where k: "k * 1000 \<le> i" "k * 1000 < ?len - 200" "i + n \<le> k * 1000 + 1200"
  proof (cases "i div 1000 * 1000 < ?len - 200")
    case True
    have "i < i div 1000 * 1000 + 1000" by (metis dividend_less_div_times zero_less_numeral mult.commute add.commute)
    then show thesis using True assms(2) by (intro that [of "i div 1000"]) (simp_all add: OVERLAP_CHARS_def)
  next
    case late: False
    let ?q = "i div 1000"
    have le: "?q * 1000 \<le> i" by simp
    have "1 \<le> ?q" using late False by (cases "?q") (auto simp: WINDOW_CHARS_def)
    then obtain m where m: "?q = Suc m" by (cases "?q") auto
    show thesis
    proof (rule that [of m])
      show "m * 1000 \<le> i" using le m by simp
      show "m * 1000 < ?len - 200" using le m assms(1) False by (simp add: WINDOW_CHARS_def)
      show "i + n \<le> m * 1000 + 1200" using late m assms(1) by simp
    qed
  qed
  then show ?thesis
    using window py_slice_inside [of "k * 1000" i "i + n" "k * 1000 + 1200"] by (meson le_add1)
qed

lemma injection_scores_nth:
  "injection_scores u labels rs = Some xs \<Longrightarrow>
    length xs = length rs \<and> (\<forall>i < length rs. injection_score u labels (rs ! i) = Some (xs ! i))"
proof (induction rs arbitrary: xs)
  case (Cons r rs)
  then obtain y ys where "injection_score u labels r = Some y" "injection_scores u labels rs = Some ys" "xs = y # ys"
    by (auto split: option.splits)
  then show ?case using Cons.IH by (auto simp: nth_Cons split: nat.splits)
qed simp

lemma foldl_max: "(a::real) \<le> foldl max a xs \<and> (\<forall>x \<in> set xs. x \<le> foldl max a xs)"
proof (induction xs arbitrary: a)
  case (Cons x xs)
  show ?case using Cons.IH [of "max a x"] by auto
qed simp

text \<open>An answer that is accepted scored every window, and the highest score decides.\<close>

lemma classifier_answer:
  assumes "classifier_inspector u c content = Inr fs"
  obtains results scores where "cl_post c (classifier_question (windows content)) = Some (PList results)"
    "length results = length (windows content)" "length scores = length results"
    "\<forall>i < length results. injection_score u (cl_labels c) (results ! i) = Some (scores ! i)"
    "(\<exists>x \<in> set scores. cl_threshold c \<le> x) \<longrightarrow> (\<exists>x. fs = [classifier_finding x (cl_threshold c)])"
proof -
  obtain results scores where answer: "cl_post c (classifier_question (windows content)) = Some (PList results)"
    "length results = length (windows content)" "injection_scores u (cl_labels c) results = Some scores"
    "fs = (if foldl max (hd scores) (tl scores) < cl_threshold c then []
           else [classifier_finding (foldl max (hd scores) (tl scores)) (cl_threshold c)])"
    using assms by (auto simp: classifier_inspector_def Let_def split: option.splits py_value.splits if_splits)
  note scored = injection_scores_nth [OF answer(3)]
  show thesis
  proof (rule that [OF answer(1,2)])
    show "(\<exists>x \<in> set scores. cl_threshold c \<le> x) \<longrightarrow> (\<exists>x. fs = [classifier_finding x (cl_threshold c)])"
    proof
      assume "\<exists>x \<in> set scores. cl_threshold c \<le> x"
      then obtain x where x: "x \<in> set scores" "cl_threshold c \<le> x" by blast
      then have "x \<le> foldl max (hd scores) (tl scores)" using foldl_max [of "hd scores" "tl scores"] by (cases scores) auto
      then have "\<not> foldl max (hd scores) (tl scores) < cl_threshold c" using x(2) by linarith
      then show "\<exists>x. fs = [classifier_finding x (cl_threshold c)]" using answer(4) by auto
    qed
  qed (use scored in simp_all)
qed

interpretation remote: content_inspector "classifier_inspector u c" for u c
proof
  fix content fs assume "classifier_inspector u c content = Inr fs"
  then have "\<forall>f \<in> set fs. fi_start f = None"
    by (auto simp: classifier_inspector_def classifier_finding_def Let_def split: option.splits py_value.splits if_splits)
  then show "located_in content fs" by (simp add: located_in_def)
qed

text \<open>
  C34: An injection cannot hide between the windows the classifier reads. Let the classifier be among
  the inspectors, and let its server, whatever else it does, fail or answer with anything, score
  every window that holds a phrase of at most two hundred characters at or above the threshold
  whenever it scores it readably. Then, under the built-in policy, retrieved or untrusted
  content with that phrase anywhere in it is denied.
\<close>

theorem classifier_misses_no_window:
  assumes "local_or_down P (ce_policy E)" and "classifier_inspector u c \<in> set (ce_inspectors E)"
    and "\<And>pieces results i x. cl_post c (classifier_question pieces) = Some (PList results) \<Longrightarrow>
      length results = length pieces \<Longrightarrow> i < length pieces \<Longrightarrow> sublist phrase (pieces ! i) \<Longrightarrow>
      injection_score u (cl_labels c) (results ! i) = Some x \<Longrightarrow> cl_threshold c \<le> x"
    and "length phrase \<le> 200" and "sublist phrase (cr_content (base_request call))"
    and "point = CONTEXT \<or> cr_trust_level (base_request call) = UNTRUSTED"
    and "inspect_content P E call point p s = Inr (d, s')"
  shows "sd_verdict d = DENY"
proof (rule ccontr)
  assume allowed: "sd_verdict d \<noteq> DENY"
  let ?content = "cr_content (base_request call)"
  obtain fs where "findings_of (ce_inspectors E) ?content = Inr fs"
    using assms(1,7) allowed by (rule continuing_not_denied_early)
  from findings_member [OF this assms(2)] obtain gs where gs: "classifier_inspector u c ?content = Inr gs" by blast
  then obtain results scores where answer: "cl_post c (classifier_question (windows ?content)) = Some (PList results)"
      "length results = length (windows ?content)" "length scores = length results"
      "\<forall>i < length results. injection_score u (cl_labels c) (results ! i) = Some (scores ! i)"
      "(\<exists>x \<in> set scores. cl_threshold c \<le> x) \<longrightarrow> (\<exists>x. gs = [classifier_finding x (cl_threshold c)])"
    by (rule classifier_answer)
  obtain ps ss where "?content = ps @ phrase @ ss" using assms(5) by (auto simp: sublist_def)
  then have "py_slice ?content (length ps) (length ps + length phrase) = phrase"
    "length ps + length phrase \<le> length ?content" by (simp_all add: py_slice_def)
  then obtain w where w: "w \<in> set (windows ?content)" "sublist phrase w"
    using piece_in_window [of "length ps" "length phrase" ?content] assms(4) by (auto simp: OVERLAP_CHARS_def)
  then obtain i where i: "i < length (windows ?content)" "windows ?content ! i = w" by (auto simp: in_set_conv_nth)
  then have "cl_threshold c \<le> scores ! i" using assms(3) [OF answer(1,2) i(1)] answer(2,4) w(2) by simp
  then obtain x where x: "gs = [classifier_finding x (cl_threshold c)]"
    using answer(2,3,5) i(1) by (metis nth_mem)
  have "category_of (classifier_finding x (cl_threshold c)) = lit ''prompt_injection''"
    by (simp add: category_of_def classifier_finding_def)
  then show False
    using sighting_denied [OF assms(1,2) gs _ _ assms(7)] assms(6) allowed x by auto
qed

section \<open>What an analyzer reports is governed\<close>

lemma presidio_finding_fields:
  assumes "presidio_finding u p content r = Inr f"
  obtains kvs start stop where "r = PDict kvs" "start < stop" "stop \<le> length content"
    "map_of kvs (lit ''start'') \<in> Some ` {v. as_int v = Some (int start)}"
    "map_of kvs (lit ''end'') \<in> Some ` {v. as_int v = Some (int stop)}"
    "fi_start f = Some start" "fi_end f = Some stop" "is_sensitive (category_of f)"
    "0 \<le> ev_score (fi_evidence f)" "ev_score (fi_evidence f) \<le> 1"
proof -
  obtain kvs where r: "r = PDict kvs" using assms by (auto simp: presidio_finding_def split: py_value.splits)
  let ?field = "\<lambda>k. case map_of kvs (lit k) of None \<Rightarrow> PNone | Some v \<Rightarrow> v"
  obtain entity score start stop where fields: "?field ''entity_type'' = PStr entity" "as_number (?field ''score'') = Some score"
      "as_int (?field ''start'') = Some start" "as_int (?field ''end'') = Some stop"
    and range: "0 \<le> start" "start < stop" "stop \<le> int (length content)"
    and f: "fi_start f = Some (nat start)" "fi_end f = Some (nat stop)" "ev_score (fi_evidence f) = min (max score 0) 1"
      "category_of f = (case map_of CATEGORIES entity of Some c \<Rightarrow> c | None \<Rightarrow> lit ''pii_'' @ u_lower u entity)"
    using assms unfolding r
    by (auto simp: presidio_finding_def Let_def category_of_def split: py_value.splits option.splits if_splits)
  have "is_sensitive (category_of f)"
  proof (cases "map_of CATEGORIES entity")
    case None
    then show ?thesis using f(4) by (simp add: is_sensitive_def)
  next
    case (Some c)
    then have "c \<in> snd ` set CATEGORIES" by (force dest: map_of_SomeD)
    moreover have "\<forall>x \<in> snd ` set CATEGORIES. is_sensitive x" by (simp add: CATEGORIES_def is_sensitive_def)
    ultimately show ?thesis using f(4) Some by auto
  qed
  moreover have "map_of kvs (lit ''start'') \<in> Some ` {v. as_int v = Some (int (nat start))}"
    "map_of kvs (lit ''end'') \<in> Some ` {v. as_int v = Some (int (nat stop))}"
    using fields(3,4) range by (auto split: option.splits)
  ultimately show thesis
    using f range by (intro that [OF r, of "nat start" "nat stop"]) simp_all
qed

text \<open>What a result of the analyzer and its finding have in common.\<close>

definition reported :: "str \<Rightarrow> py_value \<Rightarrow> finding \<Rightarrow> bool" where
  "reported content r f \<longleftrightarrow>
     (\<exists>kvs start stop. r = PDict kvs \<and> start < stop \<and> stop \<le> length content
        \<and> map_of kvs (lit ''start'') \<in> Some ` {v. as_int v = Some (int start)}
        \<and> map_of kvs (lit ''end'') \<in> Some ` {v. as_int v = Some (int stop)}
        \<and> fi_start f = Some start \<and> fi_end f = Some stop \<and> is_sensitive (category_of f)
        \<and> 0 \<le> ev_score (fi_evidence f) \<and> ev_score (fi_evidence f) \<le> 1)"

lemma presidio_findings_reported:
  "presidio_findings u p content rs = Inr fs \<Longrightarrow> list_all2 (reported content) rs fs"
proof (induction rs arbitrary: fs)
  case (Cons r rs)
  then obtain g gs where "presidio_finding u p content r = Inr g" "presidio_findings u p content rs = Inr gs" "fs = g # gs"
    by (auto split: sum.splits)
  moreover from this(1) have "reported content r g"
    unfolding reported_def by (rule presidio_finding_fields) blast
  ultimately show ?case using Cons.IH by simp
qed simp

text \<open>
  Everything an analyzer reports is governed. What the Presidio adapter accepts is a list with one
  finding for each result, at the span the result names, which is within the content and not empty,
  with a score between zero and one, and under a category that the entity rules apply to, whatever the
  analyzer calls the entity. One result it cannot read refuses the whole answer.
\<close>

theorem presidio_reports_governed:
  assumes "presidio_inspect u p content = Inr fs"
  shows "\<exists>results. ps_post p (presidio_question p content) = Some (PList results) \<and> list_all2 (reported content) results fs"
  using assms presidio_findings_reported by (auto simp: presidio_inspect_def split: option.splits py_value.splits)

text \<open>The adapter as the service sees it, where no score overflows.\<close>

definition presidio_inspector :: "unicode_db \<Rightarrow> presidio \<Rightarrow> inspector" where
  "presidio_inspector u p content =
     (case presidio_inspect u p content of Inl _ \<Rightarrow> Inl DetectorUnavailableError | Inr fs \<Rightarrow> Inr fs)"

interpretation analyzer: content_inspector "presidio_inspector u p" for u p
proof
  fix content fs assume "presidio_inspector u p content = Inr fs"
  then obtain rs where "presidio_findings u p content rs = Inr fs"
    by (auto simp: presidio_inspector_def presidio_inspect_def split: sum.splits option.splits py_value.splits)
  then have "list_all2 (reported content) rs fs" by (rule presidio_findings_reported)
  then have "\<forall>f \<in> set fs. \<exists>r. reported content r f" by (metis in_set_conv_nth list_all2_conv_all_nth)
  then show "located_in content fs" by (fastforce simp: located_in_def reported_def)
qed

text \<open>A score that is an integer past the range of a double raises out of the adapter.\<close>

lemma presidio_overflow:
  assumes "content \<noteq> []" and "FLOAT_LIMIT \<le> real_of_int n"
    and "ps_post p (presidio_question p content) = Some (PList [PDict
      [(lit ''entity_type'', PStr entity), (lit ''start'', PInt 0), (lit ''end'', PInt 1), (lit ''score'', PInt n)]])"
  shows "presidio_inspect u p content = Inl OverflowEscapes"
  using assms by (cases content) (simp_all add: presidio_inspect_def presidio_finding_def overflows_def Let_def)

section \<open>Examples\<close>

definition example_presidio :: presidio where
  "example_presidio = \<lparr>ps_threshold = 1 / 2, ps_language = lit ''en'', ps_post = (\<lambda>_. Some (PList [PDict
     [(lit ''entity_type'', PStr (lit ''NRP'')), (lit ''start'', PInt 0), (lit ''end'', PInt 3), (lit ''score'', PFloat (3 / 4))]]))\<rparr>"

theorem presidio_reports_governed_witness:
  "\<exists>f. presidio_inspect ascii_db example_presidio (lit ''Ann is here'') = Inr [f] \<and> is_sensitive (category_of f)"
proof -
  obtain f where f: "presidio_inspect ascii_db example_presidio (lit ''Ann is here'') = Inr [f]"
    by (auto simp: presidio_inspect_def presidio_finding_def example_presidio_def overflows_def Let_def)
  obtain results where "list_all2 (reported (lit ''Ann is here'')) results [f]"
    using presidio_reports_governed [OF f] by blast
  then have "is_sensitive (category_of f)" by (auto simp: list_all2_Cons2 reported_def)
  then show ?thesis using f by blast
qed

text \<open>A model server that knows one phrase, and answers for every window.\<close>

definition window_verdict :: "str \<Rightarrow> py_value \<Rightarrow> py_value" where
  "window_verdict phrase piece = (case piece of PList [PStr w] \<Rightarrow>
     PList [PDict [(lit ''label'', PStr (lit ''INJECTION'')), (lit ''score'', PInt (if sublist phrase w then 1 else 0))]]
   | _ \<Rightarrow> PNone)"

definition phrase_server :: "str \<Rightarrow> json_server" where
  "phrase_server phrase question = (case question of PDict [(_, PList pieces), _] \<Rightarrow>
     Some (PList (map (window_verdict phrase) pieces)) | _ \<Rightarrow> None)"

theorem classifier_misses_no_window_witness:
  "\<exists>d s'. inspect_content example_ports
      (watching_env (classifier_inspector ascii_db (new_classifier ascii_db [lit ''INJECTION''] (9 / 10) (phrase_server (lit ''obey me'')))))
      (ContentCall (disguised_request Rotated ''borl zr'')) INPUT example_operator example_gateway = Inr (d, s')
    \<and> sd_verdict d = DENY"
proof -
  let ?c = "new_classifier ascii_db [lit ''INJECTION''] (9 / 10) (phrase_server (lit ''obey me''))"
  let ?call = "ContentCall (disguised_request Rotated ''borl zr'')"
  obtain d s' where run: "inspect_content example_ports (watching_env (classifier_inspector ascii_db ?c)) ?call INPUT
      example_operator example_gateway = Inr (d, s')"
    by (rule watching_answers)
  have score: "cl_threshold ?c \<le> x"
    if "cl_post ?c (classifier_question pieces) = Some (PList results)" "length results = length pieces" "i < length pieces"
      "sublist (lit ''obey me'') (pieces ! i)" "injection_score ascii_db (cl_labels ?c) (results ! i) = Some x" for pieces results i x
  proof -
    have "results ! i = window_verdict (lit ''obey me'') (PList [PStr (pieces ! i)])"
      using that(1,3) by (auto simp: new_classifier_def phrase_server_def classifier_question_def)
    then show ?thesis
      using that(4,5) by (simp add: window_verdict_def new_classifier_def injection_score_def entry_score_def)
  qed
  have content: "cr_content (base_request ?call) = lit ''obey me''"
    by (simp add: watching(3) rot13_def rot13_char_def lit_def)
  have "sd_verdict d = DENY"
    by (rule classifier_misses_no_window [OF watching(1,2) _ _ _ _ run, where phrase = "lit ''obey me''"], erule (4) score)
      (simp_all add: content [simplified] watching(4))
  then show ?thesis using run by blast
qed

end
