(* ===== verification/Kafka.thy ===== *)
theory Kafka
  imports Auditing Config "HOL-Library.Multiset"
begin

text \<open>
  The Kafka transport of \<^verbatim>\<open>kafka.py\<close>. The client library is a parameter: for each attempt to
  produce, an \<open>attempt\<close> says what the clock, the connection and the producer answer, a
  delivery reported at once included; between calls the callbacks of earlier messages arrive in
  any order. Beside the transport the model keeps what the broker has: the messages it was handed and
  not settled, and those it acknowledged in their order.
\<close>

section \<open>Messages, broker and attempts\<close>

text \<open>\<^verbatim>\<open>event.get("tenant_id")\<close>; the value is the event, whose JSON text is not spelled out.\<close>

fun event_tenant :: "event_body \<Rightarrow> str option" where
  "event_tenant (DecisionEvent _ _ _ _ tenant _ _ _ _ _) = Some tenant"
| "event_tenant (RejectionEvent _ _) = None"
| "event_tenant (OperationEvent _ tenant _ _) = Some tenant"

record kafka_message =
  km_topic :: str
  km_key :: "str option"
  km_value :: audit_event

record broker =
  br_unsettled :: "kafka_message list"
  br_acked :: "kafka_message list"

datatype delivery = Acked | Refused

datatype send_answer = NotQueued | Queued "delivery option"

record attempt =
  at_now :: real
  at_connects :: bool
  at_later :: real \<comment> \<open>the clock after a failed connection\<close>
  at_answer :: send_answer

section \<open>KafkaTransport\<close>

definition RECONNECT_SECONDS :: real where "RECONNECT_SECONDS = 5"

record kafka_transport =
  kt_topic :: str
  kt_producer :: bool \<comment> \<open>whether there is one\<close>
  kt_reconnect_at :: real
  kt_refused :: "audit_event list"
  kt_flying :: int \<comment> \<open>\<^verbatim>\<open>_in_flight\<close>\<close>
  kt_delivery_failures :: nat

type_synonym kafka_state = "kafka_transport \<times> broker"

definition new_kafka_transport :: "str \<Rightarrow> kafka_transport" where
  "new_kafka_transport topic = \<lparr>kt_topic = topic, kt_producer = False, kt_reconnect_at = 0, kt_refused = [],
     kt_flying = 0, kt_delivery_failures = 0\<rparr>"

definition new_broker :: broker where "new_broker = \<lparr>br_unsettled = [], br_acked = []\<rparr>"

definition in_flight :: "kafka_transport \<Rightarrow> int" where
  "in_flight k = kt_flying k + int (length (kt_refused k))"

text \<open>\<^verbatim>\<open>_connected\<close>: whether there is a producer to send with.\<close>

definition connected :: "attempt \<Rightarrow> kafka_transport \<Rightarrow> bool \<times> kafka_transport" where
  "connected a k =
     (if kt_producer k then (True, k)
      else if at_now a < kt_reconnect_at k then (False, k)
      else if at_connects a then (True, k\<lparr>kt_producer := True\<rparr>)
      else (False, k\<lparr>kt_reconnect_at := at_later a + RECONNECT_SECONDS\<rparr>))"

definition message_of :: "kafka_transport \<Rightarrow> audit_event \<Rightarrow> kafka_message" where
  "message_of k e = \<lparr>km_topic = kt_topic k, km_key = event_tenant (ae_body e), km_value = e\<rparr>"

text \<open>The callbacks, which the broker's answer to a message runs.\<close>

definition acknowledged :: "kafka_transport \<Rightarrow> kafka_transport" where
  "acknowledged k = k\<lparr>kt_flying := kt_flying k - 1\<rparr>"

definition refuse_event :: "audit_event \<Rightarrow> kafka_transport \<Rightarrow> kafka_transport" where
  "refuse_event e k = k\<lparr>kt_flying := kt_flying k - 1, kt_delivery_failures := kt_delivery_failures k + 1,
     kt_refused := kt_refused k @ [e]\<rparr>"

fun settle :: "delivery \<Rightarrow> kafka_message \<Rightarrow> kafka_state \<Rightarrow> kafka_state" where
  "settle Acked m (k, b) = (acknowledged k, b\<lparr>br_acked := br_acked b @ [m]\<rparr>)"
| "settle Refused m (k, b) = (refuse_event (km_value m) k, b)"

text \<open>\<^verbatim>\<open>_produce\<close>; \<open>False\<close> is a raised \<^verbatim>\<open>TransportUnavailableError\<close>.\<close>

definition produce :: "attempt \<Rightarrow> audit_event \<Rightarrow> kafka_state \<Rightarrow> bool \<times> kafka_state" where
  "produce a e s =
     (let (k, b) = s; (ok, k) = connected a k; m = message_of k e in
      if \<not> ok then (False, k, b)
      else case at_answer a of
             NotQueued \<Rightarrow> (False, k, b)
           | Queued answer \<Rightarrow>
               let k = k\<lparr>kt_flying := kt_flying k + 1\<rparr>
               in (True, case answer of
                           None \<Rightarrow> (k, b\<lparr>br_unsettled := br_unsettled b @ [m]\<rparr>)
                         | Some d \<Rightarrow> settle d m (k, b)))"

text \<open>The loop of \<^verbatim>\<open>send\<close> over the batch taken from the refused events.\<close>

fun retry_all :: "(nat \<Rightarrow> attempt) \<Rightarrow> nat \<Rightarrow> audit_event list \<Rightarrow> kafka_state \<Rightarrow> bool \<times> kafka_state" where
  "retry_all A i [] s = (True, s)"
| "retry_all A i (e # es) s =
     (let (ok, s') = produce (A i) e s
      in if ok then retry_all A (Suc i) es s'
         else (False, (fst s')\<lparr>kt_refused := (e # es) @ kt_refused (fst s')\<rparr>, snd s'))"

definition kt_send :: "(nat \<Rightarrow> attempt) \<Rightarrow> audit_event \<Rightarrow> kafka_state \<Rightarrow> bool \<times> kafka_state" where
  "kt_send A e s =
     (let retry = kt_refused (fst s); (ok, s') = retry_all A 0 retry ((fst s)\<lparr>kt_refused := []\<rparr>, snd s)
      in if ok then produce (A (length retry)) e s' else (False, s'))"

text \<open>A callback of a message the broker has not settled.\<close>

definition callback :: "delivery \<Rightarrow> nat \<Rightarrow> kafka_state \<Rightarrow> kafka_state" where
  "callback d i s =
     (let (k, b) = s in
      if i < length (br_unsettled b)
      then settle d (br_unsettled b ! i)
             (k, b\<lparr>br_unsettled := take i (br_unsettled b) @ drop (Suc i) (br_unsettled b)\<rparr>)
      else s)"

text \<open>\<^verbatim>\<open>close\<close>: callbacks arrive during the flush, and the count left is what it returns.\<close>

definition callbacks :: "(delivery \<times> nat) list \<Rightarrow> kafka_state \<Rightarrow> kafka_state" where
  "callbacks cs s = fold (\<lambda>(d, i). callback d i) cs s"

definition kt_close :: "(delivery \<times> nat) list \<Rightarrow> kafka_state \<Rightarrow> int \<times> kafka_state" where
  "kt_close during s = (let s' = if kt_producer (fst s) then callbacks during s else s in (in_flight (fst s'), s'))"

section \<open>The producer's configuration\<close>

definition producer_config :: "settings \<Rightarrow> (str, py_value) odict" where
  "producer_config s =
     (let given = foldl (\<lambda>d (k, v). od_set k v d) [(lit ''max_block_ms'', PInt 250)] (kafka_client_config s);
          servers = (case kafka_bootstrap_servers s of None \<Rightarrow> PNone | Some v \<Rightarrow> PStr v)
      in od_set (lit ''enable_idempotence'') (PBool True) (od_set (lit ''acks'') (PStr (lit ''all''))
           (od_set (lit ''bootstrap_servers'') servers given)))"

text \<open>\<^verbatim>\<open>producer_factory\<close>: \<open>None\<close> is its \<^verbatim>\<open>RuntimeError\<close> where the client is not installed.\<close>

definition producer_factory :: "bool \<Rightarrow> settings \<Rightarrow> (str, py_value) odict option" where
  "producer_factory installed s = (if installed then Some (producer_config s) else None)"

lemma producer_config_durable:
  "od_get (producer_config s) (lit ''acks'') = Some (PStr (lit ''all''))"
  "od_get (producer_config s) (lit ''enable_idempotence'') = Some (PBool True)"
  by (simp_all add: producer_config_def Let_def od_simps)

section \<open>Under the audit sink\<close>

text \<open>
  What happens around the transport: before each call the callbacks that arrived, and during it what
  each attempt meets.
\<close>

record kafka_world =
  kw_state :: kafka_state
  kw_script :: "nat \<Rightarrow> (delivery \<times> nat) list \<times> (nat \<Rightarrow> attempt)"
  kw_calls :: nat

definition kafka_send :: "kafka_world send" where
  "kafka_send e w =
     (let (arrived, A) = kw_script w (kw_calls w); (ok, s) = kt_send A e (callbacks arrived (kw_state w))
      in (ok, w\<lparr>kw_state := s, kw_calls := Suc (kw_calls w)\<rparr>))"

section \<open>Nothing is lost and nothing is made up\<close>

text \<open>Where an event the transport took is: acknowledged, with the broker, or refused and kept.\<close>

definition held :: "kafka_state \<Rightarrow> audit_event multiset" where
  "held s = mset (map km_value (br_acked (snd s))) + mset (map km_value (br_unsettled (snd s))) + mset (kt_refused (fst s))"

definition counted :: "kafka_state \<Rightarrow> bool" where
  "counted s \<longleftrightarrow> kt_flying (fst s) = int (length (br_unsettled (snd s)))"

lemma connected_frame:
  "connected a k = (ok, k') \<Longrightarrow>
    kt_refused k' = kt_refused k \<and> kt_flying k' = kt_flying k \<and> kt_topic k' = kt_topic k"
  by (auto simp: connected_def split: if_splits)

lemma settle_held:
  "held (settle d m s) = held s + {#km_value m#}" "kt_flying (fst (settle d m s)) = kt_flying (fst s) - 1"
  "br_unsettled (snd (settle d m s)) = br_unsettled (snd s)"
  by (cases s; cases d; simp add: held_def acknowledged_def refuse_event_def)+

lemma produce_held:
  assumes "produce a e s = (ok, s')" and "counted s"
  shows "held s' = held s + (if ok then {#e#} else {#})" "counted s'"
proof -
  obtain k b where s: "s = (k, b)" by (cases s)
  obtain up k' where up: "connected a k = (up, k')" by fastforce
  note frame = connected_frame [OF up]
  let ?m = "message_of k' e"
  have "held s' = held s + (if ok then {#e#} else {#}) \<and> counted s'"
  proof (cases up)
    case False
    then show ?thesis using assms s up frame by (auto simp: produce_def held_def counted_def)
  next
    case True
    show ?thesis
    proof (cases "at_answer a")
      case NotQueued
      then show ?thesis using assms s up True frame by (auto simp: produce_def held_def counted_def)
    next
      case (Queued answer)
      show ?thesis
      proof (cases answer)
        case None
        then show ?thesis
          using assms s up True frame Queued by (auto simp: produce_def held_def counted_def message_of_def)
      next
        case (Some d)
        let ?t = "(k'\<lparr>kt_flying := kt_flying k' + 1\<rparr>, b)"
        have "ok" "s' = settle d ?m ?t" using assms(1) s up True Queued Some by (simp_all add: produce_def Let_def)
        then show ?thesis
          using settle_held [of d ?m ?t] assms(2) s frame by (simp add: held_def counted_def message_of_def)
      qed
    qed
  qed
  then show "held s' = held s + (if ok then {#e#} else {#})" "counted s'" by blast+
qed

lemma retry_all_held:
  "retry_all A i es s = (ok, s') \<Longrightarrow> counted s \<Longrightarrow> held s' = held s + mset es \<and> counted s'"
proof (induction es arbitrary: i s)
  case (Cons e es)
  obtain fin t where t: "produce (A i) e s = (fin, t)" by (cases "produce (A i) e s")
  note step = produce_held [OF t Cons.prems(2)]
  show ?case
  proof (cases fin)
    case True
    then show ?thesis using Cons.IH [of "Suc i" t] Cons.prems(1) t step by (simp add: Let_def)
  next
    case False
    then have "s' = ((fst t)\<lparr>kt_refused := (e # es) @ kt_refused (fst t)\<rparr>, snd t)" using Cons.prems(1) t by simp
    then have "held s' = held t + mset (e # es)" "counted s' = counted t" by (simp_all add: held_def counted_def)
    then show ?thesis using step False by simp
  qed
qed simp

lemma kt_send_held:
  assumes "kt_send A e s = (ok, s')" and "counted s"
  shows "held s' = held s + (if ok then {#e#} else {#})" "counted s'"
proof -
  let ?retry = "kt_refused (fst s)" and ?s = "((fst s)\<lparr>kt_refused := []\<rparr>, snd s)"
  obtain fin t where t: "retry_all A 0 ?retry ?s = (fin, t)" by (cases "retry_all A 0 ?retry ?s")
  have "counted ?s" "held ?s + mset ?retry = held s" using assms(2) by (simp_all add: counted_def held_def)
  with retry_all_held [OF t] have kept: "held t = held s" "counted t" by simp_all
  have "held s' = held s + (if ok then {#e#} else {#}) \<and> counted s'"
  proof (cases fin)
    case True
    then have "produce (A (length ?retry)) e t = (ok, s')" using assms(1) t by (simp add: kt_send_def)
    from produce_held [OF this kept(2)] show ?thesis using kept(1) by simp
  next
    case False
    then show ?thesis using assms(1) t kept by (auto simp: kt_send_def)
  qed
  then show "held s' = held s + (if ok then {#e#} else {#})" "counted s'" by blast+
qed

lemma callback_held: "counted s \<Longrightarrow> held (callback d i s) = held s \<and> counted (callback d i s)"
proof -
  assume "counted s"
  obtain k b where s: "s = (k, b)" by (cases s)
  let ?b = "b\<lparr>br_unsettled := take i (br_unsettled b) @ drop (Suc i) (br_unsettled b)\<rparr>"
  show ?thesis
  proof (cases "i < length (br_unsettled b)")
    case True
    then have "callback d i s = settle d (br_unsettled b ! i) (k, ?b)" by (simp add: callback_def s)
    moreover have "mset (br_unsettled b) = mset (br_unsettled ?b) + {#br_unsettled b ! i#}"
      using arg_cong [OF id_take_nth_drop [OF True], of mset] by simp
    ultimately show ?thesis
      using settle_held [of d "br_unsettled b ! i" "(k, ?b)"] \<open>counted s\<close> True s
      by (auto simp: held_def counted_def)
  qed (use \<open>counted s\<close> s in \<open>simp add: callback_def\<close>)
qed

lemma callbacks_held: "counted s \<Longrightarrow> held (callbacks cs s) = held s \<and> counted (callbacks cs s)"
proof (induction cs arbitrary: s)
  case (Cons c cs)
  have "held (callback (fst c) (snd c) s) = held s \<and> counted (callback (fst c) (snd c) s)"
    by (rule callback_held [OF Cons.prems])
  then show ?case using Cons.IH [of "callback (fst c) (snd c) s"] by (simp add: callbacks_def case_prod_unfold)
qed (simp add: callbacks_def)

text \<open>The record of what the transport took agrees with where the events are.\<close>

definition balanced :: "kafka_world \<times> audit_event list \<Rightarrow> bool" where
  "balanced st \<longleftrightarrow> counted (kw_state (fst st)) \<and> held (kw_state (fst st)) = mset (snd st)"

lemma kafka_send_balanced:
  assumes "balanced st"
  shows "balanced (snd (recorded kafka_send e st))"
proof -
  obtain w taken where st: "st = (w, taken)" by (cases st)
  let ?s = "callbacks (fst (kw_script w (kw_calls w))) (kw_state w)" and ?A = "snd (kw_script w (kw_calls w))"
  obtain ok s' where send: "kt_send ?A e ?s = (ok, s')" by (cases "kt_send ?A e ?s")
  have "held ?s = mset taken" "counted ?s"
    using assms callbacks_held [of "kw_state w"] by (auto simp: balanced_def st)
  with kt_send_held [OF send] show ?thesis
    using send by (simp add: balanced_def st recorded_def kafka_send_def case_prod_unfold Let_def)
qed

lemma subseq_mset: "subseq xs ys \<Longrightarrow> mset xs \<subseteq># mset ys"
proof (induction rule: list_emb.induct)
  case (list_emb_Cons xs ys y)
  have "mset ys \<subseteq># mset (y # ys)" by simp
  with list_emb_Cons.IH show ?case by (rule subset_mset.order_trans)
qed simp_all

section \<open>Claims\<close>

definition idle_world :: "str \<Rightarrow> (nat \<Rightarrow> (delivery \<times> nat) list \<times> (nat \<Rightarrow> attempt)) \<Rightarrow> kafka_world" where
  "idle_world topic script = \<lparr>kw_state = (new_kafka_transport topic, new_broker), kw_script = script, kw_calls = 0\<rparr>"

lemma idle_balanced: "balanced (idle_world topic script, [])"
  by (simp add: balanced_def idle_world_def counted_def held_def new_kafka_transport_def new_broker_def)

text \<open>
  C35: No audit event is lost between the gateway and the broker. From a new transport under a new
  sink, and for any calls on the sink, whatever the connection, the client and the broker answer and in
  whatever order the callbacks arrive: every published event is acknowledged by the broker, or on its
  way to it, or refused by it and kept for the next send, or buffered in the sink, or one of those the
  sink counts as dropped; none is there twice or made up; and \<^verbatim>\<open>in_flight\<close>, which
  \<^verbatim>\<open>close\<close> returns, counts exactly the second and third.
\<close>

theorem kafka_loses_nothing:
  "let s = sink_run (recorded kafka_send) (new_audit_sink maxlen (idle_world topic script, []) mandatory) calls;
       (k, b) = kw_state (fst (sk_transport s));
       kept = mset (map km_value (br_acked b)) + mset (map km_value (br_unsettled b)) + mset (kt_refused k)
         + mset (sk_pending s);
       published = concat (map delivered_by calls)
   in kept \<subseteq># mset published \<and> size kept + sk_dropped s = length published
    \<and> in_flight k = int (length (br_unsettled b) + length (kt_refused k))"
proof -
  let ?start = "new_audit_sink maxlen (idle_world topic script, [] :: audit_event list) mandatory"
  let ?s = "sink_run (recorded kafka_send) ?start calls" and ?published = "concat (map delivered_by calls)"
  obtain k b where kb: "kw_state (fst (sk_transport ?s)) = (k, b)" by (cases "kw_state (fst (sk_transport ?s))")
  have "balanced (sk_transport ?start)" using idle_balanced by (simp add: new_audit_sink_def)
  then have "balanced (sk_transport ?s)"
    by (intro sink_run_keeps [where keep = balanced] kafka_send_balanced)
  then have held: "held (k, b) = mset (snd (sk_transport ?s))" and counted: "counted (k, b)"
    using kb by (simp_all add: balanced_def)
  have "recorded.trail ?start = []" "sk_dropped ?start = 0" by (simp_all add: recorded.trail_def new_audit_sink_def)
  then have trail: "subseq (recorded.trail ?s) ?published" "length (recorded.trail ?s) + sk_dropped ?s = length ?published"
    using recorded.trail_run [of kafka_send ?start calls] by auto
  let ?kept = "held (k, b) + mset (sk_pending ?s)"
  have kept: "?kept = mset (recorded.trail ?s)" using held by (simp add: recorded.trail_def)
  have "?kept \<subseteq># mset ?published"
    using trail(1) unfolding kept by (rule subseq_mset)
  moreover have "size ?kept + sk_dropped ?s = length ?published" using trail(2) unfolding kept by simp
  moreover have "in_flight k = int (length (br_unsettled b) + length (kt_refused k))"
    using counted by (simp add: in_flight_def counted_def)
  ultimately show ?thesis using kb by (simp add: held_def Let_def)
qed

text \<open>An attempt that goes through at once: there is a producer or one can be had, and it acknowledges.\<close>

definition healthy :: "kafka_transport \<Rightarrow> attempt \<Rightarrow> bool" where
  "healthy k a \<longleftrightarrow> (kt_producer k \<or> kt_reconnect_at k \<le> at_now a \<and> at_connects a) \<and> at_answer a = Queued (Some Acked)"

lemma produce_healthy:
  assumes "healthy k a"
  obtains k' where "produce a e (k, b) = (True, k', b\<lparr>br_acked := br_acked b @ [message_of k e]\<rparr>)"
    "kt_producer k'" "kt_refused k' = kt_refused k" "kt_flying k' = kt_flying k" "kt_topic k' = kt_topic k"
proof -
  let ?k1 = "if kt_producer k then k else k\<lparr>kt_producer := True\<rparr>"
  have "connected a k = (True, ?k1)" "kt_producer ?k1" "kt_refused ?k1 = kt_refused k" "kt_flying ?k1 = kt_flying k"
    "kt_topic ?k1 = kt_topic k"
    using assms by (auto simp: connected_def healthy_def)
  then obtain k1 where "connected a k = (True, k1)" "kt_producer k1" "kt_refused k1 = kt_refused k" "kt_flying k1 = kt_flying k"
    "kt_topic k1 = kt_topic k" by blast
  then show thesis
    using assms by (intro that [of "acknowledged (k1\<lparr>kt_flying := kt_flying k1 + 1\<rparr>)"])
      (simp_all add: produce_def healthy_def acknowledged_def message_of_def)
qed

lemma retry_all_healthy:
  assumes "\<And>i k'. kt_producer k' \<or> k' = k \<Longrightarrow> healthy k' (A i)"
  shows "\<exists>k'. retry_all A i es (k, b) = (True, k', b\<lparr>br_acked := br_acked b @ map (message_of k) es\<rparr>)
    \<and> (kt_producer k' \<or> k' = k) \<and> kt_refused k' = kt_refused k \<and> kt_topic k' = kt_topic k"
  using assms
proof (induction es arbitrary: i k b)
  case (Cons e es)
  have "healthy k (A i)" by (rule Cons.prems) simp
  then obtain k1 where k1: "produce (A i) e (k, b) = (True, k1, b\<lparr>br_acked := br_acked b @ [message_of k e]\<rparr>)"
    "kt_producer k1" "kt_refused k1 = kt_refused k" "kt_topic k1 = kt_topic k"
    by (rule produce_healthy)
  have "message_of k1 = message_of k" using k1(4) by (simp add: message_of_def fun_eq_iff)
  moreover have "healthy k' (A j)" if "kt_producer k' \<or> k' = k1" for j k' using that Cons.prems k1(2) by blast
  ultimately show ?case
    using Cons.IH [of k1 "Suc i" "b\<lparr>br_acked := br_acked b @ [message_of k e]\<rparr>"] k1 by fastforce
qed simp

text \<open>
  C36: A recovered broker gets everything. When the next send finds the broker healthy, with the
  waiting time for a new connection over where there is no producer, then every event the broker had
  refused and then the new one are acknowledged, in that order, under the topic and keyed by
  their tenant, and nothing waits any more.
\<close>

theorem recovered_broker_gets_all:
  assumes "\<And>i k'. kt_producer k' \<or> kt_producer k' = kt_producer k \<and> kt_reconnect_at k' = kt_reconnect_at k \<Longrightarrow> healthy k' (A i)"
  shows "\<exists>k'. kt_send A e (k, b) = (True, k', b\<lparr>br_acked := br_acked b @ map (message_of k) (kt_refused k @ [e])\<rparr>)
    \<and> kt_refused k' = []"
proof -
  let ?k = "k\<lparr>kt_refused := []\<rparr>" and ?retry = "kt_refused k"
  have "healthy k' (A i)" if "kt_producer k' \<or> k' = ?k" for i k' using that assms by auto
  then obtain k1 where k1: "retry_all A 0 ?retry (?k, b) = (True, k1, b\<lparr>br_acked := br_acked b @ map (message_of ?k) ?retry\<rparr>)"
    "kt_producer k1 \<or> k1 = ?k" "kt_refused k1 = []" "kt_topic k1 = kt_topic k"
    using retry_all_healthy [of ?k A 0 ?retry b] by auto
  have "healthy k1 (A (length ?retry))" using k1(2) assms by auto
  then obtain k2 where k2: "produce (A (length ?retry)) e (k1, b\<lparr>br_acked := br_acked b @ map (message_of ?k) ?retry\<rparr>)
      = (True, k2, b\<lparr>br_acked := (br_acked b @ map (message_of ?k) ?retry) @ [message_of k1 e]\<rparr>)" "kt_refused k2 = kt_refused k1"
    by (rule produce_healthy [where b = "b\<lparr>br_acked := br_acked b @ map (message_of ?k) ?retry\<rparr>"]) simp
  have "message_of ?k = message_of k" "message_of k1 = message_of k" using k1(4) by (simp_all add: message_of_def fun_eq_iff)
  then show ?thesis using k1 k2 by (simp add: kt_send_def)
qed

definition healthy_attempt :: attempt where
  "healthy_attempt = \<lparr>at_now = 10, at_connects = True, at_later = 0, at_answer = Queued (Some Acked)\<rparr>"

theorem recovered_broker_gets_all_witness:
  "\<exists>k'. kt_send (\<lambda>_. healthy_attempt) (example_event 2) ((new_kafka_transport (lit ''audit''))\<lparr>kt_refused := [example_event 1]\<rparr>, new_broker)
     = (True, k', new_broker\<lparr>br_acked := map (message_of (new_kafka_transport (lit ''audit''))) [example_event 1, example_event 2]\<rparr>)"
proof -
  let ?k = "(new_kafka_transport (lit ''audit''))\<lparr>kt_refused := [example_event 1]\<rparr>"
  have ready: "healthy k' healthy_attempt"
    if "kt_producer k' \<or> kt_producer k' = kt_producer ?k \<and> kt_reconnect_at k' = kt_reconnect_at ?k" for i :: nat and k'
    using that by (auto simp: healthy_def healthy_attempt_def new_kafka_transport_def)
  have "message_of ?k = message_of (new_kafka_transport (lit ''audit''))" by (simp add: message_of_def fun_eq_iff)
  then show ?thesis
    using recovered_broker_gets_all [of ?k "\<lambda>_. healthy_attempt" "example_event 2" new_broker, OF ready]
    by (auto simp: new_broker_def)
qed

section \<open>Waiting, and order\<close>

text \<open>
  After a failed connection none is tried for five seconds: an attempt before that fails without
  asking for a producer and changes nothing.
\<close>

lemma reconnect_waits:
  assumes "\<not> kt_producer k" and "connected a k = (False, k')" and "kt_reconnect_at k \<le> at_now a"
  shows "\<not> at_connects a \<and> kt_reconnect_at k' = at_later a + 5
    \<and> (at_now c < at_later a + 5 \<longrightarrow> produce c e (k', b) = (False, k', b))"
  using assms by (auto simp: connected_def produce_def RECONNECT_SECONDS_def split: if_splits)

text \<open>
  The order of a tenant's events is not kept over a refusal: an event refused after a newer one was
  acknowledged is sent again behind it.
\<close>

definition slow_attempt :: attempt where "slow_attempt = healthy_attempt\<lparr>at_answer := Queued None\<rparr>"

lemma refused_event_overtaken:
  "let s1 = snd (kt_send (\<lambda>_. slow_attempt) e1 (new_kafka_transport topic, new_broker));
       s2 = snd (kt_send (\<lambda>_. healthy_attempt) e2 s1);
       s3 = callback Refused 0 s2
   in map km_value (br_acked (snd (snd (kt_send (\<lambda>_. healthy_attempt) e3 s3)))) = [e2, e1, e3]"
  by (simp add: kt_send_def produce_def connected_def slow_attempt_def healthy_attempt_def new_kafka_transport_def
      new_broker_def callback_def refuse_event_def acknowledged_def message_of_def Let_def)

end
