(* ===== verification/Sandbox.thy ===== *)
theory Sandbox
  imports Utf8 Service
begin

text \<open>
  The container sandbox of \<^verbatim>\<open>sandbox.py\<close>: the command line of a run, the capture of its output,
  the wait for its end, and the result. What the runtime does during a run (its start, the
  clock, the chunks of output, the exit) is the argument \<open>run_world\<close>; the code has passed the
  argument schema, whose strings can be encoded.
\<close>

section \<open>Limits and command line\<close>

record sandbox_limits =
  sl_cpus :: real
  sl_memory_mb :: nat
  sl_pids :: nat
  sl_timeout_seconds :: real
  sl_output_bytes :: nat

definition limits_from_settings :: "settings \<Rightarrow> sandbox_limits" where
  "limits_from_settings s = \<lparr>sl_cpus = sandbox_cpus s, sl_memory_mb = sandbox_memory_mb s, sl_pids = sandbox_pids s,
     sl_timeout_seconds = sandbox_timeout_seconds s, sl_output_bytes = sandbox_output_bytes s\<rparr>"

record container =
  cs_image :: str
  cs_limits :: sandbox_limits
  cs_runtime :: str
  cs_oci_runtime :: "str option"

text \<open>\<open>float_repr\<close> is \<^verbatim>\<open>str\<close> of a float. An empty OCI runtime counts as none.\<close>

definition run_command :: "(real \<Rightarrow> str) \<Rightarrow> container \<Rightarrow> str \<Rightarrow> bool \<Rightarrow> str list" where
  "run_command float_repr c name network =
     (let limits = cs_limits c;
          isolation = (case cs_oci_runtime c of Some (x # xs) \<Rightarrow> [lit ''--runtime'', x # xs] | _ \<Rightarrow> []);
          memory = dec (sl_memory_mb limits) @ lit ''m''
      in [cs_runtime c, lit ''run''] @ isolation
         @ map lit [''--rm'', ''--interactive'', ''--name''] @ [name]
         @ [lit ''--network'', if network then lit ''bridge'' else lit ''none'']
         @ map lit [''--read-only'', ''--tmpfs'', ''/tmp:rw,noexec,nosuid,nodev,size=16m'', ''--workdir'', ''/tmp'',
              ''--user'', ''65534:65534'', ''--cap-drop'', ''ALL'', ''--security-opt'', ''no-new-privileges'']
         @ [lit ''--pids-limit'', dec (sl_pids limits), lit ''--memory'', memory, lit ''--memory-swap'', memory,
            lit ''--cpus'', float_repr (sl_cpus limits)]
         @ map lit [''--ulimit'', ''nofile=64:64'', ''--env'', ''PYTHONDONTWRITEBYTECODE=1'']
         @ [cs_image c] @ map lit [''python'', ''-I'', ''-''])"

definition kill_command :: "container \<Rightarrow> str \<Rightarrow> str list" where
  "kill_command c name = [cs_runtime c, lit ''kill'', name]"

text \<open>\<^verbatim>\<open>available\<close>: what running a command ends with, \<open>None\<close> when it cannot run or does not end.\<close>

definition sandbox_available :: "(str list \<Rightarrow> int option) \<Rightarrow> container \<Rightarrow> bool" where
  "sandbox_available command c \<longleftrightarrow>
     command (cs_runtime c # map lit [''version'', ''--format'', ''{{.Server.Version}}'']) = Some 0"

section \<open>Output\<close>

text \<open>\<^verbatim>\<open>_capture\<close>: an empty chunk is the end of the stream.\<close>

fun capture_output :: "nat \<Rightarrow> nat list list \<Rightarrow> nat list \<times> bool \<Rightarrow> nat list \<times> bool" where
  "capture_output limit [] st = st"
| "capture_output limit (chunk # chunks) (into, overflow) =
     (if chunk = [] then (into, overflow)
      else let room = limit - length into
           in capture_output limit chunks (into @ take room chunk, overflow \<or> length chunk > room))"

section \<open>The wait\<close>

record run_world =
  rw_starts :: bool
  rw_clock :: "nat \<Rightarrow> real" \<comment> \<open>the readings of \<^verbatim>\<open>_finished\<close>, the first for the deadline\<close>
  rw_overflowed :: "nat \<Rightarrow> bool" \<comment> \<open>the flag in each round\<close>
  rw_exits :: "nat \<Rightarrow> bool" \<comment> \<open>whether the wait of a round ends with the process\<close>
  rw_polled :: bool
  rw_overflow_seen :: bool \<comment> \<open>the flag when the run is stopped\<close>
  rw_stdout :: "nat list list"
  rw_stderr :: "nat list list"
  rw_returncode :: int
  rw_elapsed_ms :: real

text \<open>\<^verbatim>\<open>_finished\<close>; \<open>None\<close> is a wait that never ends.\<close>

partial_function (option) finished_from :: "run_world \<Rightarrow> real \<Rightarrow> nat \<Rightarrow> bool option" where
  "finished_from w deadline i =
     (if rw_clock w (Suc i) < deadline
      then if rw_overflowed w i then Some True
           else if rw_exits w i then Some True
           else finished_from w deadline (Suc i)
      else Some (rw_polled w))"

definition finished :: "container \<Rightarrow> run_world \<Rightarrow> bool option" where
  "finished c w = finished_from w (rw_clock w 0 + sl_timeout_seconds (cs_limits c)) 0"

section \<open>A run\<close>

text \<open>The result, and the commands that were spawned. \<open>hex\<close> is that of a new \<^verbatim>\<open>uuid4\<close>.\<close>

definition sandbox_run ::
  "(real \<Rightarrow> str) \<Rightarrow> (real \<Rightarrow> real) \<Rightarrow> container \<Rightarrow> run_world \<Rightarrow> str \<Rightarrow> bool
    \<Rightarrow> (sandbox_error + sandbox_result \<times> str list list) option" where
  "sandbox_run float_repr round3 c w hex network =
     (let name = lit ''guardrail-sandbox-'' @ hex; start = run_command float_repr c name network in
      if \<not> rw_starts w then Some (Inl SandboxUnavailableError)
      else map_option (\<lambda>ended.
        let timed_out = \<not> ended;
            kills = (if timed_out \<or> rw_overflow_seen w then [kill_command c name] else []);
            limit = sl_output_bytes (cs_limits c);
            (out, out_over) = capture_output limit (rw_stdout w) ([], False);
            (err, err_over) = capture_output limit (rw_stderr w) ([], False);
            overflow = out_over \<or> err_over;
            killed = timed_out \<or> overflow
        in Inr (\<lparr>sr_exit_code = if killed then None else Some (rw_returncode w), sr_stdout = utf8_replace out,
                  sr_stderr = utf8_replace err, sr_timed_out = timed_out, sr_output_truncated = overflow,
                  sr_network = network, sr_duration_ms = round3 (rw_elapsed_ms w)\<rparr>, start # kills)) (finished c w))"

definition build_sandbox :: "settings \<Rightarrow> container option" where
  "build_sandbox s = map_option (\<lambda>image. \<lparr>cs_image = image, cs_limits = limits_from_settings s,
     cs_runtime = sandbox_runtime s, cs_oci_runtime = sandbox_oci_runtime s\<rparr>) (sandbox_image s)"

section \<open>The output is what fits\<close>

definition stream_of :: "nat list list \<Rightarrow> nat list" where
  "stream_of chunks = concat (takeWhile (\<lambda>chunk. chunk \<noteq> []) chunks)"

lemma capture_output_stream:
  "length into \<le> limit \<Longrightarrow> capture_output limit chunks (into, overflow)
    = (take limit (into @ stream_of chunks), overflow \<or> limit < length into + length (stream_of chunks))"
proof (induction chunks arbitrary: into overflow)
  case (Cons chunk chunks)
  show ?case
  proof (cases "chunk = []")
    case False
    let ?room = "limit - length into"
    have "length (into @ take ?room chunk) \<le> limit" using Cons.prems by simp
    from Cons.IH [OF this] have "capture_output limit (chunk # chunks) (into, overflow)
        = (take limit ((into @ take ?room chunk) @ stream_of chunks),
           (overflow \<or> ?room < length chunk) \<or> limit < length (into @ take ?room chunk) + length (stream_of chunks))"
      using False by (simp add: Let_def)
    then show ?thesis using Cons.prems False by (auto simp: stream_of_def min_def)
  qed (use Cons.prems in \<open>simp add: stream_of_def\<close>)
qed (simp add: stream_of_def)

lemma length_utf8_pieces: "length (utf8_pieces bs) \<le> length bs"
proof (induction bs rule: utf8_pieces.induct)
  case (1 bs)
  show ?case
  proof (cases "bs = []")
    case False
    then have "length (utf8_pieces (drop (snd (utf8_piece bs)) bs)) \<le> length bs - snd (utf8_piece bs)" using 1 by simp
    moreover have "length (utf8_pieces bs) = Suc (length (utf8_pieces (drop (snd (utf8_piece bs)) bs)))"
      using False by (subst utf8_pieces.simps) simp
    moreover have "0 < length bs" using False by simp
    ultimately show ?thesis using utf8_piece_positive [of bs] by linarith
  qed (subst utf8_pieces.simps, simp)
qed

lemma length_utf8_replace: "length (utf8_replace bs) \<le> length bs"
  using length_utf8_pieces by (simp add: utf8_replace_def)

section \<open>The wait ends\<close>

text \<open>A wait that times out has taken its fifty milliseconds.\<close>

definition clock_runs :: "run_world \<Rightarrow> bool" where
  "clock_runs w \<longleftrightarrow> rw_clock w 0 \<le> rw_clock w 1
     \<and> (\<forall>i. \<not> rw_overflowed w i \<longrightarrow> \<not> rw_exits w i \<longrightarrow> rw_clock w (Suc i) + 1 / 20 \<le> rw_clock w (Suc (Suc i)))"

lemma finished_from_ends:
  assumes "clock_runs w" and "deadline - rw_clock w (Suc i) \<le> real n / 20"
  shows "\<exists>r. finished_from w deadline i = Some r
    \<and> (\<not> r \<longrightarrow> (\<exists>j. deadline \<le> rw_clock w (Suc j)) \<and> \<not> rw_polled w)"
  using assms(2)
proof (induction n arbitrary: i)
  case 0
  then show ?case by (subst finished_from.simps) auto
next
  case (Suc n)
  show ?case
  proof (cases "rw_clock w (Suc i) < deadline \<and> \<not> rw_overflowed w i \<and> \<not> rw_exits w i")
    case True
    then have "rw_clock w (Suc i) + 1 / 20 \<le> rw_clock w (Suc (Suc i))" using assms(1) by (simp add: clock_runs_def)
    then have "deadline - rw_clock w (Suc (Suc i)) \<le> real n / 20" using Suc.prems by (simp add: field_simps)
    from Suc.IH [OF this] show ?thesis using True by (subst finished_from.simps) simp
  next
    case False
    then show ?thesis by (subst finished_from.simps) (auto simp: not_less)
  qed
qed

lemma finished_ends:
  assumes "clock_runs w"
  obtains r where "finished c w = Some r"
    "\<not> r \<longrightarrow> (\<exists>j. rw_clock w 0 + sl_timeout_seconds (cs_limits c) \<le> rw_clock w (Suc j)) \<and> \<not> rw_polled w"
proof -
  let ?deadline = "rw_clock w 0 + sl_timeout_seconds (cs_limits c)"
  obtain n :: nat where "20 * sl_timeout_seconds (cs_limits c) \<le> real n" using real_arch_simple by blast
  then have "?deadline - rw_clock w (Suc 0) \<le> real n / 20" using assms by (simp add: clock_runs_def)
  from finished_from_ends [OF assms this] show thesis using that unfolding finished_def by blast
qed

section \<open>What the command isolates\<close>

lemma sublist_within: "ys = ps @ xs @ ss \<Longrightarrow> sublist xs ys"
  by simp

lemma command_isolates:
  fixes c name network float_repr
  defines "argv \<equiv> run_command float_repr c name network"
  shows "sublist (map lit [''--name''] @ [name]) argv"
    "sublist [lit ''--network'', if network then lit ''bridge'' else lit ''none''] argv"
    "lit ''--read-only'' \<in> set argv" "sublist (map lit [''--cap-drop'', ''ALL'']) argv"
    "\<exists>m. sublist [lit ''--memory'', m, lit ''--memory-swap'', m] argv"
proof -
  let ?oci = "case cs_oci_runtime c of Some (x # xs) \<Rightarrow> [lit ''--runtime'', x # xs] | _ \<Rightarrow> []"
  let ?start = "[cs_runtime c, lit ''run''] @ ?oci @ map lit [''--rm'', ''--interactive'']"
  let ?named = "map lit [''--name''] @ [name]"
  let ?net = "[lit ''--network'', if network then lit ''bridge'' else lit ''none'']"
  let ?fs = "map lit [''--read-only'', ''--tmpfs'', ''/tmp:rw,noexec,nosuid,nodev,size=16m'', ''--workdir'', ''/tmp'',
    ''--user'', ''65534:65534'']"
  let ?caps = "map lit [''--cap-drop'', ''ALL'']"
  let ?m = "dec (sl_memory_mb (cs_limits c)) @ lit ''m''"
  let ?pids = "map lit [''--security-opt'', ''no-new-privileges''] @ [lit ''--pids-limit'', dec (sl_pids (cs_limits c))]"
  let ?mem = "[lit ''--memory'', ?m, lit ''--memory-swap'', ?m]"
  let ?rest = "[lit ''--cpus'', float_repr (sl_cpus (cs_limits c))]
    @ map lit [''--ulimit'', ''nofile=64:64'', ''--env'', ''PYTHONDONTWRITEBYTECODE=1'']
    @ [cs_image c] @ map lit [''python'', ''-I'', ''-'']"
  have parts: "argv = ?start @ ?named @ ?net @ ?fs @ ?caps @ ?pids @ ?mem @ ?rest"
    by (simp add: argv_def run_command_def Let_def)
  show "sublist ?named argv" by (rule sublist_within [of _ ?start]) (simp only: parts append.assoc)
  show "sublist ?net argv" by (rule sublist_within [of _ "?start @ ?named"]) (simp only: parts append.assoc)
  show "lit ''--read-only'' \<in> set argv" unfolding parts by simp
  show "sublist ?caps argv"
    by (rule sublist_within [of _ "?start @ ?named @ ?net @ ?fs"]) (simp only: parts append.assoc)
  show "\<exists>m. sublist [lit ''--memory'', m, lit ''--memory-swap'', m] argv"
    by (rule exI [of _ ?m], rule sublist_within [of _ "?start @ ?named @ ?net @ ?fs @ ?caps @ ?pids"])
      (simp only: parts append.assoc)
qed

section \<open>Claims\<close>


definition example_container :: container where
  "example_container = \<lparr>cs_image = lit ''python:3.12'',
     cs_limits = \<lparr>sl_cpus = 1 / 2, sl_memory_mb = 128, sl_pids = 32, sl_timeout_seconds = 10, sl_output_bytes = 4\<rparr>,
     cs_runtime = lit ''docker'', cs_oci_runtime = None\<rparr>"

definition chatty_run :: run_world where
  "chatty_run = \<lparr>rw_starts = True, rw_clock = (\<lambda>i. real i / 20), rw_overflowed = (\<lambda>_. False), rw_exits = (\<lambda>i. i = 3),
     rw_polled = True, rw_overflow_seen = True, rw_stdout = [[104, 105], [33, 33, 33]], rw_stderr = [], rw_returncode = 0,
     rw_elapsed_ms = 200\<rparr>"


section \<open>The sandbox as the service calls it\<close>

text \<open>What the runtime does may depend on the code; a run whose wait never ends does not occur while the clock runs.\<close>

definition container_port ::
  "(real \<Rightarrow> str) \<Rightarrow> (real \<Rightarrow> real) \<Rightarrow> (str list \<Rightarrow> int option) \<Rightarrow> (str \<Rightarrow> bool \<Rightarrow> run_world) \<Rightarrow> str \<Rightarrow> container \<Rightarrow> sandbox" where
  "container_port float_repr round3 command world hex c =
     \<lparr>sb_available = sandbox_available command c,
      sb_run = (\<lambda>code network. case sandbox_run float_repr round3 c (world code network) hex network of
          Some (Inr (r, _)) \<Rightarrow> Inr r | _ \<Rightarrow> Inl SandboxUnavailableError)\<rparr>"

lemma container_port_result:
  assumes "sb_run (container_port float_repr round3 command world hex c) code network = Inr r"
  shows "sr_network r = network \<and> (sr_exit_code r = None \<longleftrightarrow> sr_timed_out r \<or> sr_output_truncated r)
    \<and> length (sr_stdout r) \<le> sl_output_bytes (cs_limits c) \<and> length (sr_stderr r) \<le> sl_output_bytes (cs_limits c)"
proof -
  obtain commands where "sandbox_run float_repr round3 c (world code network) hex network = Some (Inr (r, commands))"
    using assms by (auto simp: container_port_def split: option.splits sum.splits prod.splits)
  then have fields: "sr_stdout r = utf8_replace (take (sl_output_bytes (cs_limits c)) (stream_of (rw_stdout (world code network))))"
      "sr_stderr r = utf8_replace (take (sl_output_bytes (cs_limits c)) (stream_of (rw_stderr (world code network))))"
      "sr_network r = network" "sr_exit_code r = None \<longleftrightarrow> sr_timed_out r \<or> sr_output_truncated r"
    by (auto simp: sandbox_run_def Let_def capture_output_stream split: if_splits)
  have "length (utf8_replace (take n xs)) \<le> n" for n xs
    using length_utf8_replace [of "take n xs"] by simp
  then show ?thesis using fields by simp
qed

end
