(* ===== verification/Wiring.thy ===== *)
theory Wiring
  imports Answers Remote Kafka Sandbox
begin

text \<open>
  What \<^verbatim>\<open>create_app\<close> of \<^verbatim>\<open>app.py\<close> builds when it is given settings and no adapters, as it is when
  the gateway is deployed: which store, transport, decision point, detectors and sandbox the settings
  choose, put together into one gateway, and what is released when it stops. An adapter chosen when the
  program starts is a value of a sum, and a call on it goes to the one that was chosen. The locales
  say that the choice keeps the contracts; the gateway's guarantees then hold of every deployment.
\<close>

section \<open>One adapter or the other\<close>

fun on_sum :: "('m \<Rightarrow> 'r \<times> 'm) \<Rightarrow> ('s \<Rightarrow> 'r \<times> 's) \<Rightarrow> 'm + 's \<Rightarrow> 'r \<times> ('m + 's)" where
  "on_sum f g (Inl a) = (let (r, a') = f a in (r, Inl a'))"
| "on_sum f g (Inr b) = (let (r, b') = g b in (r, Inr b'))"

lemma on_sum_Inl: "on_sum f g x = (r, Inl a') \<longleftrightarrow> (\<exists>a. x = Inl a \<and> f a = (r, a'))"
  by (cases x) (auto split: prod.splits)

lemma on_sum_Inr: "on_sum f g x = (r, Inr b') \<longleftrightarrow> (\<exists>b. x = Inr b \<and> g b = (r, b'))"
  by (cases x) (auto split: prod.splits)

lemma on_sum_result: "on_sum f g x = (r, x') \<Longrightarrow> (\<exists>a a'. f a = (r, a')) \<or> (\<exists>b b'. g b = (r, b'))"
  by (cases x) (auto split: prod.splits)

lemma snd_on_sum [simp]:
  "snd (on_sum f g (Inl a)) = Inl (snd (f a))" "snd (on_sum f g (Inr b)) = Inr (snd (g b))"
  by (simp_all add: case_prod_unfold Let_def)

definition either_approvals :: "'m approval_repo \<Rightarrow> 's approval_repo \<Rightarrow> ('m + 's) approval_repo" where
  "either_approvals R S = \<lparr>
     repo_create = (\<lambda>x t i d tn rq. on_sum (\<lambda>a. repo_create R a t i d tn rq) (\<lambda>b. repo_create S b t i d tn rq) x),
     repo_get = (\<lambda>x t i. on_sum (\<lambda>a. repo_get R a t i) (\<lambda>b. repo_get S b t i) x),
     repo_approve = (\<lambda>x t i rv ra. on_sum (\<lambda>a. repo_approve R a t i rv ra) (\<lambda>b. repo_approve S b t i rv ra) x),
     repo_reject = (\<lambda>x t i rv ra. on_sum (\<lambda>a. repo_reject R a t i rv ra) (\<lambda>b. repo_reject S b t i rv ra) x),
     repo_consume = (\<lambda>x t i d tn. on_sum (\<lambda>a. repo_consume R a t i d tn) (\<lambda>b. repo_consume S b t i d tn) x)\<rparr>"

definition either_incidents :: "'m incident_repo \<Rightarrow> 's incident_repo \<Rightarrow> ('m + 's) incident_repo" where
  "either_incidents R S = \<lparr>
     irepo_open = (\<lambda>x t i tn ti sev who ds.
       on_sum (\<lambda>a. irepo_open R a t i tn ti sev who ds) (\<lambda>b. irepo_open S b t i tn ti sev who ds) x),
     irepo_open_for_trace = (\<lambda>x tr tn ti.
       on_sum (\<lambda>a. irepo_open_for_trace R a tr tn ti) (\<lambda>b. irepo_open_for_trace S b tr tn ti) x),
     irepo_attach = (\<lambda>x t i d. on_sum (\<lambda>a. irepo_attach R a t i d) (\<lambda>b. irepo_attach S b t i d) x),
     irepo_get = (\<lambda>x i tn. on_sum (\<lambda>a. irepo_get R a i tn) (\<lambda>b. irepo_get S b i tn) x),
     irepo_list = (\<lambda>x tn. on_sum (\<lambda>a. irepo_list R a tn) (\<lambda>b. irepo_list S b tn) x),
     irepo_update = (\<lambda>x t i tn u. on_sum (\<lambda>a. irepo_update R a t i tn u) (\<lambda>b. irepo_update S b t i tn u) x)\<rparr>"

definition either_send :: "'m send \<Rightarrow> 's send \<Rightarrow> ('m + 's) send" where
  "either_send f g e x = on_sum (f e) (g e) x"

text \<open>Two repositories that keep the contract: so does the one that was chosen.\<close>

locale two_approval_repositories =
  one: approval_repository R seen inv + other: approval_repository S seen' inv'
  for R :: "'m approval_repo" and seen inv and S :: "'s approval_repo" and seen' inv'

lemma snd_on_sum_cases:
  "case_sum f g (snd (on_sum h k x)) = case_sum (\<lambda>a. f (snd (h a))) (\<lambda>b. g (snd (k b))) x"
  by (cases x) (simp_all del: on_sum.simps)

lemma on_sum_eq:
  "on_sum h k x = (r, x') \<longleftrightarrow> (case x of Inl a \<Rightarrow> \<exists>a'. h a = (r, a') \<and> x' = Inl a' | Inr b \<Rightarrow> \<exists>b'. k b = (r, b') \<and> x' = Inr b')"
  by (cases x) (auto split: prod.splits)

lemmas either_simps = either_approvals_def approval_repo.simps snd_on_sum_cases on_sum_eq

context approval_repository
begin

lemmas states = get_state approve_other reject_other consume_other get_inv approve_inv reject_inv consume_inv create_inv

lemmas answers = get_result approve_answer reject_answer consume_result create_self create_other

end

sublocale two_approval_repositories \<subseteq> either: approval_repository "either_approvals R S" "case_sum seen seen'" "case_sum inv inv'"
proof (unfold_locales, unfold either_simps)
  fix x x' :: "'m + 's" and t t' :: int and i d tn rv ra y
  assume inv: "case_sum inv inv' x" and later: "t \<le> t'"
  show "case_sum seen seen' x t' i = map_option (expire t') (case_sum seen seen' x t i)"
    using inv later one.seen_later other.seen_later by (cases x) simp_all
  show "case_sum (\<lambda>a. seen (snd (repo_approve R a t i rv ra))) (\<lambda>b. seen' (snd (repo_approve S b t i rv ra))) x t' i
      \<in> {map_option (expire t' \<circ> adjudicate_record rv ra APPROVED) (case_sum seen seen' x t i), case_sum seen seen' x t' i}"
    using inv one.approve_self [OF _ later] other.approve_self [OF _ later] by (cases x) simp_all
  show "case_sum (\<lambda>a. seen (snd (repo_reject R a t i rv ra))) (\<lambda>b. seen' (snd (repo_reject S b t i rv ra))) x t' i
      \<in> {map_option (expire t' \<circ> adjudicate_record rv ra REJECTED) (case_sum seen seen' x t i), case_sum seen seen' x t' i}"
    using inv one.reject_self [OF _ later] other.reject_self [OF _ later] by (cases x) simp_all
  show "case_sum seen seen' x' t' i = map_option (\<lambda>r. r\<lparr>ap_status := CONSUMED\<rparr>) (case_sum seen seen' x t i)"
    if "case x of Inl a \<Rightarrow> \<exists>a'. repo_consume R a t i d tn = (Inr True, a') \<and> x' = Inl a'
      | Inr b \<Rightarrow> \<exists>b'. repo_consume S b t i d tn = (Inr True, b') \<and> x' = Inr b'"
    using that inv later one.consume_self other.consume_self by (cases x) auto
  show "case_sum seen seen' x' t' i = case_sum seen seen' x t' i
      \<or> y \<noteq> Inr False \<and> (\<exists>r. case_sum seen seen' x t i = Some r \<and> consumable d tn r
          \<and> case_sum seen seen' x' t' i = Some (r\<lparr>ap_status := CONSUMED\<rparr>))"
    if "case x of Inl a \<Rightarrow> \<exists>a'. repo_consume R a t i d tn = (y, a') \<and> x' = Inl a'
      | Inr b \<Rightarrow> \<exists>b'. repo_consume S b t i d tn = (y, b') \<and> x' = Inr b'" and "y \<noteq> Inr True"
    using that inv one.consume_none [OF _ later] other.consume_none [OF _ later] by (cases x) fastforce+
qed (auto split: sum.splits simp: one.states other.states dest: one.answers other.answers)

interpretation stores: two_approval_repositories memory_repo as_seen as_inv "sql_repo ttl" sq_seen sq_inv for ttl
  by unfold_locales

locale two_case_stores =
  one: tenant_cases R + other: tenant_cases S for R :: "'m incident_repo" and S :: "'s incident_repo"

sublocale two_case_stores \<subseteq> either: tenant_cases "either_incidents R S"
  by (unfold_locales, unfold either_incidents_def incident_repo.simps on_sum_eq)
    (auto split: sum.splits dest: one.open_tenant other.open_tenant one.get_tenant other.get_tenant
      one.list_tenant other.list_tenant one.update_tenant other.update_tenant)

interpretation cases: two_case_stores memory_incidents sql_incidents
  by unfold_locales

section \<open>A deployment\<close>

text \<open>
  What is fixed while the application runs beside its settings: the libraries, what the database holds
  and what its server does, and what the message broker does. The two SQL stores share one connection
  in the program; as each statement may fail either way, each has a database of its own here.
\<close>

record deployment =
  dp_settings :: settings
  dp_parsers :: parsers
  dp_schema :: schema_checks
  dp_sha256 :: "str \<Rightarrow> str"
  dp_float_repr :: "real \<Rightarrow> str"
  dp_str :: "py_value \<Rightarrow> str"
  dp_psycopg :: bool \<comment> \<open>whether the drivers are installed\<close>
  dp_kafka_python :: bool
  dp_otel :: bool
  dp_tables :: tables
  dp_outcomes :: "outcome list"
  dp_case_outcomes :: "outcome list"
  dp_broker :: "nat \<Rightarrow> (delivery \<times> nat) list \<times> (nat \<Rightarrow> attempt)"

type_synonym approvals_state = "approval_store + database"

type_synonym transport_state = "memory_transport + kafka_world"

type_synonym incidents_state = "incident_store + database"

datatype startup_error = SE_ValueError | SE_RuntimeError

definition POSTGRES_PREFIXES :: "str list" where
  "POSTGRES_PREFIXES = map lit [''postgresql://'', ''postgres://'']"

definition open_database :: "bool \<Rightarrow> str \<Rightarrow> tables \<Rightarrow> outcome list \<Rightarrow> startup_error + database" where
  "open_database psycopg url tables outcomes =
     (if prefix (lit ''sqlite:///'') url then Inr (new_database tables outcomes)
      else if list_ex (\<lambda>p. prefix p url) POSTGRES_PREFIXES
      then (if psycopg then Inr (new_database tables outcomes) else Inl SE_RuntimeError)
      else Inl SE_ValueError)"

definition chosen_approvals :: "deployment \<Rightarrow> startup_error + approvals_state" where
  "chosen_approvals D =
     (case database_url (dp_settings D) of
        None \<Rightarrow> Inr (Inl (new_approval_store (approval_ttl_seconds (dp_settings D))))
      | Some url \<Rightarrow> map_sum id Inr (open_database (dp_psycopg D) url (dp_tables D) (dp_outcomes D)))"

definition chosen_incidents :: "deployment \<Rightarrow> startup_error + incidents_state" where
  "chosen_incidents D =
     (case database_url (dp_settings D) of
        None \<Rightarrow> Inr (Inl (new_incident_store (incident_store_size (dp_settings D))))
      | Some url \<Rightarrow> map_sum id Inr (open_database (dp_psycopg D) url (dp_tables D) (dp_case_outcomes D)))"

definition chosen_transport :: "deployment \<Rightarrow> startup_error + transport_state" where
  "chosen_transport D =
     (if kafka_bootstrap_servers (dp_settings D) = None
      then Inr (Inl \<lparr>mt_maxlen = audit_buffer_size (dp_settings D), mt_events = []\<rparr>)
      else (case producer_factory (dp_kafka_python D) (dp_settings D) of
              None \<Rightarrow> Inl SE_RuntimeError
            | Some _ \<Rightarrow> Inr (Inr \<lparr>kw_state = (new_kafka_transport (kafka_topic (dp_settings D)), new_broker),
                          kw_script = dp_broker D, kw_calls = 0\<rparr>)))"

definition deployed_ports :: "deployment \<Rightarrow> (approvals_state, transport_state, incidents_state) ports" where
  "deployed_ports D =
     \<lparr>po_settings = dp_settings D, po_parsers = dp_parsers D, po_schema = dp_schema D, po_sha256 = dp_sha256 D,
      po_float_repr = dp_float_repr D, po_str = dp_str D,
      po_approvals = either_approvals memory_repo (sql_repo (approval_ttl_seconds (dp_settings D))),
      po_send = either_send mt_send kafka_send, po_incidents = either_incidents memory_incidents sql_incidents\<rparr>"

text \<open>\<^verbatim>\<open>build_provider\<close> of \<^verbatim>\<open>tracing.py\<close>: whether spans are exported.\<close>

definition build_provider :: "bool \<Rightarrow> settings \<Rightarrow> startup_error + bool" where
  "build_provider installed s =
     (if otlp_endpoint s = None then Inr False else if installed then Inr True else Inl SE_RuntimeError)"

text \<open>\<^verbatim>\<open>create_app\<close> up to the routes: the service's state, or the exception that keeps it from starting.\<close>

definition create_app :: "deployment \<Rightarrow> startup_error + (approvals_state, transport_state, incidents_state) gateway" where
  "create_app D =
     (case chosen_approvals D of Inl e \<Rightarrow> Inl e | Inr approvals \<Rightarrow>
     (case chosen_incidents D of Inl e \<Rightarrow> Inl e | Inr incidents \<Rightarrow>
     (case chosen_transport D of Inl e \<Rightarrow> Inl e | Inr transport \<Rightarrow>
     (case build_provider (dp_otel D) (dp_settings D) of Inl e \<Rightarrow> Inl e | Inr _ \<Rightarrow>
        Inr (new_gateway (deployed_ports D) approvals transport incidents)))))"

text \<open>What is released when the application stops, in this order.\<close>

datatype resource = DatabaseConnection | KafkaProducer | OpaClient | IdentityKeys

definition closing :: "settings \<Rightarrow> resource list" where
  "closing s = (if database_url s \<noteq> None then [DatabaseConnection] else [])
     @ (if kafka_bootstrap_servers s \<noteq> None then [KafkaProducer] else [])
     @ (if opa_url s \<noteq> None then [OpaClient] else []) @ [IdentityKeys]"

section \<open>The environment of a call\<close>

text \<open>What the clocks and the servers behind the gateway answer during one call.\<close>

record call_answers =
  ca_now :: real
  ca_wall :: int
  ca_latency :: real
  ca_opa :: opa_client
  ca_presidio :: json_server
  ca_classifier :: json_server
  ca_runtime :: "str list \<Rightarrow> int option"
  ca_run :: "str \<Rightarrow> bool \<Rightarrow> run_world"
  ca_round3 :: "real \<Rightarrow> real"
  ca_hex :: str

definition chosen_policy :: "deployment \<Rightarrow> call_answers \<Rightarrow> policy_engine" where
  "chosen_policy D C =
     (if opa_url (dp_settings D) = None then local_policy_engine (dp_parsers D) (dp_settings D)
      else opa_policy_engine (dp_parsers D) (dp_settings D) (digest_of (deployed_ports D)) (ca_opa C))"

definition chosen_inspectors :: "deployment \<Rightarrow> call_answers \<Rightarrow> inspector list" where
  "chosen_inspectors D C =
     (let s = dp_settings D; u = pa_unicode (dp_parsers D)
      in service_inspectors u s (Some (deterministic_inspector u
        # (if presidio_url s = None then []
           else [presidio_inspector u \<lparr>ps_threshold = presidio_score_threshold s, ps_language = lit ''en'', ps_post = ca_presidio C\<rparr>])
        @ (case classifier_from_settings u s (ca_classifier C) of
             Inl _ \<Rightarrow> [] \<comment> \<open>no URL\<close> | Inr c \<Rightarrow> [classifier_inspector u c]))))"

definition chosen_sandbox :: "deployment \<Rightarrow> call_answers \<Rightarrow> sandbox option" where
  "chosen_sandbox D C =
     map_option (container_port (dp_float_repr D) (ca_round3 C) (ca_runtime C) (ca_run C) (ca_hex C)) (build_sandbox (dp_settings D))"

definition deployed_env :: "deployment \<Rightarrow> call_answers \<Rightarrow> call_env" where
  "deployed_env D C =
     \<lparr>ce_now = ca_now C, ce_wall = ca_wall C, ce_latency = ca_latency C, ce_policy = chosen_policy D C,
      ce_inspectors = chosen_inspectors D C, ce_sandbox = chosen_sandbox D C\<rparr>"

section \<open>Readiness\<close>

text \<open>\<^verbatim>\<open>available()\<close> of the chosen store; the in-memory ones always are.\<close>

fun store_available :: "'m + database \<Rightarrow> bool \<times> ('m + database)" where
  "store_available (Inl a) = (True, Inl a)"
| "store_available (Inr db) = (let (ok, db') = db_available db in (ok, Inr db'))"

definition stores_state ::
  "(approvals_state, 't, incidents_state) gateway \<Rightarrow> bool \<times> (approvals_state, 't, incidents_state) gateway" where
  "stores_state s =
     (let (ok, a) = store_available (gw_approvals s); s = s\<lparr>gw_approvals := a\<rparr>
      in if \<not> ok then (False, s)
         else let (ok, n) = store_available (gw_incidents s) in (ok, s\<lparr>gw_incidents := n\<rparr>))"

definition policy_available :: "deployment \<Rightarrow> call_answers \<Rightarrow> bool" where
  "policy_available D C \<longleftrightarrow> opa_url (dp_settings D) = None \<or> opa_available (ca_opa C)"

definition deployed_ready ::
  "deployment \<Rightarrow> call_answers \<Rightarrow> bool \<Rightarrow> (approvals_state, transport_state, incidents_state) gateway
    \<Rightarrow> (nat \<times> health_response) \<times> (approvals_state, transport_state, incidents_state) gateway" where
  "deployed_ready D C verifying s =
     (let (reachable, s) = stores_state s in ready (deployed_ports D) verifying (policy_available D C) reachable s)"

section \<open>Every deployment keeps the guarantees\<close>

lemma deployed_fields [simp]:
  "po_settings (deployed_ports D) = dp_settings D" "po_parsers (deployed_ports D) = dp_parsers D"
  "po_approvals (deployed_ports D) = either_approvals memory_repo (sql_repo (approval_ttl_seconds (dp_settings D)))"
  "po_incidents (deployed_ports D) = either_incidents memory_incidents sql_incidents"
  "ce_policy (deployed_env D C) = chosen_policy D C" "ce_wall (deployed_env D C) = ca_wall C"
  by (simp_all add: deployed_ports_def deployed_env_def)

text \<open>Settings that validate and installed drivers are all it takes to start.\<close>

lemma deployment_starts:
  assumes "validate_settings (dp_settings D) = Inr (dp_settings D)" and "dp_psycopg D" and "dp_kafka_python D" and "dp_otel D"
  shows "\<exists>s. create_app D = Inr s"
proof -
  have "database_url (dp_settings D) = Some url \<Longrightarrow> list_ex (\<lambda>p. prefix p url) database_prefixes" for url
    using assms(1) by (auto simp: validate_settings_def validator_defs split: if_splits sum.splits option.splits)
  then show ?thesis
    using assms(2-4) by (auto simp: create_app_def build_provider_def chosen_approvals_def chosen_incidents_def chosen_transport_def
        open_database_def producer_factory_def database_prefixes_def POSTGRES_PREFIXES_def split: option.split)
qed

lemma chosen_policy_guarded: "guarded_engine (chosen_policy D C) (dp_parsers D) (dp_settings D)"
  using builtin.guarded_engine_axioms opa.guarded_engine_axioms by (auto simp: chosen_policy_def)

lemma created_gateway:
  assumes "create_app D = Inr s0"
  obtains a k n where "s0 = new_gateway (deployed_ports D) a k n"
    and "tb_approvals (dp_tables D) = [] \<longrightarrow> case_sum as_inv sq_inv a \<and> (\<forall>t i. case_sum as_seen sq_seen a t i = None)"
  using assms
  by (auto simp: create_app_def chosen_approvals_def open_database_def as_seen_def as_inv_def new_approval_store_def
      DEFAULT_MAX_RECORDS_def sq_seen_def sq_inv_def row_of_def new_database_def
      split: sum.splits option.splits if_splits)

lemma deployed_history:
  assumes "create_app D = Inr s0" and "tb_approvals (dp_tables D) = []" and "served (deployed_ports D) s0 h s t"
  shows "stores.either.history_ok (deployed_ports D) (set h) s t"
proof -
  obtain a k n where s0: "s0 = new_gateway (deployed_ports D) a k n"
    "case_sum as_inv sq_inv a \<and> (\<forall>t i. case_sum as_seen sq_seen a t i = None)"
    using created_gateway [OF assms(1)] assms(2) by metis
  then have "stores.either.history_ok (deployed_ports D) {} s0 t" for t
    by (simp add: stores.either.history_ok_def stores.either.four_eyes_def new_gateway_def Let_def)
  from stores.either.served_history_ok [OF assms(3) _ this] show ?thesis by simp
qed

text \<open>
  Two people stand behind every action with a side effect that a deployment with the built-in policy
  allows, whichever store its settings choose and however that store fails.
\<close>

lemma deployed_four_eyes:
  assumes "create_app D = Inr s0" and "tb_approvals (dp_tables D) = []" and "served (deployed_ports D) s0 h s t"
    and "t \<le> ca_wall C" and "opa_url (dp_settings D) = None"
    and "inspect_action (deployed_ports D) (deployed_env D C) r p s = Inr (d, s')" and "sd_verdict d = ALLOW"
    and "ar_side_effect r \<in> APPROVAL_EFFECTS"
  shows "\<exists>token a. ar_approval_token r = Some token \<and> proposed (deployed_ports D) (set h) a \<and> reviewed (set h) token a
    \<and> consumable (digest_of (deployed_ports D) r) (pr_tenant_id p) a"
proof -
  let ?P = "deployed_ports D" and ?E = "deployed_env D C" and ?seen = "case_sum as_seen sq_seen"
  from stores.either.history_ok_later [OF deployed_history [OF assms(1-3)] assms(4)]
  have ok: "case_sum as_inv sq_inv (gw_approvals s)" "stores.either.four_eyes ?P (set h) (gw_approvals s) (ca_wall C)"
    by (simp_all add: stores.either.history_ok_def)
  have policy: "ce_policy ?E = local_policy_engine (dp_parsers D) (dp_settings D)"
    using assms(5) by (simp add: chosen_policy_def)
  have "ar_side_effect r \<notin> {SE_NONE, SE_READ}" using assms(8) by (auto simp: APPROVAL_EFFECTS_def)
  from local.allowed_action [OF policy assms(6,7) this] obtain token where token: "ar_approval_token r = Some token"
    "repo_consume (po_approvals ?P) (gw_approvals s) (ca_wall C) token (digest_of ?P r) (pr_tenant_id p) = (Inr True, gw_approvals s')"
    by auto
  obtain a where "?seen (gw_approvals s) (ca_wall C) token = Some a" "consumable (digest_of ?P r) (pr_tenant_id p) a"
    using stores.either.consume_result [OF ok(1) token(2) [unfolded deployed_fields]] by auto
  then show ?thesis
    using token(1) ok(2) by (auto simp: stores.either.four_eyes_def consumable_def)
qed


text \<open>A deployment on SQLite and Kafka with an OPA server, whose database refuses every statement.\<close>

definition example_deployment :: deployment where
  "example_deployment = \<lparr>dp_settings = default_settings\<lparr>database_url := Some (lit ''sqlite:///g.db''),
       kafka_bootstrap_servers := Some (lit ''k:9092''), opa_url := Some (lit ''http://opa:8181'')\<rparr>,
     dp_parsers = po_parsers example_ports, dp_schema = po_schema example_ports, dp_sha256 = (\<lambda>s. s),
     dp_float_repr = (\<lambda>_. []), dp_str = (\<lambda>_. []), dp_psycopg = True, dp_kafka_python = True, dp_otel = True,
     dp_tables = no_tables, dp_outcomes = replicate 100 outcome.Refused, dp_case_outcomes = replicate 100 outcome.Refused,
     dp_broker = (\<lambda>_. ([], \<lambda>_. healthy_attempt))\<rparr>"

lemma example_deployment_validates: "validate_settings (dp_settings example_deployment) = Inr (dp_settings example_deployment)"
proof -
  have "adapter_bounds (dp_settings example_deployment)"
    by (simp add: adapter_bounds_def example_deployment_def default_settings_def unset_or_def name_chars_def ascii_letter_def
        one_of_def http_url_def lit_def)
  then show ?thesis
    by (simp add: validate_settings_def validator_defs settings_bounds_def example_deployment_def default_settings_def
        name_chars_def ascii_letter_def one_of_def lit_def database_prefixes_def)
qed

definition silent_servers :: call_answers where
  "silent_servers = \<lparr>ca_now = 0, ca_wall = 0, ca_latency = 0, ca_opa = \<lparr>oc_post = (\<lambda>_ _. None), oc_health = None\<rparr>,
     ca_presidio = (\<lambda>_. None), ca_classifier = (\<lambda>_. None), ca_runtime = (\<lambda>_. None), ca_run = (\<lambda>_ _. chatty_run),
     ca_round3 = (\<lambda>x. x), ca_hex = lit ''0''\<rparr>"


end
