(* ===== verification/Telemetry.thy ===== *)
theory Telemetry
  imports Wiring
begin

text \<open>
  What the gateway tells an operator: the metrics of \<^verbatim>\<open>metrics.py\<close>, the page that renders them, and
  the span attributes of \<^verbatim>\<open>tracing.py\<close>. The Prometheus client is third-party: a counter is its
  number, a gauge its last value, and a histogram the list of what it observed; how they are written
  out is an argument of the page. Spans are only what \<^verbatim>\<open>set_attributes\<close> is handed.
\<close>

section \<open>GatewayMetrics\<close>

record metrics =
  mx_decisions :: "str \<times> str \<times> str \<Rightarrow> nat" \<comment> \<open>point, verdict, reason\<close>
  mx_latency :: "str \<Rightarrow> real list"
  mx_rejections :: "str \<Rightarrow> nat"
  mx_approvals :: "str \<Rightarrow> nat option" \<comment> \<open>\<open>None\<close>: the label was never set\<close>
  mx_audit_pending :: nat
  mx_audit_dropped :: nat
  mx_audit_in_flight :: int
  mx_detector_latency :: "str \<Rightarrow> real list"
  mx_sandbox_runs :: "str \<Rightarrow> nat"
  mx_store_available :: bool
  mx_incidents_open :: nat

definition new_metrics :: metrics where
  "new_metrics = \<lparr>mx_decisions = (\<lambda>_. 0), mx_latency = (\<lambda>_. []), mx_rejections = (\<lambda>_. 0), mx_approvals = Map.empty,
     mx_audit_pending = 0, mx_audit_dropped = 0, mx_audit_in_flight = 0, mx_detector_latency = (\<lambda>_. []),
     mx_sandbox_runs = (\<lambda>_. 0), mx_store_available = False, mx_incidents_open = 0\<rparr>"

definition inc :: "'l \<Rightarrow> ('l \<Rightarrow> nat) \<Rightarrow> 'l \<Rightarrow> nat" where
  "inc l c = c(l := c l + 1)"

definition noted :: "'l \<Rightarrow> real \<Rightarrow> ('l \<Rightarrow> real list) \<Rightarrow> 'l \<Rightarrow> real list" where
  "noted l x h = h(l := h l @ [x])"

definition decision_labels :: "security_decision \<Rightarrow> str \<times> str \<times> str" where
  "decision_labels d = (point_value (sd_point d), verdict_value (sd_verdict d), sd_reason_code d)"

definition observe :: "security_decision \<Rightarrow> metrics \<Rightarrow> metrics" where
  "observe d m = m\<lparr>mx_decisions := inc (decision_labels d) (mx_decisions m),
     mx_latency := noted (point_value (sd_point d)) (sd_latency_ms d / 1000) (mx_latency m)\<rparr>"

definition observe_detector :: "str \<Rightarrow> real \<Rightarrow> metrics \<Rightarrow> metrics" where
  "observe_detector detector seconds m = m\<lparr>mx_detector_latency := noted detector seconds (mx_detector_latency m)\<rparr>"

definition observe_sandbox_run :: "str \<Rightarrow> metrics \<Rightarrow> metrics" where
  "observe_sandbox_run outcome m = m\<lparr>mx_sandbox_runs := inc outcome (mx_sandbox_runs m)\<rparr>"

definition observe_rejection :: "str \<Rightarrow> metrics \<Rightarrow> metrics" where
  "observe_rejection reason m = m\<lparr>mx_rejections := inc reason (mx_rejections m)\<rparr>"

text \<open>How a run of \<^verbatim>\<open>execute\<close> is counted.\<close>

definition run_outcome :: "sandbox_result \<Rightarrow> str" where
  "run_outcome r =
     (if sr_timed_out r then lit ''timed_out'' else if sr_output_truncated r then lit ''output_limit''
      else if sr_exit_code r = Some 0 then lit ''completed'' else lit ''failed'')"

text \<open>
  \<^verbatim>\<open>render\<close> up to serialising. The stores are asked in turn, and the first that is unavailable
  ends the asking.
\<close>

definition set_approvals :: "(approval_status \<times> nat) list \<Rightarrow> metrics \<Rightarrow> metrics" where
  "set_approvals counts m =
     m\<lparr>mx_approvals := foldl (\<lambda>g (st, n). g(approval_status_value st \<mapsto> n)) (mx_approvals m) counts\<rparr>"

definition ask_stores ::
  "('a \<Rightarrow> (store_error + (approval_status \<times> nat) list) \<times> 'a) \<Rightarrow> ('i \<Rightarrow> (store_error + nat) \<times> 'i)
    \<Rightarrow> 'a \<Rightarrow> 'i \<Rightarrow> metrics \<Rightarrow> metrics \<times> 'a \<times> 'i" where
  "ask_stores approvals incidents_open a i m =
     (let m = m\<lparr>mx_store_available := False\<rparr>
      in case approvals a of
           (Inl _, a) \<Rightarrow> (m, a, i)
         | (Inr counts, a) \<Rightarrow>
             let m = set_approvals counts m
             in case incidents_open i of
                  (Inl _, i) \<Rightarrow> (m, a, i)
                | (Inr n, i) \<Rightarrow> (m\<lparr>mx_incidents_open := n, mx_store_available := True\<rparr>, a, i))"

definition audit_gauges :: "nat \<Rightarrow> nat \<Rightarrow> int \<Rightarrow> metrics \<Rightarrow> metrics" where
  "audit_gauges pending dropped flying m =
     m\<lparr>mx_audit_pending := pending, mx_audit_dropped := dropped, mx_audit_in_flight := flying\<rparr>"

section \<open>The metrics page of a deployment\<close>

fun counts_of :: "int \<Rightarrow> approvals_state \<Rightarrow> (store_error + (approval_status \<times> nat) list) \<times> approvals_state" where
  "counts_of now (Inl a) = (let (counts, a) = as_counts a now in (Inr counts, Inl a))"
| "counts_of now (Inr db) = (let (counts, db) = sq_counts db now in (counts, Inr db))"

fun open_count_of :: "incidents_state \<Rightarrow> (store_error + nat) \<times> incidents_state" where
  "open_count_of (Inl n) = (Inr (is_open_count n), Inl n)"
| "open_count_of (Inr db) = (let (count, db) = si_open_count db in (count, Inr db))"

text \<open>\<^verbatim>\<open>AuditSink.in_flight\<close>: a transport without the attribute has none.\<close>

fun transport_in_flight :: "transport_state \<Rightarrow> int" where
  "transport_in_flight (Inl _) = 0"
| "transport_in_flight (Inr w) = in_flight (fst (kw_state w))"

definition metrics_page ::
  "(metrics \<Rightarrow> 'b) \<Rightarrow> int \<Rightarrow> (approvals_state, transport_state, incidents_state) gateway \<Rightarrow> metrics
    \<Rightarrow> 'b \<times> (approvals_state, transport_state, incidents_state) gateway \<times> metrics" where
  "metrics_page generate_latest now s m =
     (let k = gw_audit s; flying = transport_in_flight (sk_transport k);
          (m, a, i) = ask_stores (counts_of now) open_count_of (gw_approvals s) (gw_incidents s) m;
          m = audit_gauges (length (sk_pending k)) (sk_dropped k) flying m
      in (generate_latest m, s\<lparr>gw_approvals := a, gw_incidents := i\<rparr>, m))"

section \<open>Spans\<close>

datatype attribute = AttrText str | AttrTexts "str list"

definition span_attributes :: "(uuid \<Rightarrow> str) \<Rightarrow> security_decision \<Rightarrow> (str \<times> attribute) list" where
  "span_attributes uuid_text d =
     [(lit ''guardrail.enforcement_point'', AttrText (point_value (sd_point d))),
      (lit ''guardrail.verdict'', AttrText (verdict_value (sd_verdict d))),
      (lit ''guardrail.reason_code'', AttrText (sd_reason_code d)),
      (lit ''guardrail.policy_version'', AttrText (sd_policy_version d)),
      (lit ''guardrail.trace_id'', AttrText (uuid_text (sd_trace_id d))),
      (lit ''guardrail.evidence_categories'', AttrTexts (sorted_list_of_set (ev_category ` set (sd_evidence d))))]"

section \<open>What the numbers mean\<close>

text \<open>A registry that observed decisions counts exactly those, label by label.\<close>

lemma foldl_inc: "mx_decisions (foldl (\<lambda>m d. observe d m) m ds) l
    = mx_decisions m l + length (filter (\<lambda>d. decision_labels d = l) ds)"
  by (induction ds arbitrary: m) (auto simp: observe_def inc_def)

lemma foldl_latency: "mx_latency (foldl (\<lambda>m d. observe d m) m ds) p
    = mx_latency m p @ map (\<lambda>d. sd_latency_ms d / 1000) (filter (\<lambda>d. point_value (sd_point d) = p) ds)"
  by (induction ds arbitrary: m) (auto simp: observe_def noted_def)

theorem decisions_counted:
  "mx_decisions (foldl (\<lambda>m d. observe d m) new_metrics ds) (point_value pt, verdict_value v, reason)
      = length (filter (\<lambda>d. sd_point d = pt \<and> sd_verdict d = v \<and> sd_reason_code d = reason) ds)"
proof -
  have "point_value a = point_value b \<longleftrightarrow> a = b" for a b by (cases a; cases b) (simp_all add: lit_def)
  then show ?thesis by (simp add: foldl_inc new_metrics_def decision_labels_def verdict_value_inj)
qed

text \<open>
  The labels and the spans do not tell who asked or what for: decisions that agree in point,
  verdict, reason, policy version, trace and categories of evidence leave the same attributes, and those
  that agree in point, verdict, reason and latency the same metrics.
\<close>

lemma spans_name_nobody:
  assumes "sd_point d = sd_point d'" and "sd_verdict d = sd_verdict d'" and "sd_reason_code d = sd_reason_code d'"
    and "sd_policy_version d = sd_policy_version d'" and "sd_trace_id d = sd_trace_id d'"
    and "ev_category ` set (sd_evidence d) = ev_category ` set (sd_evidence d')"
  shows "span_attributes u d = span_attributes u d'"
  using assms by (simp add: span_attributes_def)

lemma metrics_name_nobody:
  assumes "sd_point d = sd_point d'" and "sd_verdict d = sd_verdict d'" and "sd_reason_code d = sd_reason_code d'"
    and "sd_latency_ms d = sd_latency_ms d'"
  shows "observe d m = observe d' m"
  using assms by (simp add: observe_def decision_labels_def)

text \<open>
  A scrape reads every status of the approvals, and a store that is down does not take it away: the
  page is written with the audit gauges of the moment, and the incident gauge keeps its value.
\<close>

lemma foldl_gauges:
  "foldl (\<lambda>g (st, n). g(approval_status_value st \<mapsto> n)) g0 (map (\<lambda>st. (st, f st)) approval_statuses) (approval_status_value st)
    = Some (f st)"
  by (cases st) (simp_all add: approval_statuses_def lit_def)

lemma all_statuses: "map_of (map (\<lambda>st. (st, f st)) approval_statuses) st = Some (f st)"
  by (cases st) (simp_all add: approval_statuses_def)

lemma counts_of_shape:
  assumes "counts_of now a = (Inr counts, a')"
  shows "\<exists>f. counts = map (\<lambda>st. (st, f st)) approval_statuses"
proof (cases a)
  case (Inl store)
  then show ?thesis using assms by (auto simp: as_counts_def Let_def)
next
  case (Inr db)
  then show ?thesis using assms by (auto simp: sq_counts_def db_return_def elim!: db_then_cases split: prod.splits)
qed

theorem scrape_reports:
  assumes "metrics_page out now s m = (page, s', m')"
  shows "mx_audit_pending m' = length (sk_pending (gw_audit s)) \<and> mx_audit_dropped m' = sk_dropped (gw_audit s)
    \<and> (if mx_store_available m'
       then \<exists>counts n. fst (counts_of now (gw_approvals s)) = Inr counts \<and> fst (open_count_of (gw_incidents s)) = Inr n
         \<and> mx_incidents_open m' = n \<and> (\<forall>st. mx_approvals m' (approval_status_value st) = map_of counts st)
       else mx_incidents_open m' = mx_incidents_open m)"
proof -
  obtain answer a where counts: "counts_of now (gw_approvals s) = (answer, a)" by (cases "counts_of now (gw_approvals s)")
  obtain answer' i where cases: "open_count_of (gw_incidents s) = (answer', i)" by (cases "open_count_of (gw_incidents s)")
  show ?thesis
  proof (cases answer)
    case (Inl e)
    then show ?thesis using assms counts by (auto simp: metrics_page_def ask_stores_def audit_gauges_def Let_def)
  next
    case (Inr xs)
    then obtain f where "xs = map (\<lambda>st. (st, f st)) approval_statuses" using counts_of_shape counts by blast
    then show ?thesis
      using assms counts cases Inr foldl_gauges [of "mx_approvals m" f] all_statuses [of f]
      by (cases answer') (auto simp: metrics_page_def ask_stores_def audit_gauges_def set_approvals_def Let_def)
  qed
qed

end
