(* ===== verification/Spec2Isabelle.thy ===== *)
theory Spec2Isabelle
  imports Scenarios Telemetry
begin

text \<open>
  Verification library of the LLM security and agent guardrail gateway, the Python package under
  \<^verbatim>\<open>src/guardrail_gateway\<close> (file names below are relative to it).

  The program. Applications send what crosses a trust boundary to the gateway: prompts, retrieved
  documents, model output and proposed tool actions. A request is authenticated (\<^verbatim>\<open>identity.py\<close>) and
  reaches its handler (\<^verbatim>\<open>app.py\<close>), which calls the service (\<^verbatim>\<open>service.py\<close>). The service refuses when
  the audit trail could not take the decision or a quota is spent (\<^verbatim>\<open>audit.py\<close>, \<^verbatim>\<open>limits.py\<close>), runs the
  detectors (\<^verbatim>\<open>detectors.py\<close>, \<^verbatim>\<open>normalize.py\<close>, \<^verbatim>\<open>classifier.py\<close>, \<^verbatim>\<open>presidio.py\<close>), asks a policy
  engine (\<^verbatim>\<open>policy.py\<close> or an OPA server through \<^verbatim>\<open>opa.py\<close>), rewrites sensitive values (\<^verbatim>\<open>sensitive.py\<close>),
  keeps approvals of risky actions and incident cases (\<^verbatim>\<open>approvals.py\<close>, \<^verbatim>\<open>incidents.py\<close>, in SQL
  \<^verbatim>\<open>stores.py\<close>), may run allowed code in a container (\<^verbatim>\<open>sandbox.py\<close>), and publishes and records what it
  decided (\<^verbatim>\<open>audit.py\<close>, \<^verbatim>\<open>kafka.py\<close>, \<^verbatim>\<open>metrics.py\<close>, \<^verbatim>\<open>tracing.py\<close>). \<^verbatim>\<open>redteam/\<close> is the release gate: a suite
  of attacks and benign requests run against the gateway and compared with a recorded baseline.

  How it is modelled. Each class is a record of its fields and each method a function from the state
  to its answer and the new state, under the method's name, often with a prefix for its class
  (\<open>rl_\<close> rate limiter, \<open>eb_\<close> budget, \<open>vh_\<close> violations, \<open>as_\<close> approvals, \<open>va_\<close> vault, \<open>sk_\<close> audit
  sink, \<open>dl_\<close> decision log, \<open>is_\<close> incidents, \<open>sq_\<close> and \<open>si_\<close> the SQL stores, \<open>kt_\<close> Kafka). An exception
  is the left side of a sum, never left out: \<open>py_error\<close> for what Python raises, an error type of its own
  for what a module defines. Locks serialise the calls on one object, so an interleaving of threads is
  a list of calls in the order they took the lock. Strings are lists of code points, a Python int is
  \<open>int\<close> or \<open>nat\<close>, a float is a real number, so its rounding and its special values are not there, and
  a clock reading is an argument. An identifier of \<^verbatim>\<open>uuid4\<close> is the next number never drawn before.

  The theories, from the ground up.

  \<^item> Prelude, Models, Config, Pyregex, Utf8, Urls: strings, ordered dictionaries and slices; the data of
    \<^verbatim>\<open>models.py\<close>; the settings with their bounds and validators; what is used of \<^verbatim>\<open>re\<close>, UTF-8, URL
    splitting and path normalisation.
  \<^item> Limiters, Approvals, Incidents, Sensitive, Vault, Auditing, Output, Tools, Policy, Evidence: one
    component each, with its operations and its invariant.
  \<^item> Service: the handlers of \<^verbatim>\<open>service.py\<close>, each whole, over \<open>ports\<close> (the collaborators that stay) and
    \<open>call_env\<close> (what clocks, policy, detectors and sandbox answer in one call). Identity and App: the
    caller's principal, the endpoints, and \<open>serve\<close>, which dispatches a request.
  \<^item> Normalize, Readings, Detectors, Remote, Opa, Stores, Kafka, Sandbox: the adapters. Stores has the
    tables and a list of outcomes, one for each statement: done, refused, or applied with the answer lost.
    Kafka has the broker beside the transport and a script of what each attempt and callback meets.
  \<^item> Wiring, Telemetry: what \<^verbatim>\<open>create_app\<close> builds from settings, readiness, the metrics and the spans.
  \<^item> Redteam, Scenarios: the suite's runner, metrics and gate, its dataset and its baseline.
  \<^item> Examples, Upkeep, Enforcement, Screening, Batches, Access, Answers, Detection: proofs over the service,
    from what each call keeps to whole histories.

  The contracts between components are locales, each interpreted where it is provided:
  \<open>approval_repository\<close> and \<open>incident_repository\<close> (in memory; the first and the tenant separation
  \<open>tenant_cases\<close> also in SQL), \<open>pseudonym_vault\<close>, \<open>audit_transport\<close>, \<open>decision_point\<close> (the built-in
  engine), \<open>guarded_engine\<close> (it and OPA), \<open>content_inspector\<close> (each detector). In Wiring, a choice between two
  adapters keeps the contract of both.

  What is shown.

  \<^item> Actions: a side effect happens only by consuming an approval of exactly that action, which another
    person granted; an approval is consumed once, over the in-memory and the SQL store with any failures;
    without a policy engine nothing risky passes; the sandbox is given only code that was allowed.
  \<^item> Content: what continues was cleared, with its sensitive values handled as configured; redacted values
    have no influence on the result; pseudonyms restore to the original and never leave their scope; a
    canary or an injection is found in every disguise the detectors claim; a batch admits only documents
    the caller may read; accepted output is grounded in its sources.
  \<^item> Evidence of it: a permission is on the audit trail and in the log; the trail is complete and in order
    but for counted drops; Kafka loses nothing and catches up after an outage; one canary leak opens one
    case, and a case in SQL appears whole or not at all.
  \<^item> Access: a principal was signed by a trusted key; answers stay in the caller's tenant; no request
    raises; both hold of every deployment the settings can describe.
  \<^item> Bounds: the rate limiter's window, the spacing of key fetches, the sandbox's time and output.
  \<^item> The release gate: when it passes, for any baseline refreshed from a run, and for the shipped one.

  Bounds and fuel. A repetition in a regular expression is unrolled at most as often as the text has
  characters left, which no match can exceed, since each round of the patterns used takes one. The search
  for the occurrences of a canary has fuel for the length of the text, and advances by at least one.
  The sandbox's wait is a partial function whose value is proved to exist when each round that does not
  end the wait takes at least the twentieth of a second it asks for. Every other recursion is structural or has its measure.

  Parameters, with the hypotheses named where they are used: the Unicode tables and NFKC, SHA-256, the
  printing of floats and of values that are not strings, PyJWT, the SQL parser, the JSON Schema
  validator, the HTTP servers (keys, OPA, Presidio, the classifier), the database driver, the Kafka client
  and broker, the container runtime, and the Prometheus and OpenTelemetry packages.

  Not modelled, and why: FastAPI's routing and request validation (a request here is one that validated;
  the field constraints are the \<open>valid_\<close> predicates); the reading of settings from the environment; the
  text of SQL statements and the drivers behind \<^verbatim>\<open>open_database\<close>; command-line parsing, printing and the HTTP
  client of \<^verbatim>\<open>redteam/__main__.py\<close>; the keyword adapters \<^verbatim>\<open>create_app\<close> can be handed in tests; times finer than
  the order of calls, such as two threads inside one handler between two locks.
\<close>

end
